(* ===== verification/Prelude.thy ===== *)
theory Prelude
  imports Main "HOL-Library.Sublist" "HOL-Library.List_Lexorder" "HOL-Library.Char_ord"
    "HOL-Library.Word" "HOL-Library.Multiset" "HOL-Library.AList"
begin

text \<open>
  What every component shares: the parts of Go's \<open>strings\<close> and \<open>strconv\<close> packages the
  program calls, Go maps, and the two contracts several components provide.

  A Go string is its bytes, a list of \<open>char\<close>. White space is the Unicode white space of
  \<open>unicode.IsSpace\<close>, as UTF-8 byte sequences, so \<open>trim_space\<close> and \<open>str_fields\<close> agree with
  \<open>strings.TrimSpace\<close> and \<open>strings.Fields\<close> on valid UTF-8. Case conversion and character classes are
  those of ASCII: a non-ASCII letter has no case here.

  A Go map that is ranged over is an association list with distinct keys, in the order in which
  the run iterates it; Go leaves that order open, so a result that must not depend on it is
  stated for every reordering (locale \<open>map_reader\<close>). A map that is only read by key is a
  partial function.
\<close>

section \<open>Definitions\<close>

named_theorems go_simps "equations that evaluate the string operations on literals"

type_synonym 'v go_map = "(string \<times> 'v) list"

subsection \<open>White space\<close>

definition space_runes :: "string list" where
  "space_runes =
     [[CHR 0x20], [CHR 0x09], [CHR 0x0A], [CHR 0x0B], [CHR 0x0C], [CHR 0x0D],
      [CHR 0xC2, CHR 0x85], [CHR 0xC2, CHR 0xA0], [CHR 0xE1, CHR 0x9A, CHR 0x80],
      [CHR 0xE2, CHR 0x80, CHR 0x80], [CHR 0xE2, CHR 0x80, CHR 0x81],
      [CHR 0xE2, CHR 0x80, CHR 0x82], [CHR 0xE2, CHR 0x80, CHR 0x83],
      [CHR 0xE2, CHR 0x80, CHR 0x84], [CHR 0xE2, CHR 0x80, CHR 0x85],
      [CHR 0xE2, CHR 0x80, CHR 0x86], [CHR 0xE2, CHR 0x80, CHR 0x87],
      [CHR 0xE2, CHR 0x80, CHR 0x88], [CHR 0xE2, CHR 0x80, CHR 0x89],
      [CHR 0xE2, CHR 0x80, CHR 0x8A], [CHR 0xE2, CHR 0x80, CHR 0xA8],
      [CHR 0xE2, CHR 0x80, CHR 0xA9], [CHR 0xE2, CHR 0x80, CHR 0xAF],
      [CHR 0xE2, CHR 0x81, CHR 0x9F], [CHR 0xE3, CHR 0x80, CHR 0x80]]"

text \<open>Strip every leading occurrence of one of the given byte sequences.\<close>

function strip_front :: "string list \<Rightarrow> string \<Rightarrow> string" where
  "strip_front ws s =
     (case find (\<lambda>w. w \<noteq> [] \<and> prefix w s) ws of
        None \<Rightarrow> s
      | Some w \<Rightarrow> strip_front ws (drop (length w) s))"
  by pat_completeness auto
termination
  by (relation "measure (\<lambda>(ws, s). length s)") (auto simp: find_Some_iff prefix_def)

declare strip_front.simps [simp del]

definition trim_left :: "string \<Rightarrow> string" where
  "trim_left s = strip_front space_runes s"

definition trim_right :: "string \<Rightarrow> string" where
  "trim_right s = rev (strip_front (map rev space_runes) (rev s))"

definition trim_space :: "string \<Rightarrow> string" where
  "trim_space s = trim_right (trim_left s)"

definition blank :: "string \<Rightarrow> bool" where
  "blank s \<longleftrightarrow> trim_space s = []"

definition starts_space :: "string \<Rightarrow> bool" where
  "starts_space s \<longleftrightarrow> list_ex (\<lambda>w. prefix w s) space_runes"

fun take_word :: "string \<Rightarrow> string" where
  "take_word [] = []"
| "take_word (c # cs) = (if starts_space (c # cs) then [] else c # take_word cs)"

lemma length_strip_front: "length (strip_front ws s) \<le> length s"
proof (induction ws s rule: strip_front.induct)
  case (1 ws s)
  then show ?case
    by (subst strip_front.simps) (fastforce split: option.split)
qed

function str_fields :: "string \<Rightarrow> string list" where
  "str_fields s =
     (case trim_left s of
        [] \<Rightarrow> []
      | c # cs \<Rightarrow> (c # take_word cs) # str_fields (drop (length (take_word cs)) cs))"
  by pat_completeness auto
termination
proof (relation "measure length")
  fix s c cs
  assume "trim_left s = c # cs"
  then have "Suc (length cs) \<le> length s"
    using length_strip_front [of space_runes s] by (simp add: trim_left_def)
  then show "(drop (length (take_word cs)) cs, s) \<in> measure length"
    by simp
qed simp

declare str_fields.simps [simp del]

subsection \<open>Case, character classes and the other string functions\<close>

definition lower_char :: "char \<Rightarrow> char" where
  "lower_char c = (if CHR ''A'' \<le> c \<and> c \<le> CHR ''Z'' then char_of (of_char c + (32 :: nat)) else c)"

definition to_lower :: "string \<Rightarrow> string" where
  "to_lower s = map lower_char s"

definition is_lower :: "char \<Rightarrow> bool" where
  "is_lower c \<longleftrightarrow> CHR ''a'' \<le> c \<and> c \<le> CHR ''z''"

definition is_upper :: "char \<Rightarrow> bool" where
  "is_upper c \<longleftrightarrow> CHR ''A'' \<le> c \<and> c \<le> CHR ''Z''"

definition is_digit :: "char \<Rightarrow> bool" where
  "is_digit c \<longleftrightarrow> CHR ''0'' \<le> c \<and> c \<le> CHR ''9''"

definition trim_prefix :: "string \<Rightarrow> string \<Rightarrow> string" where
  "trim_prefix s p = (if prefix p s then drop (length p) s else s)"

definition trim_suffix :: "string \<Rightarrow> string \<Rightarrow> string" where
  "trim_suffix s p = (if suffix p s then take (length s - length p) s else s)"

text \<open>\<open>strings.Trim\<close> with an ASCII cut set, \<open>strings.ReplaceAll\<close> of one character by another.\<close>

definition trim_set :: "string \<Rightarrow> string \<Rightarrow> string" where
  "trim_set cs s = rev (dropWhile (\<lambda>c. c \<in> set cs) (rev (dropWhile (\<lambda>c. c \<in> set cs) s)))"

definition replace_char :: "char \<Rightarrow> char \<Rightarrow> string \<Rightarrow> string" where
  "replace_char old new s = map (\<lambda>c. if c = old then new else c) s"

text \<open>\<open>strings.Cut\<close> at a one-character separator.\<close>

definition cut_at :: "char \<Rightarrow> string \<Rightarrow> string \<times> string \<times> bool" where
  "cut_at sep s =
     (if sep \<in> set s
      then (takeWhile (\<lambda>c. c \<noteq> sep) s, tl (dropWhile (\<lambda>c. c \<noteq> sep) s), True)
      else (s, [], False))"

fun join :: "string \<Rightarrow> string list \<Rightarrow> string" where
  "join sep [] = []"
| "join sep [x] = x"
| "join sep (x # y # ys) = x @ sep @ join sep (y # ys)"

fun contains :: "string \<Rightarrow> string \<Rightarrow> bool" where
  "contains [] sub = (sub = [])"
| "contains (c # cs) sub = (prefix sub (c # cs) \<or> contains cs sub)"

fun split_char :: "char \<Rightarrow> string \<Rightarrow> string list" where
  "split_char sep [] = [[]]"
| "split_char sep (c # cs) =
     (if c = sep then [] # split_char sep cs
      else (case split_char sep cs of [] \<Rightarrow> [[c]] | w # ws \<Rightarrow> (c # w) # ws))"

subsection \<open>Decimal numerals\<close>

definition digit_char :: "nat \<Rightarrow> char" where
  "digit_char d = char_of (48 + d)"

fun dec_of_nat :: "nat \<Rightarrow> string" where
  "dec_of_nat n = (if n < 10 then [digit_char n] else dec_of_nat (n div 10) @ [digit_char (n mod 10)])"

declare dec_of_nat.simps [simp del]

definition format_uint :: "'w::len word \<Rightarrow> string" where
  "format_uint w = dec_of_nat (unat w)"

definition format_int :: "'w::len word \<Rightarrow> string" where
  "format_int w = (if sint w < 0 then ''-'' @ dec_of_nat (nat (- sint w)) else dec_of_nat (nat (sint w)))"

definition format_bool :: "bool \<Rightarrow> string" where
  "format_bool b = (if b then ''true'' else ''false'')"

subsection \<open>Go maps\<close>

text \<open>The entries of a map in the order of its sorted keys (\<open>slices.Sort\<close> on the keys).\<close>

definition sorted_entries :: "'v go_map \<Rightarrow> 'v go_map" where
  "sorted_entries m = sort_key fst m"

text \<open>A lookup in a map with string values: Go's zero value for a missing key.\<close>

definition get_str :: "(string \<rightharpoonup> string) \<Rightarrow> string \<Rightarrow> string" where
  "get_str m k = (case m k of None \<Rightarrow> [] | Some v \<Rightarrow> v)"

text \<open>Two association lists that are the same Go map, iterated in different orders.\<close>

definition same_map :: "'v go_map \<Rightarrow> 'v go_map \<Rightarrow> bool" where
  "same_map m n \<longleftrightarrow> distinct (map fst m) \<and> mset m = mset n"

subsection \<open>Calls that may fail\<close>

text \<open>
  \<open>on_ok call wrap next\<close>: a call has returned a result or an error together with the new state;
  an error is wrapped and returned (\<open>if err != nil { return ..., wrap(err) }\<close>), a result is
  handed on. \<open>on_done\<close> is the same for a call whose only result is its error.
\<close>

definition on_ok ::
  "('e + 'a) \<times> 's \<Rightarrow> ('e \<Rightarrow> 'e) \<Rightarrow> ('a \<Rightarrow> 's \<Rightarrow> ('e + 'b) \<times> 's) \<Rightarrow> ('e + 'b) \<times> 's" where
  "on_ok call wrap nxt =
     (case call of
        (Inl e, s) \<Rightarrow> (Inl (wrap e), s)
      | (Inr x, s) \<Rightarrow> nxt x s)"

definition on_done ::
  "'e option \<times> 's \<Rightarrow> ('e \<Rightarrow> 'e) \<Rightarrow> ('s \<Rightarrow> ('e + 'b) \<times> 's) \<Rightarrow> ('e + 'b) \<times> 's" where
  "on_done call wrap nxt =
     (case call of
        (Some e, s) \<Rightarrow> (Inl (wrap e), s)
      | (None, s) \<Rightarrow> nxt s)"

lemma on_ok_simps [simp]:
  "on_ok (Inl e, s) wrap nxt = (Inl (wrap e), s)"
  "on_ok (Inr x, s) wrap nxt = nxt x s"
  by (simp_all add: on_ok_def)

lemma on_done_simps [simp]:
  "on_done (Some e, s) wrap nxt = (Inl (wrap e), s)"
  "on_done (None, s) wrap nxt = nxt s"
  by (simp_all add: on_done_def)

lemma on_ok_split:
  "P (on_ok call wrap nxt) \<longleftrightarrow>
     (\<forall>e s. call = (Inl e, s) \<longrightarrow> P (Inl (wrap e), s)) \<and> (\<forall>x s. call = (Inr x, s) \<longrightarrow> P (nxt x s))"
  by (cases call; cases "fst call") auto

lemma on_done_split:
  "P (on_done call wrap nxt) \<longleftrightarrow>
     (\<forall>e s. call = (Some e, s) \<longrightarrow> P (Inl (wrap e), s)) \<and> (\<forall>s. call = (None, s) \<longrightarrow> P (nxt s))"
  by (cases call; cases "fst call") auto

lemma on_ok_Inr:
  "on_ok call wrap nxt = (Inr y, s') \<longleftrightarrow> (\<exists>x s. call = (Inr x, s) \<and> nxt x s = (Inr y, s'))"
  by (cases call; cases "fst call") auto

lemma on_done_Inr:
  "on_done call wrap nxt = (Inr y, s') \<longleftrightarrow> (\<exists>s. call = (None, s) \<and> nxt s = (Inr y, s'))"
  by (cases call; cases "fst call") auto

section \<open>White space lemmas\<close>

lemma strip_front_none:
  "\<forall>w \<in> set ws. w \<noteq> [] \<longrightarrow> \<not> prefix w s \<Longrightarrow> strip_front ws s = s"
  by (subst strip_front.simps) (auto simp: find_Some_iff split: option.split)

lemma strip_front_result:
  "w \<in> set ws \<Longrightarrow> w \<noteq> [] \<Longrightarrow> \<not> prefix w (strip_front ws s)"
proof (induction ws s rule: strip_front.induct)
  case (1 ws s)
  then show ?case
    by (subst strip_front.simps) (auto simp: find_None_iff split: option.split)
qed

lemma strip_front_suffix: "suffix (strip_front ws s) s"
proof (induction ws s rule: strip_front.induct)
  case (1 ws s)
  then show ?case
    by (subst strip_front.simps)
      (auto split: option.split intro: suffix_order.trans [OF _ suffix_drop])
qed

lemma strip_front_idem [simp]: "strip_front ws (strip_front ws s) = strip_front ws s"
  by (rule strip_front_none) (auto dest: strip_front_result)

lemma trim_right_prefix: "prefix (trim_right s) s"
  using strip_front_suffix [of "map rev space_runes" "rev s"]
  by (simp add: trim_right_def suffix_to_prefix)

lemma trim_right_idem [simp]: "trim_right (trim_right s) = trim_right s"
  by (simp add: trim_right_def)

lemma trim_left_of_trimmed: "trim_left (trim_space s) = trim_space s"
  unfolding trim_left_def
proof (rule strip_front_none, intro ballI impI notI)
  fix w
  assume "w \<in> set space_runes" "w \<noteq> []" "prefix w (trim_space s)"
  moreover have "prefix (trim_space s) (trim_left s)"
    by (simp add: trim_space_def trim_right_prefix)
  ultimately show False
    using strip_front_result [of w space_runes s] by (auto simp: trim_left_def dest: prefix_order.trans)
qed

lemma trim_space_idem [simp]: "trim_space (trim_space s) = trim_space s"
proof -
  have "trim_space (trim_space s) = trim_right (trim_space s)"
    using trim_left_of_trimmed [of s] by (simp add: trim_space_def)
  then show ?thesis by (simp add: trim_space_def)
qed

lemma trim_space_Nil [simp, go_simps]: "trim_space [] = []"
  by (simp add: trim_space_def trim_left_def trim_right_def strip_front_none)

text \<open>A string whose first and last bytes are printable ASCII is trimmed already.\<close>

definition solid :: "char \<Rightarrow> bool" where
  "solid c \<longleftrightarrow> CHR 0x21 \<le> c \<and> c \<le> CHR 0x7E"

lemma space_runes_not_solid:
  "list_all (\<lambda>w. w \<noteq> [] \<and> \<not> solid (hd w) \<and> \<not> solid (last w)) space_runes"
  by code_simp

lemma space_rune_ends:
  "w \<in> set space_runes \<Longrightarrow> w \<noteq> [] \<and> \<not> solid (hd w) \<and> \<not> solid (last w)"
  using space_runes_not_solid by (simp add: list_all_iff)

lemma trim_left_solid: "solid c \<Longrightarrow> trim_left (c # s) = c # s"
  unfolding trim_left_def
  by (rule strip_front_none) (auto dest!: space_rune_ends simp: prefix_def Cons_eq_append_conv)

lemma trim_right_solid:
  assumes "solid c"
  shows "trim_right (s @ [c]) = s @ [c]"
  unfolding trim_right_def
proof (subst strip_front_none)
  show "\<forall>w \<in> set (map rev space_runes). w \<noteq> [] \<longrightarrow> \<not> prefix w (rev (s @ [c]))"
    using \<open>solid c\<close> by (auto dest!: space_rune_ends simp: prefix_def Cons_eq_append_conv)
      (metis hd_rev list.sel(1))
qed simp

lemma trim_space_solid: "s \<noteq> [] \<Longrightarrow> solid (hd s) \<Longrightarrow> solid (last s) \<Longrightarrow> trim_space s = s"
  by (metis append_butlast_last_id list.collapse trim_left_solid trim_right_solid trim_space_def)

lemma space_runes_no_solid: "list_all (\<lambda>w. list_all (\<lambda>c. \<not> solid c) w) space_runes"
  by code_simp

lemma strip_front_append:
  assumes "\<And>w. w \<in> set ws \<Longrightarrow> c \<notin> set w"
  shows "strip_front ws (s @ c # t) = strip_front ws s @ c # t"
proof (induction "length s" arbitrary: s rule: less_induct)
  case less
  have pre: "prefix w (s @ c # t) \<longleftrightarrow> prefix w s" if "w \<in> set ws" for w
  proof
    assume "prefix w (s @ c # t)"
    moreover have "\<not> prefix (s @ [c]) w"
      using assms [OF that] by (auto simp: prefix_def)
    ultimately show "prefix w s"
      by (metis append.assoc append_Cons append_Nil prefix_same_cases prefix_append prefix_snoc prefixI)
  qed (simp add: prefix_prefix)
  then have fnd: "find (\<lambda>w. w \<noteq> [] \<and> prefix w (s @ c # t)) ws = find (\<lambda>w. w \<noteq> [] \<and> prefix w s) ws"
    by (intro find_cong) auto
  show ?case
  proof (cases "find (\<lambda>w. w \<noteq> [] \<and> prefix w s) ws")
    case (Some w)
    then have w: "w \<noteq> []" "prefix w s"
      by (auto simp: find_Some_iff)
    then have "length (drop (length w) s) < length s"
      by (metis drop_eq_Nil length_drop diff_less length_greater_0_conv prefix_length_le prefix_order.antisym
          linorder_not_le le_zero_eq list.size(3) Nil_prefix)
    with less [of "drop (length w) s"] w Some fnd show ?thesis
      by (subst (1 2) strip_front.simps) (simp add: prefix_length_le)
  qed (subst (1 2) strip_front.simps, simp add: fnd)
qed

text \<open>Trimming a text that starts with a solid key.\<close>

lemma trim_space_solid_front:
  assumes "solid (hd (k @ [c]))" "solid c"
  shows "trim_space (k @ c # v) = k @ c # trim_right v"
proof -
  have "c \<notin> set w" if "w \<in> set (map rev space_runes)" for w
    using that space_runes_no_solid assms(2) by (auto simp: list_all_iff)
  then have "strip_front (map rev space_runes) (rev v @ c # rev k) =
      strip_front (map rev space_runes) (rev v) @ c # rev k"
    by (rule strip_front_append)
  then have "trim_right (k @ c # v) = k @ c # trim_right v"
    by (simp add: trim_right_def)
  moreover have "trim_left (k @ c # v) = k @ c # v"
    using assms by (cases k) (auto intro: trim_left_solid)
  ultimately show ?thesis
    by (simp add: trim_space_def)
qed

text \<open>Trimming commutes with a byte map that neither makes nor loses a white-space byte.\<close>

definition space_chars :: "char list" where
  "space_chars = concat space_runes"

lemma prefix_map_iff:
  assumes "\<And>c d. d \<in> set ds \<Longrightarrow> (f c = d) = (c = d)" "set w \<subseteq> set ds"
  shows "prefix w (map f s) = prefix w s"
  using assms(2)
proof (induction w arbitrary: s)
  case (Cons a w)
  have "prefix (a # w) (map f (x # xs)) = prefix (a # w) (x # xs)" for x xs
    using Cons assms(1) [of a x] by auto
  then show ?case by (cases s) simp_all
qed simp

lemma strip_front_map:
  assumes "\<And>c d. d \<in> set ds \<Longrightarrow> (f c = d) = (c = d)" "\<And>w. w \<in> set ws \<Longrightarrow> set w \<subseteq> set ds"
  shows "strip_front ws (map f s) = map f (strip_front ws s)"
  using assms(2)
proof (induction ws s rule: strip_front.induct)
  case (1 ws s)
  have eq: "find (\<lambda>w. w \<noteq> [] \<and> prefix w (map f s)) ws = find (\<lambda>w. w \<noteq> [] \<and> prefix w s) ws"
    using 1(2) prefix_map_iff [where ds = ds and f = f, OF assms(1)]
    by (intro find_cong) auto
  show ?case
  proof (cases "find (\<lambda>w. w \<noteq> [] \<and> prefix w s) ws")
    case None
    with eq show ?thesis by (simp add: strip_front.simps [of ws s] strip_front.simps [of ws "map f s"])
  next
    case (Some w)
    with 1 have "strip_front ws (map f (drop (length w) s)) = map f (strip_front ws (drop (length w) s))"
      by blast
    with Some eq show ?thesis
      by (simp add: strip_front.simps [of ws s] strip_front.simps [of ws "map f s"] drop_map)
  qed
qed

lemma trim_space_map:
  assumes "\<And>c d. d \<in> set space_chars \<Longrightarrow> (f c = d) = (c = d)"
  shows "trim_space (map f s) = map f (trim_space s)"
proof -
  have "strip_front space_runes (map f s) = map f (strip_front space_runes s)" for s
    by (rule strip_front_map [where ds = space_chars, OF assms]) (auto simp: space_chars_def)
  moreover have "strip_front (map rev space_runes) (map f s)
      = map f (strip_front (map rev space_runes) s)" for s
    by (rule strip_front_map [where ds = space_chars, OF assms]) (auto simp: space_chars_def)
  ultimately show ?thesis
    by (simp add: trim_space_def trim_left_def trim_right_def rev_map)
qed

section \<open>Words of a string\<close>

lemma starts_space_append: "starts_space b \<Longrightarrow> starts_space (b @ r)"
  by (auto simp: starts_space_def list_ex_iff intro: prefix_prefix)

lemma space_runes_tl: "list_all (\<lambda>w. CHR 0x20 \<notin> set (tl w)) space_runes"
  by code_simp

lemma starts_space_blank:
  assumes "starts_space ((c # w) @ CHR 0x20 # r)"
  shows "starts_space (c # w)"
proof -
  from assms obtain e where e: "e \<in> set space_runes" "prefix e ((c # w) @ CHR 0x20 # r)"
    by (auto simp: starts_space_def list_ex_iff)
  have tl: "CHR 0x20 \<notin> set (tl e)"
    using space_runes_tl e(1) by (simp add: list_all_iff)
  from e(2) have "prefix e (c # w) \<or> (\<exists>xs. e = (c # w) @ CHR 0x20 # xs)"
    by (auto simp: prefix_append prefix_Cons)
  then have "prefix e (c # w)" using tl by auto
  with e(1) show ?thesis by (auto simp: starts_space_def list_ex_iff)
qed

lemma starts_space_strip: "starts_space s = (\<exists>w \<in> set space_runes. w \<noteq> [] \<and> prefix w s)"
  using space_rune_ends by (auto simp: starts_space_def list_ex_iff)

lemma trim_left_starts: "\<not> starts_space s \<Longrightarrow> trim_left s = s"
  unfolding trim_left_def by (rule strip_front_none) (auto simp: starts_space_strip)

lemma trim_left_result: "\<not> starts_space (trim_left s)"
  by (auto simp: starts_space_strip trim_left_def dest: strip_front_result)

lemma trim_left_blank: "trim_left (CHR 0x20 # s) = trim_left s"
proof -
  have "find (\<lambda>w. w \<noteq> [] \<and> prefix w (CHR 0x20 # s)) space_runes = Some [CHR 0x20]"
    by (simp add: space_runes_def)
  then show ?thesis
    by (simp add: trim_left_def strip_front.simps [of _ "CHR 0x20 # s"])
qed

lemma trim_left_Nil [simp]: "trim_left [] = []"
  by (simp add: trim_left_def strip_front_none)

lemma take_word_prefix: "prefix (take_word s) s"
  by (induction s rule: take_word.induct) auto

lemma take_word_idem: "take_word (take_word s) = take_word s"
proof (induction s rule: take_word.induct)
  case (2 c cs)
  have "\<not> starts_space (c # take_word cs)" if "\<not> starts_space (c # cs)"
    using that starts_space_append [of "c # take_word cs"] take_word_prefix [of cs]
    by (metis append_Cons prefix_def)
  with 2 show ?case by auto
qed simp

lemma take_word_blank: "take_word w = w \<Longrightarrow> take_word (w @ CHR 0x20 # r) = w"
proof (induction w)
  case Nil
  have "starts_space (CHR 0x20 # r)"
    by (simp add: starts_space_def space_runes_def)
  then show ?case by simp
next
  case (Cons c w)
  then show ?case
    using starts_space_blank [of c w r] by (auto split: if_splits)
qed

definition is_word :: "string \<Rightarrow> bool" where
  "is_word w \<longleftrightarrow> w \<noteq> [] \<and> take_word w = w"

lemma is_word_starts: "is_word w \<Longrightarrow> \<not> starts_space w"
  by (cases w) (auto simp: is_word_def split: if_splits)

lemma str_fields_words: "w \<in> set (str_fields s) \<Longrightarrow> is_word w"
proof (induction s rule: str_fields.induct)
  case (1 s)
  show ?case
  proof (cases "trim_left s")
    case Nil
    with "1.prems" show ?thesis by (simp add: str_fields.simps [of s])
  next
    case (Cons c cs)
    then have "take_word (c # cs) = c # take_word cs"
      using trim_left_result [of s] by simp
    then have "is_word (c # take_word cs)"
      unfolding is_word_def by (metis list.distinct(1) take_word_idem)
    with 1 Cons show ?thesis by (auto simp: str_fields.simps [of s])
  qed
qed

lemma str_fields_Nil [simp, go_simps]: "str_fields [] = []"
  by (simp add: str_fields.simps)

lemma str_fields_blank: "str_fields (CHR 0x20 # s) = str_fields s"
  by (simp add: str_fields.simps [of s] str_fields.simps [of "CHR 0x20 # s"] trim_left_blank)

lemma str_fields_word: "is_word w \<Longrightarrow> str_fields w = [w]"
proof -
  assume w: "is_word w"
  then obtain c cs where "w = c # cs" "take_word cs = cs"
    by (cases w) (auto simp: is_word_def split: if_splits)
  with is_word_starts [OF w] show ?thesis
    by (simp add: str_fields.simps [of "c # cs"] trim_left_starts)
qed

lemma str_fields_word_blank: "is_word w \<Longrightarrow> str_fields (w @ CHR 0x20 # r) = w # str_fields r"
proof -
  assume w: "is_word w"
  then obtain c cs where cs: "w = c # cs" "take_word cs = cs"
    by (cases w) (auto simp: is_word_def split: if_splits)
  moreover have "\<not> starts_space (w @ CHR 0x20 # r)"
    using starts_space_blank [of c cs r] is_word_starts [OF w] cs(1) by auto
  ultimately show ?thesis
    by (simp add: str_fields.simps [of "c # cs @ CHR 0x20 # r"] trim_left_starts take_word_blank
        str_fields_blank)
qed

lemma str_fields_join: "\<forall>w \<in> set ws. is_word w \<Longrightarrow> str_fields (join [CHR 0x20] ws) = ws"
  by (induction "[CHR 0x20]" ws rule: join.induct) (auto simp: str_fields_word str_fields_word_blank)

lemma str_fields_join_fields: "str_fields (join [CHR 0x20] (str_fields s)) = str_fields s"
  by (rule str_fields_join) (auto dest: str_fields_words)

lemma take_word_tails: "take_word (a @ b) = a @ b \<Longrightarrow> b \<noteq> [] \<Longrightarrow> \<not> starts_space b"
proof (induction a)
  case Nil
  then show ?case by (cases b) (auto split: if_splits)
next
  case (Cons x a)
  then show ?case by (auto split: if_splits)
qed

lemma space_runes_butlast: "list_all (\<lambda>w. CHR 0x20 \<notin> set (butlast w)) space_runes"
  by code_simp

lemma join_words_no_suffix:
  "\<forall>w \<in> set ws. is_word w \<Longrightarrow> e \<in> set space_runes \<Longrightarrow> \<not> suffix e (join [CHR 0x20] ws)"
proof (induction "[CHR 0x20]" ws rule: join.induct)
  case 1
  then show ?case using space_rune_ends [of e] by simp
next
  case (2 w)
  show ?case
  proof
    assume "suffix e (join [CHR 0x20] [w])"
    then obtain a where "w = a @ e" by (auto simp: suffix_def)
    then show False
      using 2 take_word_tails [of a e] space_rune_ends [of e]
      by (auto simp: is_word_def starts_space_strip)
  qed
next
  case (3 x y ys)
  show ?case
  proof
    assume "suffix e (join [CHR 0x20] (x # y # ys))"
    then have "suffix e (join [CHR 0x20] (y # ys))
        \<or> (\<exists>z. e = z @ CHR 0x20 # join [CHR 0x20] (y # ys))"
      by (auto simp: suffix_append suffix_Cons)
    moreover have "join [CHR 0x20] (y # ys) \<noteq> []"
      using 3 by (cases ys) (auto simp: is_word_def)
    moreover have "CHR 0x20 \<notin> set (butlast e)"
      using space_runes_butlast 3 by (simp add: list_all_iff)
    ultimately show False
      using 3 by (auto simp: butlast_append)
  qed
qed

lemma join_words_starts:
  assumes "\<forall>w \<in> set ws. is_word w"
  shows "\<not> starts_space (join [CHR 0x20] ws)"
proof (cases ws)
  case Nil
  then show ?thesis using space_rune_ends by (auto simp: starts_space_strip)
next
  case (Cons w us)
  with assms have w: "is_word w" by simp
  then obtain c cs where "w = c # cs" by (cases w) (auto simp: is_word_def)
  with is_word_starts [OF w] starts_space_blank [of c cs] Cons show ?thesis
    by (cases us) auto
qed

lemma trim_join_words:
  assumes "\<forall>w \<in> set ws. is_word w"
  shows "trim_space (join [CHR 0x20] ws) = join [CHR 0x20] ws"
proof -
  have "trim_right (join [CHR 0x20] ws) = join [CHR 0x20] ws"
    unfolding trim_right_def
    using join_words_no_suffix [OF assms]
    by (subst strip_front_none) (auto simp: suffix_to_prefix)
  then show ?thesis
    using join_words_starts [OF assms] by (simp add: trim_space_def trim_left_starts)
qed

lemma set_take_word: "set (take_word s) \<subseteq> set s"
  using take_word_prefix by (rule set_mono_prefix)

lemma set_trim_left: "set (trim_left s) \<subseteq> set s"
  unfolding trim_left_def by (rule set_mono_suffix) (rule strip_front_suffix)

lemma set_fields: "w \<in> set (str_fields s) \<Longrightarrow> set w \<subseteq> set s"
proof (induction s rule: str_fields.induct)
  case (1 s)
  show ?case
  proof (cases "trim_left s")
    case Nil
    with "1.prems" show ?thesis by (simp add: str_fields.simps [of s])
  next
    case (Cons c cs)
    have "set (c # cs) \<subseteq> set s" using set_trim_left [of s] Cons by simp
    with 1 Cons set_take_word [of cs] show ?thesis
      by (fastforce simp: str_fields.simps [of s] dest: in_set_dropD)
  qed
qed

lemma set_join: "set (join sep ws) \<subseteq> set sep \<union> (\<Union>w \<in> set ws. set w)"
  by (induction sep ws rule: join.induct) auto

subsection \<open>Evaluation on ASCII text\<close>

lemma starts_space_code [code]:
  "starts_space s =
     (case s of [] \<Rightarrow> False
      | c # cs \<Rightarrow> if solid c then False else if c = CHR 0x20 then True
                 else list_ex (\<lambda>w. prefix w s) space_runes)"
proof (cases s)
  case (Cons c cs)
  have "\<not> starts_space s" if "solid c"
    using that Cons space_rune_ends by (fastforce simp: starts_space_strip prefix_def Cons_eq_append_conv)
  moreover have "starts_space s" if "c = CHR 0x20"
    using that Cons by (simp add: starts_space_def space_runes_def)
  ultimately show ?thesis
    using Cons by (simp add: starts_space_def)
qed (auto simp: starts_space_strip)

lemma trim_left_code [code]:
  "trim_left s =
     (case s of [] \<Rightarrow> []
      | c # cs \<Rightarrow> if solid c then s else if c = CHR 0x20 then trim_left cs
                 else strip_front space_runes s)"
  by (cases s) (auto simp: trim_left_solid trim_left_blank, auto simp: trim_left_def)

lemma trim_right_code [code]:
  "trim_right s =
     (if s = [] then [] else if solid (last s) then s
      else rev (strip_front (map rev space_runes) (rev s)))"
proof (cases s rule: rev_cases)
  case (snoc t c)
  then show ?thesis
    by (cases "solid c") (simp_all add: trim_right_solid, simp add: trim_right_def)
qed (simp add: trim_right_def strip_front_none)

section \<open>The other string functions\<close>

lemma of_char_less_eq: "c \<le> d \<longleftrightarrow> (of_char c :: nat) \<le> of_char d"
  by (simp add: less_eq_char_def)

lemma of_char_lower:
  "(of_char (lower_char c) :: nat) =
     (if 65 \<le> (of_char c :: nat) \<and> of_char c \<le> (90 :: nat) then of_char c + 32 else of_char c)"
  by (auto simp: lower_char_def of_char_less_eq of_char_of)

lemma lower_char_idem [simp]: "lower_char (lower_char c) = lower_char c"
  by (rule of_char_eqI [where 'a = nat]) (simp add: of_char_lower)

lemma space_chars_no_letter:
  "list_all (\<lambda>d. (of_char d :: nat) < 65 \<or> (122 :: nat) < of_char d) space_chars"
  by code_simp

lemma lower_char_space:
  assumes "d \<in> set space_chars"
  shows "(lower_char c = d) = (c = d)"
proof -
  from assms have d: "(of_char d :: nat) < 65 \<or> (122 :: nat) < of_char d"
    using space_chars_no_letter by (simp add: list_all_iff)
  have "lower_char c = d \<longleftrightarrow> (of_char (lower_char c) :: nat) = of_char d"
    by simp
  also have "\<dots> \<longleftrightarrow> (of_char c :: nat) = of_char d"
    using d by (simp only: of_char_lower) (auto split: if_splits)
  finally show ?thesis by simp
qed

lemma lower_char_code [code]:
  "lower_char (Char b0 b1 b2 b3 b4 b5 b6 b7) =
     (if is_upper (Char b0 b1 b2 b3 b4 b5 b6 b7) then Char b0 b1 b2 b3 b4 True b6 b7
      else Char b0 b1 b2 b3 b4 b5 b6 b7)"
proof (cases "is_upper (Char b0 b1 b2 b3 b4 b5 b6 b7)")
  case True
  then have "lower_char (Char b0 b1 b2 b3 b4 b5 b6 b7) = Char b0 b1 b2 b3 b4 True b6 b7"
    by (intro of_char_eqI [where 'a = nat])
      (auto simp: of_char_lower is_upper_def of_char_less_eq of_bool_def split: if_splits)
  with True show ?thesis by simp
next
  case False
  then show ?thesis by (auto simp: lower_char_def is_upper_def)
qed

lemma to_lower_idem [simp]: "to_lower (to_lower s) = to_lower s"
  by (simp add: to_lower_def)

lemma trim_to_lower: "trim_space (to_lower s) = to_lower (trim_space s)"
  unfolding to_lower_def by (rule trim_space_map) (rule lower_char_space)

lemma is_upper_lower: "\<not> is_upper (lower_char c)"
  by (auto simp: is_upper_def of_char_less_eq of_char_lower)

lemma trim_replace_char:
  "old \<notin> set space_chars \<Longrightarrow> new \<notin> set space_chars
    \<Longrightarrow> trim_space (replace_char old new s) = replace_char old new (trim_space s)"
  unfolding replace_char_def by (rule trim_space_map) auto

lemma replace_char_idem [simp]: "replace_char old new (replace_char old new s) = replace_char old new s"
  by (simp add: replace_char_def)

lemma replace_char_id: "old \<notin> set s \<Longrightarrow> replace_char old new s = s"
  by (induction s) (auto simp: replace_char_def)

lemma contains_iff: "contains s sub \<longleftrightarrow> (\<exists>a b. s = a @ sub @ b)"
proof (induction s sub rule: contains.induct)
  case (2 c cs sub)
  show ?case
  proof
    assume "contains (c # cs) sub"
    with 2 consider "prefix sub (c # cs)" | a b where "cs = a @ sub @ b"
      by auto
    then show "\<exists>a b. c # cs = a @ sub @ b"
      by cases (auto simp: prefix_def intro: exI [of _ "[]"], metis append_Cons)
  next
    assume "\<exists>a b. c # cs = a @ sub @ b"
    then obtain a b where "c # cs = a @ sub @ b" by blast
    then have "prefix sub (c # cs) \<or> (\<exists>a b. cs = a @ sub @ b)"
      by (cases a) (auto simp: prefix_def)
    with 2 show "contains (c # cs) sub"
      by simp
  qed
qed auto

lemma cut_at_append [simp]: "sep \<notin> set a \<Longrightarrow> cut_at sep (a @ sep # b) = (a, b, True)"
  by (simp add: cut_at_def takeWhile_append dropWhile_append)

lemma cut_at_none [simp]: "sep \<notin> set a \<Longrightarrow> cut_at sep a = (a, [], False)"
  by (simp add: cut_at_def)

lemma dec_of_nat_digits: "set (dec_of_nat n) \<subseteq> {c. is_digit c}"
proof (induction n rule: dec_of_nat.induct)
  case (1 n)
  have "is_digit (digit_char d)" if "d < 10" for d
    using that by (simp add: is_digit_def digit_char_def of_char_less_eq of_char_of)
  with 1 show ?case by (subst dec_of_nat.simps) auto
qed

definition nat_of_dec :: "string \<Rightarrow> nat" where
  "nat_of_dec s = foldl (\<lambda>n c. n * 10 + (of_char c - 48)) 0 s"

lemma nat_of_dec_dec_of_nat [simp]: "nat_of_dec (dec_of_nat n) = n"
proof (induction n rule: dec_of_nat.induct)
  case (1 n)
  have "of_char (digit_char d) - 48 = d" if "d < 10" for d :: nat
    using that by (simp add: digit_char_def of_char_of)
  with 1 show ?case
    by (subst dec_of_nat.simps) (auto simp: nat_of_dec_def)
qed

lemma dec_of_nat_inj [simp]: "dec_of_nat m = dec_of_nat n \<longleftrightarrow> m = n"
  by (metis nat_of_dec_dec_of_nat)

lemma dec_of_nat_nonempty [simp]: "dec_of_nat n \<noteq> []"
  by (subst dec_of_nat.simps) simp

lemma format_uint_inj [simp]: "format_uint v = format_uint w \<longleftrightarrow> v = w"
  by (auto simp: format_uint_def intro: word_unat_eq_iff [THEN iffD2])

section \<open>Go maps\<close>

lemma same_map_distinct: "same_map m n \<Longrightarrow> distinct (map fst m) \<and> distinct (map fst n)"
  unfolding same_map_def by (metis distinct_map mset_eq_imp_distinct_iff mset_map)

lemma sorted_entries_same: "same_map m n \<Longrightarrow> sorted_entries m = sorted_entries n"
  unfolding sorted_entries_def same_map_def
  by (intro sort_key_inj_key_eq) (auto simp: distinct_map)

lemma map_of_sorted_entries: "distinct (map fst m) \<Longrightarrow> map_of (sorted_entries m) = map_of m"
  unfolding sorted_entries_def
  by (intro map_of_inject_set [THEN iffD2]) (auto simp: distinct_map inj_on_def)

lemma map_fst_sorted_entries:
  assumes "distinct (map fst m)"
  shows "sorted (map fst (sorted_entries m))" "distinct (map fst (sorted_entries m))"
    "set (map fst (sorted_entries m)) = set (map fst m)"
proof -
  have "mset (map fst (sorted_entries m)) = mset (map fst m)"
    by (simp only: sorted_entries_def mset_map mset_sort)
  with assms show "distinct (map fst (sorted_entries m))"
    "set (map fst (sorted_entries m)) = set (map fst m)"
    by (metis mset_eq_imp_distinct_iff, metis mset_eq_setD)
qed (simp add: sorted_entries_def)

text \<open>Two maps that agree key by key up to a relation have related sorted entries.\<close>

lemma sorted_entries_rel:
  assumes "distinct (map fst m)" "distinct (map fst n)"
    and rel: "\<And>k. rel_option R (map_of m k) (map_of n k)"
  shows "list_all2 (\<lambda>(k, v) (k', w). k = k' \<and> R v w) (sorted_entries m) (sorted_entries n)"
proof -
  have "dom (map_of m) = dom (map_of n)"
    using rel by (auto simp: dom_def) (metis option.rel_distinct(1,2) not_None_eq)+
  then have keys: "map fst (sorted_entries m) = map fst (sorted_entries n)"
    using map_fst_sorted_entries [OF assms(1)] map_fst_sorted_entries [OF assms(2)]
    by (intro sorted_distinct_set_unique) (auto simp: dom_map_of_conv_image_fst)
  then have len: "length (sorted_entries m) = length (sorted_entries n)"
    by (metis length_map)
  show ?thesis
  proof (rule list_all2_all_nthI [OF len])
    fix i
    assume i: "i < length (sorted_entries m)"
    obtain k v k' w where kv: "sorted_entries m ! i = (k, v)" "sorted_entries n ! i = (k', w)"
      by fastforce
    have "k = k'"
      using keys i len kv by (metis fst_conv nth_map)
    moreover have "map_of m k = Some v" "map_of n k' = Some w"
      using i len kv assms map_fst_sorted_entries(2)
      by (metis map_of_sorted_entries map_of_is_SomeI nth_mem)+
    ultimately show "(case sorted_entries m ! i of (k, v) \<Rightarrow> \<lambda>(k', w). k = k' \<and> R v w) (sorted_entries n ! i)"
      using rel [of k] kv by simp
  qed
qed

text \<open>A loop that only adds to a map adds the same entries whatever it starts from.\<close>

lemma fold_map_add:
  assumes "\<And>e d. f e d = d ++ f e Map.empty"
  shows "fold f es d = d ++ fold f es Map.empty"
proof (induction es arbitrary: d)
  case (Cons e es)
  have "fold f (e # es) d = (d ++ f e Map.empty) ++ fold f es Map.empty"
    using Cons [of "f e d"] assms [of e d] by simp
  also have "\<dots> = d ++ fold f (e # es) Map.empty"
    using Cons [of "f e Map.empty"] by simp
  finally show ?case .
qed simp

lemma dom_fold:
  assumes "\<And>e d. e \<in> set es \<Longrightarrow> dom (f e d) \<subseteq> dom d \<union> K"
  shows "dom (fold f es d) \<subseteq> dom d \<union> K"
  using assms
proof (induction es arbitrary: d)
  case (Cons e es)
  have "dom (fold f es (f e d)) \<subseteq> dom (f e d) \<union> K"
    using Cons by simp
  also have "\<dots> \<subseteq> dom d \<union> K"
    using Cons.prems [of e d] by auto
  finally show ?case by simp
qed simp

lemma same_map_sym: "same_map m n \<Longrightarrow> same_map n m"
  using same_map_distinct [of m n] by (auto simp: same_map_def)

lemma rel_option_sym: "(\<And>v w. R v w \<Longrightarrow> S w v) \<Longrightarrow> rel_option R x y \<Longrightarrow> rel_option S y x"
  by (cases x; cases y) auto

lemma same_map_iff_map_of:
  assumes "distinct (map fst m)" "distinct (map fst n)"
  shows "same_map m n \<longleftrightarrow> map_of m = map_of n"
proof -
  have "mset m = mset n \<longleftrightarrow> set m = set n"
    using assms by (metis distinct_map set_eq_iff_mset_eq_distinct)
  with assms show ?thesis
    by (simp add: same_map_def map_of_inject_set)
qed

subsection \<open>The contract of a function that ranges over a map\<close>

text \<open>
  A function of the program that ranges over a Go map is well defined only if the order of
  iteration cannot be seen in its result.
\<close>

locale map_reader =
  fixes rd :: "'v go_map \<Rightarrow> 'b"
  assumes order_free: "same_map m n \<Longrightarrow> rd m = rd n"
begin

lemma reads_map:
  "distinct (map fst m) \<Longrightarrow> distinct (map fst n) \<Longrightarrow> map_of m = map_of n \<Longrightarrow> rd m = rd n"
  by (rule order_free) (simp add: same_map_iff_map_of)

lemma reads_permutation: "distinct (map fst m) \<Longrightarrow> mset m = mset n \<Longrightarrow> rd m = rd n"
  by (rule order_free) (simp add: same_map_def)

lemma reads_rev: "distinct (map fst m) \<Longrightarrow> rd (rev m) = rd m"
  by (metis mset_rev reads_permutation)

end

interpretation sorted_range: map_reader sorted_entries
  by unfold_locales (rule sorted_entries_same)

section \<open>The contract of a normal form\<close>

locale normalizer =
  fixes nf :: "'a \<Rightarrow> 'a"
  assumes nf_nf: "nf (nf x) = nf x"
begin

lemma fixed_iff_range: "nf x = x \<longleftrightarrow> x \<in> range nf"
  by (metis nf_nf rangeE rangeI)

lemma nf_iterate: "(nf ^^ Suc n) x = nf x"
  by (induction n) (simp_all add: nf_nf)

end

text \<open>A normal form of strings that ignores surrounding white space.\<close>

locale string_normalizer = normalizer nf for nf :: "string \<Rightarrow> string" +
  assumes nf_trim: "nf (trim_space s) = nf s"
begin

lemma nf_blank: "blank s \<Longrightarrow> nf s = nf []"
  by (metis blank_def nf_trim)

lemma nf_same_trimmed: "trim_space s = trim_space t \<Longrightarrow> nf s = nf t"
  by (metis nf_trim)

end

interpretation trimmed: string_normalizer trim_space
  by unfold_locales simp_all

section \<open>State machines\<close>

text \<open>
  The states a step relation reaches from its initial states, and the contract of an
  inductive invariant.
\<close>

inductive reach :: "('s \<Rightarrow> bool) \<Rightarrow> ('s \<Rightarrow> 's \<Rightarrow> bool) \<Rightarrow> 's \<Rightarrow> bool"
  for start step where
  reach_start: "start s \<Longrightarrow> reach start step s"
| reach_step: "reach start step s \<Longrightarrow> step s t \<Longrightarrow> reach start step t"

locale invariant_of =
  fixes start :: "'s \<Rightarrow> bool" and step :: "'s \<Rightarrow> 's \<Rightarrow> bool" and inv :: "'s \<Rightarrow> bool"
  assumes inv_start: "start s \<Longrightarrow> inv s"
    and inv_step: "inv s \<Longrightarrow> step s t \<Longrightarrow> inv t"
begin

lemma inv_reach: "reach start step s \<Longrightarrow> inv s"
  by (induction rule: reach.induct) (auto intro: inv_start inv_step)

lemma inv_steps: "step\<^sup>*\<^sup>* s t \<Longrightarrow> inv s \<Longrightarrow> inv t"
  by (induction rule: rtranclp_induct) (auto intro: inv_step)

end

section \<open>What a call does to the state\<close>

text \<open>
  \<open>moves R f\<close>: the call \<open>f\<close> leads from every state to one that \<open>R\<close> relates it to. For a reflexive and
  transitive relation this is closed under the ways in which the program composes calls.
\<close>

definition moves :: "('s \<Rightarrow> 's \<Rightarrow> bool) \<Rightarrow> ('s \<Rightarrow> 'r \<times> 's) \<Rightarrow> bool" where
  "moves R f \<longleftrightarrow> (\<forall>s. R s (snd (f s)))"

lemma moves_mono: "moves R f \<Longrightarrow> (\<And>s t. R s t \<Longrightarrow> S s t) \<Longrightarrow> moves S f"
  by (simp add: moves_def)

lemma moves_result: "moves R f \<Longrightarrow> R s (snd (f s))"
  by (simp add: moves_def)

lemma movesD: "moves R f \<Longrightarrow> f s = (r, t) \<Longrightarrow> R s t"
  by (metis moves_def snd_conv)

locale run_relation =
  fixes R :: "'s \<Rightarrow> 's \<Rightarrow> bool"
  assumes R_refl: "R s s"
    and R_trans: "R s t \<Longrightarrow> R t u \<Longrightarrow> R s u"
begin

lemma moves_return: "moves R (\<lambda>s. (x, s))"
  by (simp add: moves_def R_refl)

lemma moves_if: "moves R f \<Longrightarrow> moves R g \<Longrightarrow> moves R (\<lambda>s. if b then f s else g s)"
  by (simp add: moves_def)

lemma moves_bind:
  assumes "moves R f" "\<And>x. moves R (g x)"
  shows "moves R (\<lambda>s. case f s of (x, s') \<Rightarrow> g x s')"
  unfolding moves_def
proof
  fix s
  obtain x s' where 1: "f s = (x, s')"
    by (metis prod.exhaust)
  then have "R s s'" "R s' (snd (g x s'))"
    using assms by (auto simp: moves_def dest: spec [of _ s])
  then show "R s (snd (case f s of (x, s') \<Rightarrow> g x s'))"
    using 1 by (simp add: R_trans)
qed

lemma moves_snd: "moves R f \<Longrightarrow> moves R g \<Longrightarrow> moves R (\<lambda>s. g (snd (f s)))"
  using moves_bind [of f "\<lambda>_. g"] by (simp add: case_prod_beta)

lemma moves_on_ok:
  assumes "moves R f" "\<And>x. moves R (g x)"
  shows "moves R (\<lambda>s. on_ok (f s) wrap g)"
proof -
  have eq: "on_ok c wrap g = (case c of (x, s') \<Rightarrow> (case x of Inl e \<Rightarrow> (Inl (wrap e), s') | Inr y \<Rightarrow> g y s'))" for c
    by (auto simp: on_ok_def split: prod.split sum.split)
  have "moves R (\<lambda>s'. case x of Inl e \<Rightarrow> (Inl (wrap e), s') | Inr y \<Rightarrow> g y s')" for x
    using assms(2) by (cases x) (simp_all add: moves_return)
  then show ?thesis
    unfolding eq by (rule moves_bind [OF assms(1)])
qed

lemma moves_on_done:
  assumes "moves R f" "moves R g"
  shows "moves R (\<lambda>s. on_done (f s) wrap g)"
proof -
  have eq: "on_done c wrap g = (case c of (x, s') \<Rightarrow> (case x of Some e \<Rightarrow> (Inl (wrap e), s') | None \<Rightarrow> g s'))" for c
    by (auto simp: on_done_def split: prod.split option.split)
  have "moves R (\<lambda>s'. case x of Some e \<Rightarrow> (Inl (wrap e), s') | None \<Rightarrow> g s')" for x
    using assms(2) by (cases x) (simp_all add: moves_return)
  then show ?thesis
    unfolding eq by (rule moves_bind [OF assms(1)])
qed

lemmas moves_intros = moves_return moves_if moves_on_ok moves_on_done

end

end
