(* ===== verification/NMTypes.thy ===== *)
theory NMTypes
  imports Prelude
begin

text \<open>
  NetworkManager's vocabulary (\<open>internal/nmplugin/types.go\<close>, the constants of \<open>config.go\<close> and
  \<open>errors.go\<close>): D-Bus variants and settings maps, service states, plugin failures, D-Bus errors and the signals
  the plugin emits. The lemmas show that the numbers sent over D-Bus determine the values they stand for.
\<close>

section \<open>Definitions\<close>

subsection \<open>Variants\<close>

text \<open>
  The dynamic types a \<open>dbus.Variant\<close> can hold, as far as the program tells them apart.
  \<open>VStringer\<close> is any other type with a \<open>String\<close> method, and \<open>VOther\<close> any type the program cannot
  turn into a string.
\<close>

datatype gval =
    VString string
  | VBytes string
  | VStringer string
  | VBool bool
  | VInt "64 word"
  | VInt32 "32 word"
  | VInt64 "64 word"
  | VUint "64 word"
  | VUint32 "32 word"
  | VUint64 "64 word"
  | VStrings "string list"
  | VVariants "gval list"
  | VAnys "gval list"
  | VMapString "(string \<times> string) list"
  | VMapVariant "(string \<times> gval) list"
  | VMapAny "(string \<times> gval) list"
  | VOther

type_synonym variant_map = "gval go_map"
type_synonym connection_settings = "variant_map go_map"

subsection \<open>Service states, failures and signals\<close>

definition BusName :: string where
  "BusName = ''org.freedesktop.NetworkManager.netbird''"

definition Interface :: string where
  "Interface = ''org.freedesktop.NetworkManager.VPN.Plugin''"

definition PropertiesInterface :: string where
  "PropertiesInterface = ''org.freedesktop.DBus.Properties''"

datatype service_state =
    ServiceStateUnknown
  | ServiceStateInit
  | ServiceStateShutdown
  | ServiceStateStarting
  | ServiceStateStarted
  | ServiceStateStopping
  | ServiceStateStopped

fun state_code :: "service_state \<Rightarrow> 32 word" where
  "state_code ServiceStateUnknown = 0"
| "state_code ServiceStateInit = 1"
| "state_code ServiceStateShutdown = 2"
| "state_code ServiceStateStarting = 3"
| "state_code ServiceStateStarted = 4"
| "state_code ServiceStateStopping = 5"
| "state_code ServiceStateStopped = 6"

datatype plugin_failure =
    PluginFailureLoginFailed
  | PluginFailureConnectFailed
  | PluginFailureBadIPConfig

fun failure_code :: "plugin_failure \<Rightarrow> 32 word" where
  "failure_code PluginFailureLoginFailed = 0"
| "failure_code PluginFailureConnectFailed = 1"
| "failure_code PluginFailureBadIPConfig = 2"

text \<open>A D-Bus error reply: its name and its message (\<open>dbus.NewError\<close> with one string argument).\<close>

record dbus_error =
  dbus_name :: string
  dbus_message :: string

definition dbusErrorPropertyReadOnly :: string where
  "dbusErrorPropertyReadOnly = ''org.freedesktop.DBus.Error.PropertyReadOnly''"

definition dbusErrorUnknownInterface :: string where
  "dbusErrorUnknownInterface = ''org.freedesktop.DBus.Error.UnknownInterface''"

definition dbusErrorUnknownProperty :: string where
  "dbusErrorUnknownProperty = ''org.freedesktop.DBus.Error.UnknownProperty''"

definition dbusErrorVPNFailed :: string where
  "dbusErrorVPNFailed = ''org.freedesktop.NetworkManager.VPN.Error.Failed''"

definition dbusErrorVPNAlreadyActive :: string where
  "dbusErrorVPNAlreadyActive = ''org.freedesktop.NetworkManager.VPN.Error.AlreadyStarted''"

text \<open>
  The verb \<open>%q\<close> of \<open>fmt\<close>: the text in double quotes with Go's escapes; bytes above 127 are kept, as the bytes of printable
  characters are.
\<close>

definition hex_digit :: "nat \<Rightarrow> char" where
  "hex_digit n = (if n < 10 then digit_char n else char_of (87 + n))"

definition quote_char :: "char \<Rightarrow> string" where
  "quote_char c =
     (let n = of_char c :: nat
      in case map_of [(34, CHR 34), (92, CHR 92), (7, CHR ''a''), (8, CHR ''b''), (12, CHR ''f''), (10, CHR ''n''),
                      (13, CHR ''r''), (9, CHR ''t''), (11, CHR ''v'')] n of
           Some e \<Rightarrow> [CHR 92, e]
         | None \<Rightarrow>
             if n < 32 \<or> n = 127 then [CHR 92, CHR ''x'', hex_digit (n div 16), hex_digit (n mod 16)] else [c])"

definition go_quote :: "string \<Rightarrow> string" where
  "go_quote s = [CHR 34] @ concat (map quote_char s) @ [CHR 34]"

definition newDBusError :: "string \<Rightarrow> string \<Rightarrow> dbus_error" where
  "newDBusError name message = \<lparr>dbus_name = name, dbus_message = message\<rparr>"

text \<open>
  The signals handed to the bus: those of the plugin interface by their name and arguments, and
  \<open>PropertiesChanged\<close>, whose only changed property is \<open>State\<close>.
\<close>

datatype signal =
    StateChanged "32 word"
  | PropertiesChanged variant_map
  | SecretsRequired string "string list"
  | Config variant_map
  | Ip4Config variant_map
  | Ip6Config variant_map
  | LoginBanner string
  | Failure "32 word"

section \<open>Lemmas\<close>

lemma state_code_inj [simp]: "state_code a = state_code b \<longleftrightarrow> a = b"
  by (cases a; cases b) simp_all

lemma failure_code_inj [simp]: "failure_code a = failure_code b \<longleftrightarrow> a = b"
  by (cases a; cases b) simp_all

end
