(* ===== verification/Daemon.thy ===== *)
theory Daemon
  imports NMTypes
begin

text \<open>
  The daemon client's vocabulary (\<open>internal/netbird/daemonclient/types.go\<close>): Go errors, profile
  references and their operations, the request and response types, and the \<open>Client\<close>
  interface. The daemon itself is not part of the repository: a client is a record of
  functions on an arbitrary state \<open>'d\<close>, one per method, and every definition that talks to
  the daemon takes that record as an argument. \<open>recording\<close> wraps a client so that the calls
  made are kept in order; statements about which calls an operation makes are about that log.

  The messages of the daemon's protocol are generated code that is not part of the repository
  either. The records below hold exactly the fields the program reads. A nil pointer is
  \<open>None\<close>; the generated getters return zero values on nil.
\<close>

section \<open>Definitions\<close>

subsection \<open>Errors\<close>

text \<open>
  \<open>Sentinel\<close> is a package-level error value, \<open>ErrText\<close> an error of a library or of
  \<open>errors.New\<close>, and \<open>Errorf\<close> the result of \<open>fmt.Errorf\<close>: its text and the errors it wraps with
  \<open>%w\<close>, in order. \<open>errors_is\<close> is \<open>errors.Is\<close>.
\<close>

datatype sentinel =
    ErrAuthenticationRequired
  | ErrConflict
  | ErrNotFound
  | ErrAmbiguous
  | ErrMissingSetupKey
  | ErrInteractiveSSONeeded
  | ErrPromptUnavailable
  | ErrContextDone

datatype gerr =
    Sentinel sentinel
  | ErrText string
  | Errorf string "gerr list"

fun errors_is :: "gerr \<Rightarrow> sentinel \<Rightarrow> bool" where
  "errors_is (Sentinel t) s = (s = t)"
| "errors_is (ErrText m) s = False"
| "errors_is (Errorf m es) s = list_ex (\<lambda>e. errors_is e s) es"

subsection \<open>Profile references\<close>

record profile_ref =
  ref_ID :: string
  ref_ProfileName :: string
  ref_Username :: string

definition no_profile_ref :: profile_ref where
  "no_profile_ref = \<lparr>ref_ID = [], ref_ProfileName = [], ref_Username = []\<rparr>"

definition ref_Empty :: "profile_ref \<Rightarrow> bool" where
  "ref_Empty r \<longleftrightarrow> trim_space (ref_ID r) = [] \<and> trim_space (ref_ProfileName r) = []
     \<and> trim_space (ref_Username r) = []"

definition DefaultProfileName :: string where
  "DefaultProfileName = ''default''"

definition ref_Handle :: "profile_ref \<Rightarrow> string" where
  "ref_Handle r =
     (let idn = trim_space (ref_ID r)
      in if idn \<noteq> [] then idn else trim_space (ref_ProfileName r))"

definition ref_ConfigHandle :: "profile_ref \<Rightarrow> string" where
  "ref_ConfigHandle r =
     (let handle = ref_Handle r
      in if handle \<noteq> [] then handle else DefaultProfileName)"

definition ref_Equal :: "profile_ref \<Rightarrow> profile_ref \<Rightarrow> bool" where
  "ref_Equal r other \<longleftrightarrow> trim_space (ref_ID r) = trim_space (ref_ID other)
     \<and> trim_space (ref_ProfileName r) = trim_space (ref_ProfileName other)
     \<and> trim_space (ref_Username r) = trim_space (ref_Username other)"

definition ref_MatchesDesired :: "profile_ref \<Rightarrow> profile_ref \<Rightarrow> bool" where
  "ref_MatchesDesired r desired =
     (if trim_space (ref_ID desired) \<noteq> [] \<and> trim_space (ref_ID r) \<noteq> trim_space (ref_ID desired)
      then False
      else if trim_space (ref_ProfileName desired) \<noteq> []
        \<and> trim_space (ref_ProfileName r) \<noteq> trim_space (ref_ProfileName desired)
      then False
      else if trim_space (ref_Username desired) \<noteq> []
        \<and> trim_space (ref_Username r) \<noteq> trim_space (ref_Username desired)
      then False
      else True)"

definition ref_String :: "profile_ref \<Rightarrow> string" where
  "ref_String r =
     (let name0 = trim_space (ref_ProfileName r);
          profileName = (if name0 = [] then trim_space (ref_ID r) else name0);
          username = trim_space (ref_Username r)
      in if profileName = [] \<and> username = [] then ''default''
         else if username = [] then profileName
         else if profileName = [] then ''user '' @ username
         else username @ ''/'' @ profileName)"

record profile =
  profile_ID :: string
  profile_Name :: string
  profile_IsActive :: bool

subsection \<open>Requests and responses\<close>

record features =
  DisableProfiles :: bool
  DisableUpdateSettings :: bool
  DisableNetworks :: bool

record login_request =
  login_SetupKey :: string
  login_ManagementURL :: string
  login_AdminURL :: string
  login_Hostname :: string
  login_InterfaceName :: string
  login_PreSharedKey :: string
  login_Profile :: profile_ref

record login_response =
  NeedsSSOLogin :: bool
  UserCode :: string
  VerificationURI :: string
  VerificationURIComplete :: string

record wait_sso_request =
  wait_UserCode :: string
  wait_Hostname :: string

record update_profile_request =
  update_Profile :: profile_ref
  update_ManagementURL :: string
  update_AdminURL :: string
  update_InterfaceName :: string
  update_PreSharedKey :: string

record status_options =
  GetFullPeerStatus :: bool
  ShouldRunProbes :: bool
  WaitForReady :: bool

definition full_peer_status :: status_options where
  "full_peer_status = \<lparr>GetFullPeerStatus = True, ShouldRunProbes = False, WaitForReady = False\<rparr>"

text \<open>The daemon's status and configuration messages, as far as the program reads them.\<close>

record conn_state =
  conn_Connected :: bool
  conn_Error :: string

text \<open>The severities the protocol names, and any other number, which the open enumeration admits.\<close>

datatype severity = SeverityInfo | SeverityWarning | SeverityError | SeverityCritical | SeverityOther int

record system_event =
  event_Severity :: severity
  event_UserMessage :: string
  event_Message :: string

record relay_state =
  relay_URI :: string
  relay_Error :: string

record full_status =
  full_ManagementState :: "conn_state option"
  full_SignalState :: "conn_state option"
  full_LocalPeerIP :: "string option"
  full_Relays :: "relay_state list"
  full_DnsErrors :: "string list"
  full_Events :: "system_event list"

record status_response =
  resp_Status :: string
  resp_FullStatus :: "full_status option"
  resp_DaemonVersion :: string

record config_response =
  config_InterfaceName :: string
  config_ManagementUrl :: string
  config_AdminURL :: string

subsection \<open>The client interface\<close>

text \<open>\<open>Client\<close> of \<open>types.go\<close>: an error-only result is \<open>gerr option\<close>, any other result a sum.\<close>

record 'd client =
  c_Login :: "login_request \<Rightarrow> 'd \<Rightarrow> (gerr + login_response) \<times> 'd"
  c_WaitSSOLogin :: "wait_sso_request \<Rightarrow> 'd \<Rightarrow> (gerr + string) \<times> 'd"
  c_SwitchProfile :: "profile_ref \<Rightarrow> 'd \<Rightarrow> (gerr + profile_ref) \<times> 'd"
  c_AddProfile :: "profile_ref \<Rightarrow> 'd \<Rightarrow> (gerr + profile_ref) \<times> 'd"
  c_UpdateProfile :: "update_profile_request \<Rightarrow> 'd \<Rightarrow> gerr option \<times> 'd"
  c_Up :: "profile_ref \<Rightarrow> 'd \<Rightarrow> gerr option \<times> 'd"
  c_Down :: "'d \<Rightarrow> gerr option \<times> 'd"
  c_Status :: "status_options \<Rightarrow> 'd \<Rightarrow> (gerr + status_response option) \<times> 'd"
  c_GetConfig :: "profile_ref \<Rightarrow> 'd \<Rightarrow> (gerr + config_response option) \<times> 'd"
  c_GetFeatures :: "'d \<Rightarrow> (gerr + features) \<times> 'd"
  c_GetActiveProfile :: "'d \<Rightarrow> (gerr + profile_ref) \<times> 'd"
  c_ListProfiles :: "string \<Rightarrow> 'd \<Rightarrow> (gerr + profile list) \<times> 'd"
  c_Close :: "'d \<Rightarrow> gerr option \<times> 'd"

text \<open>
  What a goroutine does to the outside, oldest first in a log: the calls a client receives, the
  creation of a client, and the signals handed to the bus. \<open>recording\<close> is a client that keeps its calls.
\<close>

datatype action =
    Login login_request
  | WaitSSOLogin wait_sso_request
  | SwitchProfile profile_ref
  | AddProfile profile_ref
  | UpdateProfile update_profile_request
  | Up profile_ref
  | Down
  | Status status_options
  | GetConfig profile_ref
  | GetFeatures
  | GetActiveProfile
  | ListProfiles string
  | Close
  | NewClient
  | EmitSignal signal

definition logged :: "action \<Rightarrow> ('d \<Rightarrow> 'r \<times> 'd) \<Rightarrow> action list \<times> 'd \<Rightarrow> 'r \<times> (action list \<times> 'd)" where
  "logged c f = (\<lambda>(log, d). let (r, d') = f d in (r, log @ [c], d'))"

definition recording :: "'d client \<Rightarrow> (action list \<times> 'd) client" where
  "recording c =
     \<lparr>c_Login = (\<lambda>r. logged (Login r) (c_Login c r)),
      c_WaitSSOLogin = (\<lambda>r. logged (WaitSSOLogin r) (c_WaitSSOLogin c r)),
      c_SwitchProfile = (\<lambda>p. logged (SwitchProfile p) (c_SwitchProfile c p)),
      c_AddProfile = (\<lambda>p. logged (AddProfile p) (c_AddProfile c p)),
      c_UpdateProfile = (\<lambda>r. logged (UpdateProfile r) (c_UpdateProfile c r)),
      c_Up = (\<lambda>p. logged (Up p) (c_Up c p)),
      c_Down = logged Down (c_Down c),
      c_Status = (\<lambda>opts. logged (Status opts) (c_Status c opts)),
      c_GetConfig = (\<lambda>p. logged (GetConfig p) (c_GetConfig c p)),
      c_GetFeatures = logged GetFeatures (c_GetFeatures c),
      c_GetActiveProfile = logged GetActiveProfile (c_GetActiveProfile c),
      c_ListProfiles = (\<lambda>u. logged (ListProfiles u) (c_ListProfiles c u)),
      c_Close = logged Close (c_Close c)\<rparr>"

section \<open>Lemmas\<close>

lemma ref_MatchesDesired_iff:
  "ref_MatchesDesired r d \<longleftrightarrow>
     (trim_space (ref_ID d) = [] \<or> trim_space (ref_ID r) = trim_space (ref_ID d))
   \<and> (trim_space (ref_ProfileName d) = [] \<or> trim_space (ref_ProfileName r) = trim_space (ref_ProfileName d))
   \<and> (trim_space (ref_Username d) = [] \<or> trim_space (ref_Username r) = trim_space (ref_Username d))"
  by (auto simp: ref_MatchesDesired_def)

lemma ref_MatchesDesired_refl [simp]: "ref_MatchesDesired r r"
  by (simp add: ref_MatchesDesired_iff)

lemma ref_MatchesDesired_trans:
  "ref_MatchesDesired r s \<Longrightarrow> ref_MatchesDesired s t \<Longrightarrow> ref_MatchesDesired r t"
  by (auto simp: ref_MatchesDesired_iff)

lemma ref_MatchesDesired_empty: "ref_Empty d \<Longrightarrow> ref_MatchesDesired r d"
  by (simp add: ref_MatchesDesired_iff ref_Empty_def)

lemma ref_Equal_iff_matches:
  "ref_Equal r s \<longleftrightarrow> ref_MatchesDesired r s \<and> ref_MatchesDesired s r"
  by (auto simp: ref_Equal_def ref_MatchesDesired_iff)

lemma ref_Empty_no_profile [simp]: "ref_Empty no_profile_ref"
  by (simp add: ref_Empty_def no_profile_ref_def)

lemma ref_Handle_no_profile [simp]: "ref_Handle no_profile_ref = []"
  by (simp add: ref_Handle_def no_profile_ref_def)

lemma ref_Handle_trimmed [simp]: "trim_space (ref_Handle r) = ref_Handle r"
  by (simp add: ref_Handle_def Let_def)

lemma ref_Handle_Empty: "ref_Empty r \<Longrightarrow> ref_Handle r = []"
  by (simp add: ref_Empty_def ref_Handle_def)

lemma ref_ConfigHandle_nonempty: "ref_ConfigHandle r \<noteq> []"
  by (simp add: ref_ConfigHandle_def DefaultProfileName_def Let_def)

lemma ref_String_nonempty: "ref_String r \<noteq> []"
  by (simp add: ref_String_def Let_def)

lemma logged_apply [simp]: "logged c f (log, d) = (fst (f d), log @ [c], snd (f d))"
  by (simp add: logged_def split: prod.split)

lemma recording_simps [simp]:
  "c_Login (recording c) lr = logged (Login lr) (c_Login c lr)"
  "c_WaitSSOLogin (recording c) wr = logged (WaitSSOLogin wr) (c_WaitSSOLogin c wr)"
  "c_SwitchProfile (recording c) p = logged (SwitchProfile p) (c_SwitchProfile c p)"
  "c_AddProfile (recording c) p = logged (AddProfile p) (c_AddProfile c p)"
  "c_UpdateProfile (recording c) ur = logged (UpdateProfile ur) (c_UpdateProfile c ur)"
  "c_Up (recording c) p = logged (Up p) (c_Up c p)"
  "c_Down (recording c) = logged Down (c_Down c)"
  "c_Status (recording c) opts = logged (Status opts) (c_Status c opts)"
  "c_GetConfig (recording c) p = logged (GetConfig p) (c_GetConfig c p)"
  "c_GetFeatures (recording c) = logged GetFeatures (c_GetFeatures c)"
  "c_GetActiveProfile (recording c) = logged GetActiveProfile (c_GetActiveProfile c)"
  "c_ListProfiles (recording c) u = logged (ListProfiles u) (c_ListProfiles c u)"
  "c_Close (recording c) = logged Close (c_Close c)"
  by (simp_all add: recording_def)

section \<open>The contract of an operation over a client\<close>

text \<open>
  An operation is bound to a set of calls if everything it adds to the log of a recorded
  client belongs to that set.
\<close>

locale call_budget =
  fixes run :: "action list \<times> 'd \<Rightarrow> 'r \<times> (action list \<times> 'd)" and allowed :: "action set"
  assumes budget: "run (log, d) = (r, log', d') \<Longrightarrow> \<exists>cs. log' = log @ cs \<and> set cs \<subseteq> allowed"
begin

lemma from_empty_log: "run ([], d) = (r, log', d') \<Longrightarrow> set log' \<subseteq> allowed"
  using budget by fastforce

lemma keeps_log: "run (log, d) = (r, log', d') \<Longrightarrow> prefix log log'"
  using budget by (fastforce simp: prefix_def)

lemma keeps_filter:
  "run (log, d) = (r, log', d') \<Longrightarrow> (\<And>a. a \<in> allowed \<Longrightarrow> \<not> P a) \<Longrightarrow> filter P log' = filter P log"
  using budget by (fastforce simp: filter_empty_conv)

lemma never_calls:
  "run (log, d) = (r, log', d') \<Longrightarrow> c \<notin> allowed \<Longrightarrow> filter ((=) c) log' = filter ((=) c) log"
  using budget by (fastforce simp: filter_empty_conv)

end

subsection \<open>Budgets of composed operations\<close>

definition log_grows :: "action set \<Rightarrow> action list \<times> 'd \<Rightarrow> action list \<times> 'd \<Rightarrow> bool" where
  "log_grows A g g' \<longleftrightarrow> (\<exists>cs. fst g' = fst g @ cs \<and> set cs \<subseteq> A)"

interpretation log_grows: run_relation "log_grows A" for A
  by unfold_locales (fastforce simp: log_grows_def)+

lemma call_budget_moves: "call_budget f A = moves (log_grows A) f"
proof
  assume "call_budget f A"
  then show "moves (log_grows A) f"
    by (auto simp: moves_def log_grows_def dest: call_budget.budget [of f A _ _ "fst (f x)" "fst (snd (f x))" "snd (snd (f x))" for x])
next
  assume "moves (log_grows A) f"
  then show "call_budget f A"
    by unfold_locales (drule movesD, auto simp: log_grows_def)
qed

lemmas budget_intros = log_grows.moves_intros [folded call_budget_moves]

lemmas budget_bind = log_grows.moves_bind [folded call_budget_moves]

lemma budget_mono: "call_budget f A \<Longrightarrow> A \<subseteq> B \<Longrightarrow> call_budget f B"
  by (meson call_budget_def subset_trans)

lemma budget_return: "call_budget (\<lambda>s. (r, s)) A"
  by (simp add: call_budget_def)

lemma budget_logged: "a \<in> A \<Longrightarrow> call_budget (logged a f) A"
  by (auto simp: call_budget_def logged_def split: prod.splits)

lemma budget_recording:
  "Login r \<in> A \<Longrightarrow> call_budget (c_Login (recording c) r) A"
  "WaitSSOLogin w \<in> A \<Longrightarrow> call_budget (c_WaitSSOLogin (recording c) w) A"
  "SwitchProfile p \<in> A \<Longrightarrow> call_budget (c_SwitchProfile (recording c) p) A"
  "AddProfile p \<in> A \<Longrightarrow> call_budget (c_AddProfile (recording c) p) A"
  "UpdateProfile u \<in> A \<Longrightarrow> call_budget (c_UpdateProfile (recording c) u) A"
  "Up p \<in> A \<Longrightarrow> call_budget (c_Up (recording c) p) A"
  "Down \<in> A \<Longrightarrow> call_budget (c_Down (recording c)) A"
  "Status opts \<in> A \<Longrightarrow> call_budget (c_Status (recording c) opts) A"
  "GetConfig p \<in> A \<Longrightarrow> call_budget (c_GetConfig (recording c) p) A"
  "GetFeatures \<in> A \<Longrightarrow> call_budget (c_GetFeatures (recording c)) A"
  "GetActiveProfile \<in> A \<Longrightarrow> call_budget (c_GetActiveProfile (recording c)) A"
  "ListProfiles u' \<in> A \<Longrightarrow> call_budget (c_ListProfiles (recording c) u') A"
  "Close \<in> A \<Longrightarrow> call_budget (c_Close (recording c)) A"
  by (simp_all add: recording_def budget_logged)

subsection \<open>Clients that respect a relation\<close>

definition client_moves :: "('d \<Rightarrow> 'd \<Rightarrow> bool) \<Rightarrow> 'd client \<Rightarrow> bool" where
  "client_moves R c \<longleftrightarrow>
     (\<forall>r. moves R (c_Login c r)) \<and> (\<forall>r. moves R (c_WaitSSOLogin c r)) \<and>
     (\<forall>p. moves R (c_SwitchProfile c p)) \<and> (\<forall>p. moves R (c_AddProfile c p)) \<and>
     (\<forall>u. moves R (c_UpdateProfile c u)) \<and> (\<forall>p. moves R (c_Up c p)) \<and> moves R (c_Down c) \<and>
     (\<forall>opts. moves R (c_Status c opts)) \<and> (\<forall>p. moves R (c_GetConfig c p)) \<and> moves R (c_GetFeatures c) \<and>
     moves R (c_GetActiveProfile c) \<and> (\<forall>u. moves R (c_ListProfiles c u)) \<and> moves R (c_Close c)"

locale client_relation = run_relation R for R :: "'d \<Rightarrow> 'd \<Rightarrow> bool" +
  fixes c :: "'d client"
  assumes client: "client_moves R c"
begin

lemma calls:
  "moves R (c_Login c r)" "moves R (c_WaitSSOLogin c w)" "moves R (c_SwitchProfile c p)"
  "moves R (c_AddProfile c p)" "moves R (c_UpdateProfile c u)" "moves R (c_Up c p)" "moves R (c_Down c)"
  "moves R (c_Status c opts)" "moves R (c_GetConfig c p)" "moves R (c_GetFeatures c)"
  "moves R (c_GetActiveProfile c)" "moves R (c_ListProfiles c name)" "moves R (c_Close c)"
  using client by (auto simp: client_moves_def)

end

text \<open>The state behind a log.\<close>

definition behind :: "('d \<Rightarrow> 'd \<Rightarrow> bool) \<Rightarrow> action list \<times> 'd \<Rightarrow> action list \<times> 'd \<Rightarrow> bool" where
  "behind R g g' = R (snd g) (snd g')"

lemma moves_logged: "moves R f \<Longrightarrow> moves (behind R) (logged a f)"
  by (auto simp: moves_def behind_def logged_def split: prod.split) (metis snd_conv)

lemma client_moves_recording: "client_moves R c \<Longrightarrow> client_moves (behind R) (recording c)"
  by (simp add: client_moves_def recording_def moves_logged)

end
