(* ===== verification/Settings.thy ===== *)
theory Settings
  imports Daemon
begin

text \<open>
  From NetworkManager's connection settings to the plugin's activation settings
  (\<open>internal/nmplugin/settings.go\<close>): D-Bus variants as a datatype, the flattening of the
  nested settings into one key/value map, profile and user names, and the requests sent to
  the daemon. A NetworkManager settings map is a \<open>go_map\<close> of \<open>go_map\<close>s, so its iteration order
  is explicit; the lemmas show where it cannot matter, which source of a value wins, and what
  the derived names and requests can contain.
\<close>

section \<open>Definitions\<close>

subsection \<open>Variants\<close>

fun anyToString :: "gval \<Rightarrow> string option" where
  "anyToString (VString typed) = Some typed"
| "anyToString (VBytes typed) = Some typed"
| "anyToString (VStringer typed) = Some typed"
| "anyToString (VBool typed) = Some (format_bool typed)"
| "anyToString (VInt typed) = Some (format_int typed)"
| "anyToString (VInt32 typed) = Some (format_int typed)"
| "anyToString (VInt64 typed) = Some (format_int typed)"
| "anyToString (VUint typed) = Some (format_uint typed)"
| "anyToString (VUint32 typed) = Some (format_uint typed)"
| "anyToString (VUint64 typed) = Some (format_uint typed)"
| "anyToString _ = None"

definition variantToString :: "gval \<Rightarrow> string option" where
  "variantToString v = anyToString v"

fun variantMapToStrings :: "variant_map \<Rightarrow> string go_map" where
  "variantMapToStrings [] = []"
| "variantMapToStrings ((key, v) # rest) =
     (case variantToString v of
        Some x \<Rightarrow> (key, x) # variantMapToStrings rest
      | None \<Rightarrow> variantMapToStrings rest)"

fun variantToStringMap :: "gval \<Rightarrow> string go_map" where
  "variantToStringMap (VMapString typed) = typed"
| "variantToStringMap (VMapVariant typed) = variantMapToStrings typed"
| "variantToStringMap (VMapAny typed) = variantMapToStrings typed"
| "variantToStringMap _ = []"

subsection \<open>Keys, sections and modes\<close>

definition normalizeSettingKey :: "string \<Rightarrow> string" where
  "normalizeSettingKey key = filter (\<lambda>r. is_lower r \<or> is_digit r) (to_lower (trim_space key))"

definition settings_prefix :: string where
  "settings_prefix = ''org.freedesktop.networkmanager.settings.''"

definition normalizeSectionName :: "string \<Rightarrow> string" where
  "normalizeSectionName sec = trim_prefix (to_lower (trim_space sec)) settings_prefix"

definition setup_key_modes :: "string list" where
  "setup_key_modes = [''setupkey'', ''setup-key'', ''key'']"

definition sso_modes :: "string list" where
  "sso_modes = ['''', ''sso'', ''browser'', ''interactive'', ''login'', ''force-login'', ''reuse'']"

definition normalizeAuthMode :: "string \<Rightarrow> string" where
  "normalizeAuthMode v =
     (let w = replace_char (CHR ''_'') (CHR ''-'') (to_lower (trim_space v))
      in if List.member setup_key_modes w then ''setup-key''
         else if List.member sso_modes w then ''sso''
         else w)"

definition normalizeInterfaceName :: "string \<Rightarrow> string" where
  "normalizeInterfaceName v =
     (let w = trim_space v in if w = ''--'' then [] else w)"

subsection \<open>Flattening\<close>

definition mergeNormalizedStringMap :: "(string \<rightharpoonup> string) \<Rightarrow> string go_map \<Rightarrow> (string \<rightharpoonup> string)" where
  "mergeNormalizedStringMap dst src =
     fold (\<lambda>(key, v) d.
             let keyName = normalizeSettingKey key
             in if keyName = [] then d else d(keyName \<mapsto> trim_space v))
       (sorted_entries src) dst"

definition normalizeStringMap :: "string go_map \<Rightarrow> (string \<rightharpoonup> string)" where
  "normalizeStringMap vs = mergeNormalizedStringMap Map.empty vs"

definition mergeScalarSetting :: "(string \<rightharpoonup> string) \<Rightarrow> string \<Rightarrow> gval \<Rightarrow> (string \<rightharpoonup> string)" where
  "mergeScalarSetting vs keyName v =
     (if keyName = [] then vs
      else case variantToString v of
             Some x \<Rightarrow> vs(keyName \<mapsto> trim_space x)
           | None \<Rightarrow> vs)"

record settingEntry =
  keyKind :: string
  entry_variant :: gval

definition sortedSectionSettings :: "connection_settings \<Rightarrow> string \<Rightarrow> settingEntry list" where
  "sortedSectionSettings settings sectionName =
     concat (map (\<lambda>(sec, sectionValues).
         if normalizeSectionName sec \<noteq> sectionName then []
         else map (\<lambda>(key, v). \<lparr>keyKind = normalizeSettingKey key, entry_variant = v\<rparr>)
                (sorted_entries sectionValues))
       (sorted_entries settings))"

text \<open>The three loops of \<open>flattenConnectionSettings\<close>, then the function.\<close>

definition merge_connection_entries :: "settingEntry list \<Rightarrow> (string \<rightharpoonup> string) \<Rightarrow> (string \<rightharpoonup> string)" where
  "merge_connection_entries es vs =
     fold (\<lambda>e d. if keyKind e = ''interfacename''
                 then mergeScalarSetting d (keyKind e) (entry_variant e) else d) es vs"

definition merge_scalar_entries :: "settingEntry list \<Rightarrow> (string \<rightharpoonup> string) \<Rightarrow> (string \<rightharpoonup> string)" where
  "merge_scalar_entries es vs =
     fold (\<lambda>e d. if keyKind e = ''data'' \<or> keyKind e = ''secrets'' then d
                 else mergeScalarSetting d (keyKind e) (entry_variant e)) es vs"

definition merge_nested_entries ::
  "string \<Rightarrow> settingEntry list \<Rightarrow> (string \<rightharpoonup> string) \<Rightarrow> (string \<rightharpoonup> string)" where
  "merge_nested_entries nestedKey es vs =
     fold (\<lambda>e d. if keyKind e \<noteq> nestedKey then d
                 else mergeNormalizedStringMap d (variantToStringMap (entry_variant e))) es vs"

definition flattenConnectionSettings :: "connection_settings \<Rightarrow> (string \<rightharpoonup> string)" where
  "flattenConnectionSettings settings =
     (let vs = merge_connection_entries (sortedSectionSettings settings ''connection'') Map.empty;
          vpnSettings = sortedSectionSettings settings ''vpn'';
          vs = merge_scalar_entries vpnSettings vs
      in fold (\<lambda>nestedKey. merge_nested_entries nestedKey vpnSettings) [''data'', ''secrets''] vs)"

subsection \<open>Reading flattened settings\<close>

fun firstSetting :: "(string \<rightharpoonup> string) \<Rightarrow> string list \<Rightarrow> string" where
  "firstSetting vs [] = []"
| "firstSetting vs (key # keys) =
     (let v = trim_space (get_str vs (normalizeSettingKey key))
      in if v \<noteq> [] then v else firstSetting vs keys)"

definition truthy_words :: "string list" where
  "truthy_words = [''1'', ''t'', ''true'', ''y'', ''yes'', ''on'']"

definition boolSetting :: "(string \<rightharpoonup> string) \<Rightarrow> string \<Rightarrow> bool" where
  "boolSetting vs key =
     List.member truthy_words (to_lower (trim_space (get_str vs (normalizeSettingKey key))))"

fun firstConnectionSetting :: "connection_settings \<Rightarrow> string list \<Rightarrow> string" where
  "firstConnectionSetting [] keys = []"
| "firstConnectionSetting ((sec, sectionValues) # rest) keys =
     (if normalizeSectionName sec \<noteq> ''connection'' then firstConnectionSetting rest keys
      else
        (let v = firstSetting (normalizeStringMap (variantMapToStrings sectionValues)) keys
         in if v \<noteq> [] then v else firstConnectionSetting rest keys))"

subsection \<open>Profile and user names\<close>

definition profile_char :: "char \<Rightarrow> bool" where
  "profile_char r \<longleftrightarrow> is_lower r \<or> is_upper r \<or> is_digit r
     \<or> r = CHR ''-'' \<or> r = CHR ''_'' \<or> r = CHR ''.''"

text \<open>The loop of \<open>sanitizeProfileNameComponent\<close>, with the text built so far.\<close>

fun sanitize_loop :: "string \<Rightarrow> bool \<Rightarrow> string \<Rightarrow> string" where
  "sanitize_loop b lastSeparator [] = b"
| "sanitize_loop b lastSeparator (r # rs) =
     (if profile_char r then sanitize_loop (b @ [r]) False rs
      else if b \<noteq> [] \<and> \<not> lastSeparator then sanitize_loop (b @ ''-'') True rs
      else sanitize_loop b lastSeparator rs)"

definition sanitizeProfileNameComponent :: "string \<Rightarrow> string" where
  "sanitizeProfileNameComponent v = trim_set ''-_.'' (sanitize_loop [] False (trim_space v))"

definition networkManagerConnectionProfileName :: "connection_settings \<Rightarrow> string" where
  "networkManagerConnectionProfileName settings =
     (let uuid = sanitizeProfileNameComponent (firstConnectionSetting settings [''uuid''])
      in if uuid \<noteq> [] then ''nm-'' @ uuid
         else
           (let idn = sanitizeProfileNameComponent (firstConnectionSetting settings [''id''])
            in if idn \<noteq> [] then ''nm-'' @ idn else []))"

fun permissionUsersFromStrings :: "string list \<Rightarrow> string list" where
  "permissionUsersFromStrings [] = []"
| "permissionUsersFromStrings (p # permissions) =
     (let permission = trim_space p
      in if \<not> prefix ''user:'' permission then permissionUsersFromStrings permissions
         else
           (let (before, _, found) = cut_at (CHR '':'') (trim_prefix permission ''user:'');
                username0 = (if found then before else trim_prefix permission ''user:'');
                username = trim_space username0
            in if username \<noteq> [] then username # permissionUsersFromStrings permissions
               else permissionUsersFromStrings permissions))"

fun permissionUsers :: "gval \<Rightarrow> string list" where
  "permissionUsers (VStrings typed) = permissionUsersFromStrings typed"
| "permissionUsers (VVariants typed) =
     permissionUsersFromStrings (List.map_filter variantToString typed)"
| "permissionUsers (VAnys typed) = permissionUsersFromStrings (List.map_filter anyToString typed)"
| "permissionUsers (VString typed) = permissionUsersFromStrings [typed]"
| "permissionUsers _ = []"

definition connection_permission_users :: "connection_settings \<Rightarrow> string list" where
  "connection_permission_users settings =
     concat (map (\<lambda>(sec, sectionValues).
         if normalizeSectionName sec \<noteq> ''connection'' then []
         else concat (map (\<lambda>(key, v).
             if normalizeSettingKey key \<noteq> ''permissions'' then [] else permissionUsers v)
           sectionValues))
       settings)"

definition networkManagerConnectionPermissionUsername :: "connection_settings \<Rightarrow> string" where
  "networkManagerConnectionPermissionUsername settings =
     (case remdups (connection_permission_users settings) of
        [username] \<Rightarrow> username
      | _ \<Rightarrow> [])"

subsection \<open>Activation settings\<close>

text \<open>What the process asks its operating system for: its host name and its user.\<close>

record os_env =
  os_Hostname :: string
  os_User :: "string option"

definition currentProcessUsername :: "os_env \<Rightarrow> string" where
  "currentProcessUsername os = (case os_User os of None \<Rightarrow> [] | Some u \<Rightarrow> trim_space u)"

definition defaultHostname :: "os_env \<Rightarrow> string" where
  "defaultHostname os = trim_space (os_Hostname os)"

definition defaultManagementURL :: string where
  "defaultManagementURL = ''https://api.netbird.io:443''"

definition defaultAdminURL :: string where
  "defaultAdminURL = ''https://app.netbird.io:443''"

definition netbirdPromptActivationID :: string where
  "netbirdPromptActivationID = ''x-netbird-activation-id''"

definition netbirdSSOHint :: string where
  "netbirdSSOHint = ''x-netbird-sso''"

definition netbirdSSOVerificationURIHint :: string where
  "netbirdSSOVerificationURIHint = ''x-netbird-sso-verification-uri''"

definition netbirdSSOVerificationURIComplete :: string where
  "netbirdSSOVerificationURIComplete = ''x-netbird-sso-verification-uri-complete''"

definition netbirdSSOUserCodeHint :: string where
  "netbirdSSOUserCodeHint = ''x-netbird-sso-user-code''"

definition netbirdSSOContinue :: string where
  "netbirdSSOContinue = ''x-netbird-sso-continue''"

definition netbirdSSOCancel :: string where
  "netbirdSSOCancel = ''x-netbird-sso-cancel''"

record activationSettings =
  s_Profile :: profile_ref
  s_SetupKey :: string
  s_ManagementURL :: string
  s_AdminURL :: string
  s_Hostname :: string
  s_InterfaceName :: string
  s_PreSharedKey :: string
  s_AuthMode :: string
  s_PromptActivationID :: string
  s_SSORequested :: bool
  s_SSOVerificationURI :: string
  s_SSOVerificationURIComplete :: string
  s_SSOUserCode :: string
  s_SSOContinue :: bool
  s_SSOCancel :: bool

definition auth_keys :: "string list" where
  "auth_keys = [''auth'', ''auth-mode'', ''authentication'', ''login-mode'']"

definition setup_key_keys :: "string list" where
  "setup_key_keys = [''setup-key'', ''setupKey'', ''netbird-setup-key'']"

definition parseActivationSettings :: "connection_settings \<Rightarrow> activationSettings" where
  "parseActivationSettings settings =
     (let vs = flattenConnectionSettings settings;
          profileName = networkManagerConnectionProfileName settings;
          username0 = firstSetting vs [''netbird-username'', ''username'', ''user-name'', ''user''];
          username = (if username0 = [] \<and> profileName \<noteq> []
                      then networkManagerConnectionPermissionUsername settings else username0);
          interfaceName = normalizeInterfaceName
            (firstSetting vs [''interface-name'', ''interfaceName'', ''netbird-interface-name'']);
          authMode = normalizeAuthMode (firstSetting vs auth_keys)
      in \<lparr>s_Profile = \<lparr>ref_ID = [], ref_ProfileName = profileName, ref_Username = username\<rparr>,
          s_SetupKey = firstSetting vs setup_key_keys,
          s_ManagementURL = firstSetting vs [''management-url'', ''managementUrl'', ''netbird-management-url''],
          s_AdminURL = firstSetting vs [''admin-url'', ''adminURL'', ''netbird-admin-url''],
          s_Hostname = firstSetting vs [''hostname'', ''host-name''],
          s_InterfaceName = interfaceName,
          s_PreSharedKey = firstSetting vs [''pre-shared-key'', ''preshared-key'', ''preSharedKey''],
          s_AuthMode = authMode,
          s_PromptActivationID = firstSetting vs [netbirdPromptActivationID],
          s_SSORequested = boolSetting vs netbirdSSOHint,
          s_SSOVerificationURI = firstSetting vs [netbirdSSOVerificationURIHint],
          s_SSOVerificationURIComplete = firstSetting vs [netbirdSSOVerificationURIComplete],
          s_SSOUserCode = firstSetting vs [netbirdSSOUserCodeHint],
          s_SSOContinue = boolSetting vs netbirdSSOContinue,
          s_SSOCancel = boolSetting vs netbirdSSOCancel\<rparr>)"

definition needsSetupKeySecret :: "activationSettings \<Rightarrow> bool" where
  "needsSetupKeySecret s \<longleftrightarrow> s_AuthMode s = ''setup-key'' \<and> trim_space (s_SetupKey s) = []"

definition shouldLogin :: "activationSettings \<Rightarrow> bool \<Rightarrow> bool" where
  "shouldLogin s interactive =
     (if s_AuthMode s = ''setup-key'' then True
      else if s_AuthMode s = ''sso'' then interactive
      else False)"

definition shouldUpdateProfile :: "activationSettings \<Rightarrow> bool" where
  "shouldUpdateProfile s =
     (if s_AuthMode s = ''setup-key'' \<or> s_AuthMode s = ''sso'' then True
      else trim_space (s_ManagementURL s) \<noteq> [] \<or> trim_space (s_AdminURL s) \<noteq> []
        \<or> trim_space (s_InterfaceName s) \<noteq> [] \<or> trim_space (s_PreSharedKey s) \<noteq> [])"

definition isAuthModeValid :: "activationSettings \<Rightarrow> bool" where
  "isAuthModeValid s =
     (if s_AuthMode s = [] then False
      else if s_AuthMode s \<noteq> ''setup-key'' \<and> s_AuthMode s \<noteq> ''sso'' then False
      else True)"

definition resolvedManagementURL :: "activationSettings \<Rightarrow> string" where
  "resolvedManagementURL s =
     (let v = trim_space (s_ManagementURL s) in if v \<noteq> [] then v else defaultManagementURL)"

definition resolvedAdminURL :: "activationSettings \<Rightarrow> string" where
  "resolvedAdminURL s =
     (let v = trim_space (s_AdminURL s) in if v \<noteq> [] then v else defaultAdminURL)"

definition daemonLoginRequest :: "os_env \<Rightarrow> activationSettings \<Rightarrow> login_request" where
  "daemonLoginRequest os s =
     (let hostname0 = trim_space (s_Hostname s);
          hostname = (if hostname0 = [] then defaultHostname os else hostname0);
          setupKey = (if s_AuthMode s = ''setup-key'' then s_SetupKey s else [])
      in \<lparr>login_SetupKey = setupKey,
          login_ManagementURL = resolvedManagementURL s,
          login_AdminURL = resolvedAdminURL s,
          login_Hostname = hostname,
          login_InterfaceName = s_InterfaceName s,
          login_PreSharedKey = s_PreSharedKey s,
          login_Profile = s_Profile s\<rparr>)"

definition daemonUpdateProfileRequest :: "activationSettings \<Rightarrow> update_profile_request" where
  "daemonUpdateProfileRequest s =
     \<lparr>update_Profile = s_Profile s,
      update_ManagementURL = resolvedManagementURL s,
      update_AdminURL = resolvedAdminURL s,
      update_InterfaceName = s_InterfaceName s,
      update_PreSharedKey = s_PreSharedKey s\<rparr>"

text \<open>\<open>mergeStringDetail\<close> writes through a pointer to a field; here it returns the field's value.\<close>

definition mergeStringDetail :: "(string \<rightharpoonup> string) \<Rightarrow> string \<Rightarrow> string list \<Rightarrow> string" where
  "mergeStringDetail vs field keys =
     (let v = firstSetting vs keys in if v \<noteq> [] then v else field)"

definition mergeDetails :: "activationSettings \<Rightarrow> variant_map \<Rightarrow> activationSettings" where
  "mergeDetails s details =
     (if details = [] then s
      else
        (let vs = normalizeStringMap (variantMapToStrings details);
             mode = firstSetting vs auth_keys
         in s\<lparr>s_AuthMode := (if mode \<noteq> [] then normalizeAuthMode mode else s_AuthMode s),
              s_SetupKey := mergeStringDetail vs (s_SetupKey s) setup_key_keys,
              s_PromptActivationID :=
                mergeStringDetail vs (s_PromptActivationID s) [netbirdPromptActivationID],
              s_SSOVerificationURI :=
                mergeStringDetail vs (s_SSOVerificationURI s) [netbirdSSOVerificationURIHint],
              s_SSOVerificationURIComplete :=
                mergeStringDetail vs (s_SSOVerificationURIComplete s) [netbirdSSOVerificationURIComplete],
              s_SSOUserCode := mergeStringDetail vs (s_SSOUserCode s) [netbirdSSOUserCodeHint],
              s_SSORequested := (if boolSetting vs netbirdSSOHint then True else s_SSORequested s),
              s_SSOContinue := (if boolSetting vs netbirdSSOContinue then True else s_SSOContinue s),
              s_SSOCancel := (if boolSetting vs netbirdSSOCancel then True else s_SSOCancel s)\<rparr>))"

section \<open>Strings\<close>

lemma normalizeSettingKey_chars: "c \<in> set (normalizeSettingKey k) \<Longrightarrow> is_lower c \<or> is_digit c"
  by (simp add: normalizeSettingKey_def)

lemma letter_solid: "is_lower c \<or> is_upper c \<or> is_digit c \<Longrightarrow> solid c"
  by (auto simp: is_lower_def is_upper_def is_digit_def solid_def of_char_less_eq)

lemma trim_all_solid: "\<forall>c \<in> set s. solid c \<Longrightarrow> trim_space s = s"
  by (cases "s = []") (auto intro: trim_space_solid)

lemma lower_char_fixed: "\<not> is_upper c \<Longrightarrow> lower_char c = c"
  by (auto simp: lower_char_def is_upper_def)

lemma to_lower_fixed: "\<forall>c \<in> set s. \<not> is_upper c \<Longrightarrow> to_lower s = s"
  by (simp add: to_lower_def lower_char_fixed map_idI)

lemma lower_digit_not_upper: "is_lower c \<or> is_digit c \<Longrightarrow> \<not> is_upper c"
  by (auto simp: is_lower_def is_upper_def is_digit_def of_char_less_eq)

interpretation setting_key: string_normalizer normalizeSettingKey
proof unfold_locales
  fix k
  have "\<forall>c \<in> set (normalizeSettingKey k). solid c \<and> \<not> is_upper c"
    using normalizeSettingKey_chars letter_solid lower_digit_not_upper by blast
  then have "trim_space (normalizeSettingKey k) = normalizeSettingKey k"
    "to_lower (normalizeSettingKey k) = normalizeSettingKey k"
    by (auto intro: trim_all_solid to_lower_fixed)
  then show "normalizeSettingKey (normalizeSettingKey k) = normalizeSettingKey k"
    by (subst normalizeSettingKey_def) (auto dest: normalizeSettingKey_chars intro: filter_True)
qed (simp add: normalizeSettingKey_def)

lemma dash_not_space: "CHR ''-'' \<notin> set space_chars" "CHR ''_'' \<notin> set space_chars"
  by (simp_all add: space_chars_def space_runes_def)

interpretation auth_mode: string_normalizer normalizeAuthMode
proof unfold_locales
  fix v
  define w where "w = replace_char (CHR ''_'') (CHR ''-'') (to_lower (trim_space v))"
  have "lower_char (CHR ''-'') = CHR ''-''" by code_simp
  then have "to_lower w = w"
    by (simp add: w_def replace_char_def to_lower_def)
  moreover have "trim_space w = w"
    by (simp add: w_def trim_replace_char trim_to_lower dash_not_space)
  ultimately have "replace_char (CHR ''_'') (CHR ''-'') (to_lower (trim_space w)) = w"
    by (simp add: w_def)
  moreover have "normalizeAuthMode ''setup-key'' = ''setup-key''" "normalizeAuthMode ''sso'' = ''sso''"
    by code_simp+
  moreover have "normalizeAuthMode v \<in> {''setup-key'', ''sso'', w}"
    by (simp add: normalizeAuthMode_def Let_def w_def)
  ultimately show "normalizeAuthMode (normalizeAuthMode v) = normalizeAuthMode v"
    by (auto simp: normalizeAuthMode_def Let_def w_def)
qed (simp add: normalizeAuthMode_def)

interpretation interface_name: string_normalizer normalizeInterfaceName
  by unfold_locales (simp_all add: normalizeInterfaceName_def Let_def)

subsection \<open>Profile names\<close>

lemma sanitize_loop_chars:
  "\<forall>c \<in> set b. profile_char c \<Longrightarrow> c \<in> set (sanitize_loop b ls s) \<Longrightarrow> profile_char c"
  by (induction b ls s rule: sanitize_loop.induct)
    (auto simp: profile_char_def split: if_splits)

lemma sanitize_loop_clean:
  "\<forall>c \<in> set s. profile_char c \<Longrightarrow> sanitize_loop b ls s = b @ s"
  by (induction b ls s rule: sanitize_loop.induct) auto

lemma set_trim_set: "set (trim_set cs s) \<subseteq> set s"
proof -
  have "set (dropWhile (\<lambda>c. c \<in> set cs) t) \<subseteq> set t" for t
    by (rule set_mono_suffix) (rule suffix_dropWhile)
  from this [of "rev (dropWhile (\<lambda>c. c \<in> set cs) s)"] this [of s] show ?thesis
    by (simp add: trim_set_def)
qed

lemma trim_set_ends:
  assumes "trim_set cs s \<noteq> []"
  shows "hd (trim_set cs s) \<notin> set cs" "last (trim_set cs s) \<notin> set cs"
proof -
  define t where "t = dropWhile (\<lambda>c. c \<in> set cs) s"
  have trim: "trim_set cs s = rev (dropWhile (\<lambda>c. c \<in> set cs) (rev t))"
    by (simp add: trim_set_def t_def)
  then have "dropWhile (\<lambda>c. c \<in> set cs) (rev t) \<noteq> []" using assms by simp
  with trim show "last (trim_set cs s) \<notin> set cs"
    using hd_dropWhile [of "\<lambda>c. c \<in> set cs" "rev t"] by (simp add: last_rev)
  have "prefix (trim_set cs s) t"
    using suffix_dropWhile [of "\<lambda>c. c \<in> set cs" "rev t"] by (simp add: trim suffix_to_prefix)
  then have "hd (trim_set cs s) = hd t" "t \<noteq> []"
    using assms by (auto simp: prefix_def)
  then show "hd (trim_set cs s) \<notin> set cs"
    unfolding t_def by (metis dropWhile_eq_Nil_conv hd_dropWhile)
qed

lemma trim_set_clean: "s \<noteq> [] \<Longrightarrow> hd s \<notin> set cs \<Longrightarrow> last s \<notin> set cs \<Longrightarrow> trim_set cs s = s"
proof -
  assume s: "s \<noteq> []" "hd s \<notin> set cs" "last s \<notin> set cs"
  then have "dropWhile (\<lambda>c. c \<in> set cs) s = s" by (cases s) auto
  moreover have "dropWhile (\<lambda>c. c \<in> set cs) (rev s) = rev s"
    using s by (cases s rule: rev_cases) auto
  ultimately show ?thesis by (simp add: trim_set_def)
qed

lemma sanitize_chars: "c \<in> set (sanitizeProfileNameComponent s) \<Longrightarrow> profile_char c"
  unfolding sanitizeProfileNameComponent_def
  using set_trim_set sanitize_loop_chars [of "[]"] by fastforce

lemma profile_char_solid: "profile_char c \<Longrightarrow> solid c"
  unfolding profile_char_def using letter_solid by (auto simp: solid_def)

lemma sanitize_clean:
  assumes "\<forall>c \<in> set s. profile_char c" "s \<noteq> []" "hd s \<notin> set ''-_.''" "last s \<notin> set ''-_.''"
  shows "sanitizeProfileNameComponent s = s"
proof -
  have "trim_space s = s" using assms(1) profile_char_solid by (intro trim_all_solid) blast
  then have "sanitizeProfileNameComponent s = trim_set ''-_.'' s"
    using assms(1) by (simp add: sanitizeProfileNameComponent_def sanitize_loop_clean)
  then show ?thesis using trim_set_clean [OF assms(2-4)] by simp
qed

interpretation profile_component: string_normalizer sanitizeProfileNameComponent
proof unfold_locales
  fix s
  show "sanitizeProfileNameComponent (sanitizeProfileNameComponent s) = sanitizeProfileNameComponent s"
  proof (cases "sanitizeProfileNameComponent s = []")
    case True
    moreover have "sanitizeProfileNameComponent [] = []" by code_simp
    ultimately show ?thesis by simp
  next
    case False
    then show ?thesis
      using sanitize_chars trim_set_ends [of "''-_.''"]
      by (intro sanitize_clean) (auto simp: sanitizeProfileNameComponent_def simp del: set_simps)
  qed
qed (simp add: sanitizeProfileNameComponent_def)

section \<open>Flattening\<close>

lemma mergeNormalized_add:
  "mergeNormalizedStringMap d src = d ++ mergeNormalizedStringMap Map.empty src"
  unfolding mergeNormalizedStringMap_def
  by (rule fold_map_add) (auto simp: Let_def split: prod.split)

lemma mergeScalar_add: "mergeScalarSetting d k v = d ++ mergeScalarSetting Map.empty k v"
  by (simp add: mergeScalarSetting_def split: option.split)

lemma merge_entries_add:
  "merge_connection_entries es d = d ++ merge_connection_entries es Map.empty"
  "merge_scalar_entries es d = d ++ merge_scalar_entries es Map.empty"
  "merge_nested_entries k es d = d ++ merge_nested_entries k es Map.empty"
  unfolding merge_connection_entries_def merge_scalar_entries_def merge_nested_entries_def
  by (rule fold_map_add; auto intro: mergeScalar_add mergeNormalized_add)+

lemma dom_mergeScalar: "dom (mergeScalarSetting d k v) \<subseteq> dom d \<union> {k}"
  by (auto simp: mergeScalarSetting_def split: option.split if_splits)

lemma dom_merge_connection: "dom (merge_connection_entries es d) \<subseteq> dom d \<union> {''interfacename''}"
proof -
  have "dom (if keyKind e = ''interfacename'' then mergeScalarSetting d (keyKind e) (entry_variant e)
      else d) \<subseteq> dom d \<union> {''interfacename''}" for e d
    using dom_mergeScalar [of d "keyKind e" "entry_variant e"]
    by (cases "keyKind e = ''interfacename''") (simp_all add: subset_insertI)
  then show ?thesis
    unfolding merge_connection_entries_def by (intro dom_fold) blast
qed

lemma dom_merge_scalar:
  "dom (merge_scalar_entries es d) \<subseteq> dom d \<union> (- {''data'', ''secrets''})"
proof -
  have "dom (if keyKind e = ''data'' \<or> keyKind e = ''secrets'' then d
      else mergeScalarSetting d (keyKind e) (entry_variant e)) \<subseteq> dom d \<union> - {''data'', ''secrets''}" for e d
    using dom_mergeScalar [of d "keyKind e" "entry_variant e"] by auto
  then show ?thesis
    unfolding merge_scalar_entries_def by (intro dom_fold) blast
qed

text \<open>The four sources of a value, each on its own.\<close>

definition from_connection :: "connection_settings \<Rightarrow> (string \<rightharpoonup> string)" where
  "from_connection s = merge_connection_entries (sortedSectionSettings s ''connection'') Map.empty"

definition from_vpn_scalars :: "connection_settings \<Rightarrow> (string \<rightharpoonup> string)" where
  "from_vpn_scalars s = merge_scalar_entries (sortedSectionSettings s ''vpn'') Map.empty"

definition from_vpn_map :: "string \<Rightarrow> connection_settings \<Rightarrow> (string \<rightharpoonup> string)" where
  "from_vpn_map k s = merge_nested_entries k (sortedSectionSettings s ''vpn'') Map.empty"

lemma flatten_sources:
  "flattenConnectionSettings s =
     from_connection s ++ from_vpn_scalars s ++ from_vpn_map ''data'' s ++ from_vpn_map ''secrets'' s"
proof -
  let ?vpn = "sortedSectionSettings s ''vpn''"
  have "flattenConnectionSettings s = merge_nested_entries ''secrets'' ?vpn
      (merge_nested_entries ''data'' ?vpn (merge_scalar_entries ?vpn (from_connection s)))"
    by (simp add: flattenConnectionSettings_def from_connection_def Let_def)
  also have "\<dots> = ((from_connection s ++ from_vpn_scalars s) ++ from_vpn_map ''data'' s)
      ++ from_vpn_map ''secrets'' s"
    unfolding from_vpn_scalars_def from_vpn_map_def by (metis merge_entries_add(2,3))
  finally show ?thesis .
qed

section \<open>Independence of iteration order\<close>

text \<open>
  Two variants are the same value up to the order of the map they may hold; two sections, and
  two settings, up to the order of their entries.
\<close>

definition same_value :: "gval \<Rightarrow> gval \<Rightarrow> bool" where
  "same_value v w \<longleftrightarrow> v = w
     \<or> (\<exists>m n. v = VMapString m \<and> w = VMapString n \<and> same_map m n)
     \<or> (\<exists>m n. v = VMapVariant m \<and> w = VMapVariant n \<and> same_map m n)
     \<or> (\<exists>m n. v = VMapAny m \<and> w = VMapAny n \<and> same_map m n)"

definition same_section :: "variant_map \<Rightarrow> variant_map \<Rightarrow> bool" where
  "same_section m n \<longleftrightarrow> distinct (map fst m) \<and> distinct (map fst n)
     \<and> (\<forall>k. rel_option same_value (map_of m k) (map_of n k))"

definition same_settings :: "connection_settings \<Rightarrow> connection_settings \<Rightarrow> bool" where
  "same_settings s t \<longleftrightarrow> distinct (map fst s) \<and> distinct (map fst t)
     \<and> (\<forall>k. rel_option same_section (map_of s k) (map_of t k))"

interpretation merge_source: map_reader "mergeNormalizedStringMap dst" for dst
  by unfold_locales (simp add: mergeNormalizedStringMap_def sorted_entries_same)

interpretation normalized_map: map_reader normalizeStringMap
  by unfold_locales (simp add: normalizeStringMap_def merge_source.order_free)

lemma keys_variantMapToStrings: "set (map fst (variantMapToStrings m)) \<subseteq> set (map fst m)"
  by (induction m rule: variantMapToStrings.induct) (auto split: option.split)

lemma distinct_variantMapToStrings:
  "distinct (map fst m) \<Longrightarrow> distinct (map fst (variantMapToStrings m))"
proof (induction m rule: variantMapToStrings.induct)
  case (2 key v rest)
  then have "key \<notin> set (map fst (variantMapToStrings rest))"
    using keys_variantMapToStrings [of rest] by auto
  with 2 show ?case by (simp split: option.split)
qed simp

lemma map_of_variantMapToStrings:
  "distinct (map fst m) \<Longrightarrow>
     map_of (variantMapToStrings m) k = Option.bind (map_of m k) variantToString"
proof (induction m rule: variantMapToStrings.induct)
  case (2 key v rest)
  have "map_of rest key = None"
    using 2 by (simp add: map_of_eq_None_iff)
  with 2 show ?case by (auto split: option.split)
qed simp

lemma same_value_toString: "same_value v w \<Longrightarrow> variantToString v = variantToString w"
  by (auto simp: same_value_def variantToString_def)

lemma same_section_strings:
  assumes "same_section m n"
  shows "same_map (variantMapToStrings m) (variantMapToStrings n)"
proof -
  have rel: "rel_option same_value (map_of m k) (map_of n k)" for k
    using assms by (simp add: same_section_def)
  have "Option.bind (map_of m k) variantToString = Option.bind (map_of n k) variantToString" for k
    using rel [of k] by (cases "map_of m k"; cases "map_of n k") (auto dest: same_value_toString)
  then show ?thesis
    using assms
    by (subst same_map_iff_map_of)
      (auto simp: same_section_def distinct_variantMapToStrings map_of_variantMapToStrings)
qed

lemma same_map_section:
  assumes "same_map m n"
  shows "same_section m n"
proof -
  have "distinct (map fst m)" "distinct (map fst n)"
    using assms same_map_distinct by blast+
  moreover from this have "map_of m = map_of n"
    using assms by (simp add: same_map_iff_map_of)
  ultimately show ?thesis
    by (auto simp: same_section_def same_value_def option.rel_refl)
qed

lemma same_value_stringMap:
  "same_value v w \<Longrightarrow> mergeNormalizedStringMap d (variantToStringMap v)
     = mergeNormalizedStringMap d (variantToStringMap w)"
  unfolding same_value_def
  by (elim disjE exE conjE)
    (simp_all add: merge_source.order_free same_section_strings same_map_section)

definition same_entry :: "settingEntry \<Rightarrow> settingEntry \<Rightarrow> bool" where
  "same_entry e f \<longleftrightarrow> keyKind e = keyKind f \<and> same_value (entry_variant e) (entry_variant f)"

lemma same_section_entries:
  "same_section m n \<Longrightarrow> list_all2 same_entry
     (map (\<lambda>(key, v). \<lparr>keyKind = normalizeSettingKey key, entry_variant = v\<rparr>) (sorted_entries m))
     (map (\<lambda>(key, v). \<lparr>keyKind = normalizeSettingKey key, entry_variant = v\<rparr>) (sorted_entries n))"
  using sorted_entries_rel [of m n same_value]
  by (auto simp: same_section_def list_all2_map1 list_all2_map2 same_entry_def
      elim!: list_all2_mono)

lemma sortedSectionSettings_same:
  assumes "same_settings s t"
  shows "list_all2 same_entry (sortedSectionSettings s name) (sortedSectionSettings t name)"
proof -
  have "list_all2 (\<lambda>(k, v) (k', w). k = k' \<and> same_section v w) (sorted_entries s) (sorted_entries t)"
    using assms by (intro sorted_entries_rel) (auto simp: same_settings_def)
  then show ?thesis
    unfolding sortedSectionSettings_def
    by (induction rule: list_all2_induct)
      (auto intro!: list_all2_appendI same_section_entries)
qed

lemma fold_same:
  assumes "list_all2 R es fs" "\<And>e f d. R e f \<Longrightarrow> g e d = g f d"
  shows "fold g es d = fold g fs d"
  using assms(1) by (induction arbitrary: d rule: list_all2_induct) (auto simp: assms(2))

lemma merge_entries_same:
  assumes "list_all2 same_entry es fs"
  shows "merge_connection_entries es d = merge_connection_entries fs d"
    "merge_scalar_entries es d = merge_scalar_entries fs d"
    "merge_nested_entries k es d = merge_nested_entries k fs d"
  unfolding merge_connection_entries_def merge_scalar_entries_def merge_nested_entries_def
  by (rule fold_same [OF assms];
      auto simp: same_entry_def mergeScalarSetting_def same_value_toString same_value_stringMap)+

lemma flatten_same:
  assumes "same_settings s t"
  shows "flattenConnectionSettings s = flattenConnectionSettings t"
  unfolding flatten_sources from_connection_def from_vpn_scalars_def from_vpn_map_def
  by (simp only: merge_entries_same [OF sortedSectionSettings_same [OF assms]])

section \<open>Names read from the connection section\<close>

text \<open>The settings have at most one section that counts as the connection section.\<close>

definition connection_sections :: "connection_settings \<Rightarrow> variant_map list" where
  "connection_sections s =
     map snd (filter (\<lambda>(sec, m). normalizeSectionName sec = ''connection'') s)"

definition one_connection :: "connection_settings \<Rightarrow> bool" where
  "one_connection s \<longleftrightarrow> length (connection_sections s) \<le> 1"

lemma firstConnectionSetting_sections:
  "firstConnectionSetting s keys =
     (case filter (\<lambda>v. v \<noteq> []) (map (\<lambda>m. firstSetting (normalizeStringMap (variantMapToStrings m)) keys)
         (connection_sections s)) of [] \<Rightarrow> [] | v # vs \<Rightarrow> v)"
  by (induction s keys rule: firstConnectionSetting.induct)
    (auto simp: connection_sections_def Let_def)

lemma same_settings_sections:
  assumes "same_settings s t" "m \<in> set (connection_sections s)"
  shows "\<exists>m' \<in> set (connection_sections t). same_section m m'"
proof -
  from assms(2) obtain sec where sec: "(sec, m) \<in> set s" "normalizeSectionName sec = ''connection''"
    by (auto simp: connection_sections_def)
  then have "map_of s sec = Some m"
    using assms by (simp add: same_settings_def)
  moreover have "rel_option same_section (map_of s sec) (map_of t sec)"
    using assms by (simp add: same_settings_def)
  ultimately obtain m' where "map_of t sec = Some m'" "same_section m m'"
    by (cases "map_of t sec") auto
  with sec(2) show ?thesis
    by (force simp: connection_sections_def dest: map_of_SomeD)
qed

lemma same_value_sym: "same_value v w \<Longrightarrow> same_value w v"
  unfolding same_value_def using same_map_sym by metis

lemma same_section_sym: "same_section m n \<Longrightarrow> same_section n m"
  unfolding same_section_def using rel_option_sym [of same_value same_value, OF same_value_sym] by blast

lemma same_settings_sym: "same_settings s t \<Longrightarrow> same_settings t s"
  unfolding same_settings_def
  using rel_option_sym [of same_section same_section, OF same_section_sym] by blast

lemma connection_sections_same:
  assumes "same_settings s t" "one_connection s" "one_connection t"
  shows "list_all2 same_section (connection_sections s) (connection_sections t)"
proof (cases "connection_sections s")
  case Nil
  then have "connection_sections t = []"
    using same_settings_sections [OF same_settings_sym [OF assms(1)]]
    by (cases "connection_sections t") auto
  with Nil show ?thesis by simp
next
  case (Cons m ms)
  then have s: "connection_sections s = [m]"
    using assms(2) by (simp add: one_connection_def)
  then obtain m' where m': "m' \<in> set (connection_sections t)" "same_section m m'"
    using same_settings_sections [OF assms(1), of m] by auto
  then have "connection_sections t = [m']"
    using assms(3) by (cases "connection_sections t") (auto simp: one_connection_def)
  with s m'(2) show ?thesis by simp
qed

lemma firstConnectionSetting_same:
  assumes "same_settings s t" "one_connection s" "one_connection t"
  shows "firstConnectionSetting s keys = firstConnectionSetting t keys"
proof -
  have "map (\<lambda>m. firstSetting (normalizeStringMap (variantMapToStrings m)) keys) (connection_sections s)
      = map (\<lambda>m. firstSetting (normalizeStringMap (variantMapToStrings m)) keys) (connection_sections t)"
    using connection_sections_same [OF assms]
    by (induction rule: list_all2_induct)
      (auto dest!: same_section_strings normalized_map.order_free)
  then show ?thesis by (simp add: firstConnectionSetting_sections)
qed

lemma permissionUsers_same: "same_value v w \<Longrightarrow> permissionUsers v = permissionUsers w"
  by (auto simp: same_value_def)

definition section_users :: "variant_map \<Rightarrow> string set" where
  "section_users m =
     {u. \<exists>k v. (k, v) \<in> set m \<and> normalizeSettingKey k = ''permissions'' \<and> u \<in> set (permissionUsers v)}"

lemma set_permission_users:
  "set (connection_permission_users s) = (\<Union>m \<in> set (connection_sections s). section_users m)"
proof (induction s)
  case (Cons entry s)
  obtain sec m where entry: "entry = (sec, m)" by (cases entry)
  have "section_users m = (\<Union>(k, v) \<in> set m. if normalizeSettingKey k = ''permissions''
      then set (permissionUsers v) else {})"
    by (force simp: section_users_def split: if_splits)
  with Cons show ?case
    by (auto simp: entry connection_permission_users_def connection_sections_def split: if_splits)
qed (simp add: connection_permission_users_def connection_sections_def)

lemma section_users_same:
  assumes "same_section m n"
  shows "section_users m \<subseteq> section_users n"
proof
  fix u
  assume "u \<in> section_users m"
  then obtain k v where kv: "(k, v) \<in> set m" "normalizeSettingKey k = ''permissions''"
      "u \<in> set (permissionUsers v)"
    by (auto simp: section_users_def)
  from kv(1) assms have "map_of m k = Some v" by (simp add: same_section_def)
  moreover have "rel_option same_value (map_of m k) (map_of n k)"
    using assms by (simp add: same_section_def)
  ultimately obtain w where "map_of n k = Some w" "same_value v w"
    by (cases "map_of n k") auto
  with kv show "u \<in> section_users n"
    using permissionUsers_same [of v w] by (auto simp: section_users_def dest: map_of_SomeD)
qed

lemma permission_users_subset:
  assumes "same_settings s t"
  shows "set (connection_permission_users s) \<subseteq> set (connection_permission_users t)"
  unfolding set_permission_users
proof
  fix u
  assume "u \<in> (\<Union>m \<in> set (connection_sections s). section_users m)"
  then obtain m where m: "m \<in> set (connection_sections s)" "u \<in> section_users m" by blast
  obtain m' where "m' \<in> set (connection_sections t)" "same_section m m'"
    using same_settings_sections [OF assms m(1)] by blast
  with m(2) show "u \<in> (\<Union>m \<in> set (connection_sections t). section_users m)"
    using section_users_same by blast
qed

lemma single_username:
  "(case remdups xs of [u] \<Rightarrow> u | _ \<Rightarrow> []) = (if card (set xs) = 1 then the_elem (set xs) else [])"
proof (cases "remdups xs")
  case Nil
  then show ?thesis by simp
next
  case (Cons u us)
  have len: "card (set xs) = length (u # us)" and set_eq: "set xs = set (u # us)"
    using Cons by (metis length_remdups_card_conv, metis set_remdups)
  show ?thesis
    using Cons len set_eq by (cases us) simp_all
qed

lemma permission_username_same:
  assumes "same_settings s t"
  shows "networkManagerConnectionPermissionUsername s = networkManagerConnectionPermissionUsername t"
proof -
  have "set (connection_permission_users s) = set (connection_permission_users t)"
    using permission_users_subset [OF assms] permission_users_subset [OF same_settings_sym [OF assms]]
    by blast
  then show ?thesis
    by (simp add: networkManagerConnectionPermissionUsername_def single_username)
qed

lemma one_connection_same:
  assumes "same_settings s t"
  shows "one_connection s = one_connection t"
proof -
  have len: "length (connection_sections u)
      = card {sec \<in> set (map fst u). normalizeSectionName sec = ''connection''}"
    if "distinct (map fst u)" for u :: connection_settings
  proof -
    have "length (connection_sections u)
        = length (filter (\<lambda>sec. normalizeSectionName sec = ''connection'') (map fst u))"
      by (simp add: connection_sections_def filter_map comp_def split_def)
    also have "\<dots> = card (set (filter (\<lambda>sec. normalizeSectionName sec = ''connection'') (map fst u)))"
      by (rule distinct_card [symmetric]) (rule distinct_filter [OF that])
    finally show ?thesis by simp
  qed
  have "dom (map_of s) = dom (map_of t)"
    using assms unfolding same_settings_def dom_def
    by (metis option.rel_distinct(1,2) not_None_eq)
  then have "set (map fst s) = set (map fst t)"
    by (simp add: dom_map_of_conv_image_fst)
  with assms show ?thesis
    by (simp only: one_connection_def len same_settings_def)
qed

lemma setting_names_nonempty: "''nm-'' @ c \<noteq> []"
  by simp

section \<open>Properties\<close>

text \<open>
  C26: the flattened settings are four sources laid over one another, each on its own:
  connection.interface-name, then the scalar fields of the vpn section, then vpn.data, then
  vpn.secrets. A later source wins for every key, nothing else of the connection section
  gets in, and the containers data and secrets never appear as values themselves.
\<close>

theorem flatten_precedence:
  "flattenConnectionSettings s =
     from_connection s ++ from_vpn_scalars s ++ from_vpn_map ''data'' s ++ from_vpn_map ''secrets'' s
   \<and> dom (from_connection s) \<subseteq> {''interfacename''}
   \<and> dom (from_vpn_scalars s) \<inter> {''data'', ''secrets''} = {}"
proof (intro conjI)
  show "dom (from_connection s) \<subseteq> {''interfacename''}"
    using dom_merge_connection [of "sortedSectionSettings s ''connection''" Map.empty]
    by (simp add: from_connection_def)
  show "dom (from_vpn_scalars s) \<inter> {''data'', ''secrets''} = {}"
    using dom_merge_scalar [of "sortedSectionSettings s ''vpn''" Map.empty]
    by (auto simp: from_vpn_scalars_def)
qed (rule flatten_sources)

text \<open>
  C25: parsing does not depend on the order in which Go iterates over the maps: the sections, the
  fields of a section, or the entries of vpn.data and vpn.secrets. The one proviso is that the
  settings do not hold two sections whose names both normalise to connection, since
  \<open>firstConnectionSetting\<close> ranges over the sections unsorted.
\<close>

theorem parse_order_free:
  assumes "same_settings s t" "one_connection s"
  shows "parseActivationSettings s = parseActivationSettings t"
proof -
  have "one_connection t" using assms one_connection_same by blast
  then have profile: "networkManagerConnectionProfileName s = networkManagerConnectionProfileName t"
    by (simp only: networkManagerConnectionProfileName_def firstConnectionSetting_same [OF assms])
  show ?thesis
    by (simp only: parseActivationSettings_def profile flatten_same [OF assms(1)]
        permission_username_same [OF assms(1)])
qed

theorem parse_order_free_witness:
  "parseActivationSettings
     [(''connection'', [(''uuid'', VString ''u1''), (''id'', VString ''home'')]),
      (''vpn'', [(''data'', VMapString [(''auth'', ''sso''), (''hostname'', ''h'')])])]
   = parseActivationSettings
     [(''vpn'', [(''data'', VMapString [(''hostname'', ''h''), (''auth'', ''sso'')])]),
      (''connection'', [(''id'', VString ''home''), (''uuid'', VString ''u1'')])]"
proof (rule parse_order_free)
  show "same_settings
     [(''connection'', [(''uuid'', VString ''u1''), (''id'', VString ''home'')]),
      (''vpn'', [(''data'', VMapString [(''auth'', ''sso''), (''hostname'', ''h'')])])]
     [(''vpn'', [(''data'', VMapString [(''hostname'', ''h''), (''auth'', ''sso'')])]),
      (''connection'', [(''id'', VString ''home''), (''uuid'', VString ''u1'')])]"
    by (auto simp: same_settings_def same_section_def same_value_def same_map_def)
  show "one_connection
     [(''connection'', [(''uuid'', VString ''u1''), (''id'', VString ''home'')]),
      (''vpn'', [(''data'', VMapString [(''auth'', ''sso''), (''hostname'', ''h'')])])]"
    by code_simp
qed

text \<open>
  the profile name derived from a connection is empty or \<open>nm-\<close> followed by a non-empty
  component made only of ASCII letters, digits, dash, underscore and dot that neither starts
  nor ends with one of the three separators, whatever the UUID or name of the connection
  holds. A path separator or a white-space character never reaches the daemon.
\<close>

theorem profile_name_safe:
  "networkManagerConnectionProfileName s = [] \<or>
   (\<exists>c. networkManagerConnectionProfileName s = ''nm-'' @ c \<and> c \<noteq> []
      \<and> set c \<subseteq> {r. profile_char r} \<and> hd c \<notin> set ''-_.'' \<and> last c \<notin> set ''-_.'')"
proof -
  have safe: "set c \<subseteq> {r. profile_char r} \<and> hd c \<notin> set ''-_.'' \<and> last c \<notin> set ''-_.''"
    if "c = sanitizeProfileNameComponent v" "c \<noteq> []" for c v
  proof -
    have "set c \<subseteq> {r. profile_char r}" using that(1) sanitize_chars by auto
    moreover have "c = trim_set ''-_.'' (sanitize_loop [] False (trim_space v))"
      using that(1) by (simp add: sanitizeProfileNameComponent_def)
    ultimately show ?thesis using trim_set_ends [of "''-_.''"] that(2) by blast
  qed
  show ?thesis
    unfolding networkManagerConnectionProfileName_def Let_def
    using safe by simp
qed

text \<open>
  an auth mode is accepted exactly when, without surrounding white space, in lower case
  and with dashes for underscores, it is one of the ten known words. The empty word and the
  legacy words are accepted as sso; every other word is refused.
\<close>

theorem auth_mode_accepted:
  "isAuthModeValid (s\<lparr>s_AuthMode := normalizeAuthMode v\<rparr>) \<longleftrightarrow>
     replace_char (CHR ''_'') (CHR ''-'') (to_lower (trim_space v)) \<in> set (setup_key_modes @ sso_modes)"
  by (auto simp: isAuthModeValid_def normalizeAuthMode_def Let_def setup_key_modes_def sso_modes_def)

text \<open>
  the details of an interactive activation may add authentication data but not redirect
  the connection: the profile, the URLs, the host name, the interface and the pre-shared key
  are those of the stored connection, and a setup key is missing afterwards exactly when both
  the connection and the details lack one.
\<close>

theorem mergeDetails_frame:
  "s_Profile (mergeDetails s details) = s_Profile s
   \<and> s_ManagementURL (mergeDetails s details) = s_ManagementURL s
   \<and> s_AdminURL (mergeDetails s details) = s_AdminURL s
   \<and> s_Hostname (mergeDetails s details) = s_Hostname s
   \<and> s_InterfaceName (mergeDetails s details) = s_InterfaceName s
   \<and> s_PreSharedKey (mergeDetails s details) = s_PreSharedKey s
   \<and> (s_SetupKey (mergeDetails s details) = [] \<longleftrightarrow>
        s_SetupKey s = []
        \<and> firstSetting (normalizeStringMap (variantMapToStrings details)) setup_key_keys = [])"
proof -
  have "normalizeStringMap (variantMapToStrings []) = Map.empty"
    by (simp add: normalizeStringMap_def mergeNormalizedStringMap_def sorted_entries_def)
  then have "firstSetting (normalizeStringMap (variantMapToStrings [])) setup_key_keys = []"
    by (simp add: setup_key_keys_def get_str_def Let_def)
  then show ?thesis
    by (auto simp: mergeDetails_def Let_def mergeStringDetail_def)
qed

text \<open>
  what the daemon is asked to log in with: a setup key only under setup-key authentication,
  never a blank management or admin URL, and the same profile, URLs, interface and pre-shared
  key that the profile update carries.
\<close>

theorem login_request_contents:
  "login_SetupKey (daemonLoginRequest os s) = (if s_AuthMode s = ''setup-key'' then s_SetupKey s else [])
   \<and> trim_space (login_ManagementURL (daemonLoginRequest os s)) \<noteq> []
   \<and> trim_space (login_AdminURL (daemonLoginRequest os s)) \<noteq> []
   \<and> daemonUpdateProfileRequest s =
       \<lparr>update_Profile = login_Profile (daemonLoginRequest os s),
        update_ManagementURL = login_ManagementURL (daemonLoginRequest os s),
        update_AdminURL = login_AdminURL (daemonLoginRequest os s),
        update_InterfaceName = login_InterfaceName (daemonLoginRequest os s),
        update_PreSharedKey = login_PreSharedKey (daemonLoginRequest os s)\<rparr>"
proof -
  have "trim_space defaultManagementURL = defaultManagementURL"
    "trim_space defaultAdminURL = defaultAdminURL"
    by code_simp+
  then show ?thesis
    by (simp add: daemonLoginRequest_def daemonUpdateProfileRequest_def Let_def
        resolvedManagementURL_def resolvedAdminURL_def defaultManagementURL_def defaultAdminURL_def)
qed

end
