(* ===== verification/Lifecycle.thy ===== *)
theory Lifecycle
  imports Settings
begin

text \<open>
  The lifecycle of the service (\<open>internal/nmplugin/service.go\<close>, \<open>prompts.go\<close>): the state behind
  \<open>lifecycleMu\<close> and \<open>mu\<close>, and every region of the code that holds a lock, as one function from state
  to state. The goroutines of the program interleave exactly at these regions, so the step relation
  \<open>svc_step\<close>, in which any goroutine takes any of its regions next, covers every interleaving. The
  invariant holds in all of them.
\<close>

section \<open>Definitions\<close>

subsection \<open>State\<close>

text \<open>
  A context created with \<open>context.WithCancel\<close> is its number; \<open>cancelled\<close> holds the numbers of the
  cancelled ones. A prompt's result channel is a number too; its buffer of one value is
  \<open>delivered\<close>. \<open>next_ref\<close> is the next unused number. A connected daemon client is a handle of type
  \<open>'h\<close>. \<open>monitors\<close> lists the monitor goroutines started (context, client, session), newest first.
  \<open>outside\<close> is the state of everything that is not the service.
\<close>

datatype prompt_kind = PromptSetupKey | PromptSSO

record activationPrompt =
  prompt_activationID :: "64 word"
  prompt_kind :: prompt_kind
  prompt_result :: "nat option"

record ('h, 'd) service =
  svc_state :: service_state
  activating :: bool
  activationCancel :: "nat option"
  monitorCancel :: "nat option"
  svc_client :: "'h option"
  activeProfile :: profile_ref
  sessionID :: "64 word"
  activationID :: "64 word"
  svc_prompt :: "activationPrompt option"
  next_ref :: nat
  cancelled :: "nat set"
  delivered :: "nat \<rightharpoonup> activationSettings"
  monitors :: "(nat \<times> 'h \<times> 64 word) list"
  outside :: 'd

definition NewService :: "'d \<Rightarrow> ('h, 'd) service" where
  "NewService d =
     \<lparr>svc_state = ServiceStateInit, activating = False, activationCancel = None,
      monitorCancel = None, svc_client = None, activeProfile = no_profile_ref,
      sessionID = 0, activationID = 0, svc_prompt = None,
      next_ref = 0, cancelled = {}, delivered = Map.empty, monitors = [], outside = d\<rparr>"

definition cancel_ctx :: "nat \<Rightarrow> ('h, 'd) service \<Rightarrow> ('h, 'd) service" where
  "cancel_ctx c s = s\<lparr>cancelled := insert c (cancelled s)\<rparr>"

definition cancel_if :: "nat option \<Rightarrow> ('h, 'd) service \<Rightarrow> ('h, 'd) service" where
  "cancel_if c s = (case c of None \<Rightarrow> s | Some c \<Rightarrow> cancel_ctx c s)"

subsection \<open>The state of the service\<close>

definition setStateValue :: "service_state \<Rightarrow> ('h, 'd) service \<Rightarrow> bool \<times> ('h, 'd) service" where
  "setStateValue st s =
     (if svc_state s = st then (False, s) else (True, s\<lparr>svc_state := st\<rparr>))"

subsection \<open>Activations\<close>

record activationAttempt =
  attempt_ctx :: nat
  attempt_id :: "64 word"
  attempt_connection :: connection_settings
  attempt_details :: variant_map
  attempt_interactive :: bool

definition reserveActivation ::
  "('h, 'd) service \<Rightarrow> (dbus_error + nat \<times> 64 word) \<times> ('h, 'd) service" where
  "reserveActivation s =
     (if activating s \<or> svc_client s \<noteq> None
      then (Inl (newDBusError dbusErrorVPNAlreadyActive
                   ''a NetBird activation is already in progress or active''), s)
      else
        (let ctx = next_ref s; idn = activationID s + 1
         in (Inr (ctx, idn),
             s\<lparr>next_ref := ctx + 1, activationID := idn, activating := True,
               activationCancel := Some ctx, svc_prompt := None\<rparr>)))"

definition finishFailedActivation :: "('h, 'd) service \<Rightarrow> ('h, 'd) service" where
  "finishFailedActivation s = s\<lparr>activating := False, activationCancel := None, svc_prompt := None\<rparr>"

definition startMonitorLocked :: "'h \<Rightarrow> 64 word \<Rightarrow> ('h, 'd) service \<Rightarrow> ('h, 'd) service" where
  "startMonitorLocked h sid s0 =
     (let s = cancel_if (monitorCancel s0) s0; ctx = next_ref s
      in s\<lparr>next_ref := ctx + 1, monitorCancel := Some ctx,
           monitors := (ctx, h, sid) # monitors s\<rparr>)"

definition completeActivation ::
  "nat \<Rightarrow> 'h \<Rightarrow> profile_ref \<Rightarrow> ('h, 'd) service \<Rightarrow> 64 word option \<times> ('h, 'd) service" where
  "completeActivation ctx h prof s =
     (if ctx \<in> cancelled s \<or> \<not> activating s then (None, s)
      else
        (let sid = sessionID s + 1
         in (Some sid,
             startMonitorLocked h sid
               (s\<lparr>activating := False, activationCancel := None, svc_prompt := None,
                  svc_client := Some h, activeProfile := prof, sessionID := sid\<rparr>))))"

subsection \<open>Prompts\<close>

definition new_channel :: "('h, 'd) service \<Rightarrow> nat \<times> ('h, 'd) service" where
  "new_channel s = (next_ref s, s\<lparr>next_ref := next_ref s + 1\<rparr>)"

definition registerActivationPrompt ::
  "activationPrompt \<Rightarrow> ('h, 'd) service \<Rightarrow> bool \<times> ('h, 'd) service" where
  "registerActivationPrompt p s =
     (if \<not> activating s \<or> prompt_activationID p \<noteq> activationID s then (False, s)
      else (True, s\<lparr>svc_prompt := Some p\<rparr>))"

definition clearPromptForActivation :: "64 word \<Rightarrow> ('h, 'd) service \<Rightarrow> ('h, 'd) service" where
  "clearPromptForActivation idn s =
     (case svc_prompt s of
        Some p \<Rightarrow> if prompt_activationID p = idn then s\<lparr>svc_prompt := None\<rparr> else s
      | None \<Rightarrow> s)"

definition formatActivationID :: "64 word \<Rightarrow> string" where
  "formatActivationID idn = format_uint idn"

text \<open>The send on the result channel never blocks: a full buffer, or a nil channel, drops the value.\<close>

definition send_result ::
  "nat option \<Rightarrow> activationSettings \<Rightarrow> ('h, 'd) service \<Rightarrow> ('h, 'd) service" where
  "send_result ch x s =
     (case ch of
        None \<Rightarrow> s
      | Some c \<Rightarrow> if delivered s c = None then s\<lparr>delivered := (delivered s)(c \<mapsto> x)\<rparr> else s)"

definition handleNewSecretsLocked ::
  "activationPrompt \<Rightarrow> activationSettings \<Rightarrow> ('h, 'd) service \<Rightarrow> ('h, 'd) service" where
  "handleNewSecretsLocked p settings s =
     (case prompt_kind p of
        PromptSetupKey \<Rightarrow> send_result (prompt_result p) settings (s\<lparr>svc_prompt := None\<rparr>)
      | PromptSSO \<Rightarrow>
          if \<not> s_SSOContinue settings \<and> \<not> s_SSOCancel settings then s
          else
            (let s1 = s\<lparr>svc_prompt := None\<rparr>
             in if s_SSOCancel settings then cancel_if (activationCancel s1) s1 else s1))"

definition NewSecrets :: "connection_settings \<Rightarrow> ('h, 'd) service \<Rightarrow> ('h, 'd) service" where
  "NewSecrets connection s =
     (let settings = parseActivationSettings connection
      in case svc_prompt s of
           None \<Rightarrow> s
         | Some p \<Rightarrow>
             if s_PromptActivationID settings = [] then handleNewSecretsLocked p settings s
             else if s_PromptActivationID settings \<noteq> formatActivationID (prompt_activationID p) then s
             else handleNewSecretsLocked p settings s)"

subsection \<open>Sessions\<close>

text \<open>The locked regions of \<open>Disconnect\<close> and \<open>SetFailure\<close>; the first returns the client it took.\<close>

definition disconnectLocked :: "('h, 'd) service \<Rightarrow> 'h option \<times> ('h, 'd) service" where
  "disconnectLocked s0 =
     (let s1 = cancel_if (activationCancel s0) s0;
          s2 = (cancel_if (monitorCancel s1) s1)\<lparr>monitorCancel := None\<rparr>
      in (svc_client s2,
          s2\<lparr>svc_client := None, activeProfile := no_profile_ref, svc_prompt := None,
             sessionID := sessionID s2 + 1, activationID := activationID s2 + 1\<rparr>))"

definition setFailureLocked :: "('h, 'd) service \<Rightarrow> ('h, 'd) service" where
  "setFailureLocked s = (cancel_if (activationCancel s) s)\<lparr>svc_prompt := None\<rparr>"

definition setStateForActiveSessionLocked ::
  "64 word \<Rightarrow> service_state \<Rightarrow> ('h, 'd) service \<Rightarrow> bool option \<times> ('h, 'd) service" where
  "setStateForActiveSessionLocked sid st s =
     (if sessionID s \<noteq> sid \<or> svc_client s = None then (None, s)
      else (case setStateValue st s of (changed, s') \<Rightarrow> (Some changed, s')))"

definition clearActiveSessionLocked ::
  "64 word \<Rightarrow> ('h, 'd) service \<Rightarrow> 'h option \<times> ('h, 'd) service" where
  "clearActiveSessionLocked sid s =
     (if sessionID s = sid
      then
        (let s1 = (cancel_if (monitorCancel s) s)\<lparr>monitorCancel := None\<rparr>
         in (svc_client s1, s1\<lparr>svc_client := None, activeProfile := no_profile_ref\<rparr>))
      else (None, s))"

text \<open>
  The locked region of \<open>failActiveSessionAfterStatusThreshold\<close>: nothing for a session that is not
  the active one, else the monitor's cancel function, the client and whether the state changed.
\<close>

definition failActiveSessionLocked ::
  "64 word \<Rightarrow> ('h, 'd) service \<Rightarrow> (nat option \<times> 'h option \<times> bool) option \<times> ('h, 'd) service" where
  "failActiveSessionLocked sid s =
     (if sessionID s \<noteq> sid \<or> svc_client s = None then (None, s)
      else
        (case setStateValue ServiceStateStopped
                (s\<lparr>monitorCancel := None, svc_client := None, activeProfile := no_profile_ref\<rparr>) of
           (changed, s') \<Rightarrow> (Some (monitorCancel s, svc_client s, changed), s')))"

subsection \<open>Interleavings\<close>

text \<open>
  The service together with its goroutines, as far as their regions depend on what they hold:
  \<open>running\<close>, the activation goroutines that have not left the slot yet, each with its context and
  identifier; \<open>contexts\<close>, every activation context ever created (its owner may cancel it at any
  time); \<open>late_cancels\<close>, the monitor contexts that a goroutine has taken out of the service and will
  cancel after it released the lock.
\<close>

record ('h, 'd) system =
  sys_svc :: "('h, 'd) service"
  running :: "(nat \<times> 64 word) list"
  contexts :: "nat set"
  late_cancels :: "nat set"

definition sys_init :: "('h, 'd) system \<Rightarrow> bool" where
  "sys_init m \<longleftrightarrow>
     (\<exists>d. m = \<lparr>sys_svc = NewService d, running = [], contexts = {}, late_cancels = {}\<rparr>)"

inductive svc_step :: "('h, 'd) system \<Rightarrow> ('h, 'd) system \<Rightarrow> bool" where
  step_reserve: "reserveActivation (sys_svc m) = (Inr (c, i), s) \<Longrightarrow>
    svc_step m (m\<lparr>sys_svc := s, running := (c, i) # running m, contexts := insert c (contexts m)\<rparr>)"
| step_complete: "(c, i) \<in> set (running m) \<Longrightarrow>
    completeActivation c h prof (sys_svc m) = (Some sid, s) \<Longrightarrow>
    svc_step m (m\<lparr>sys_svc := s, running := remove1 (c, i) (running m)\<rparr>)"
| step_finish: "(c, i) \<in> set (running m) \<Longrightarrow>
    svc_step m (m\<lparr>sys_svc := finishFailedActivation (sys_svc m), running := remove1 (c, i) (running m)\<rparr>)"
| step_cancel: "c \<in> contexts m \<Longrightarrow> svc_step m (m\<lparr>sys_svc := cancel_ctx c (sys_svc m)\<rparr>)"
| step_channel: "new_channel (sys_svc m) = (ch, s) \<Longrightarrow> svc_step m (m\<lparr>sys_svc := s\<rparr>)"
| step_prompt: "(c, i) \<in> set (running m) \<Longrightarrow> prompt_activationID p = i \<Longrightarrow>
    svc_step m (m\<lparr>sys_svc := snd (registerActivationPrompt p (sys_svc m))\<rparr>)"
| step_receive: "svc_step m (m\<lparr>sys_svc := sys_svc m\<lparr>delivered := (delivered (sys_svc m))(ch := None)\<rparr>\<rparr>)"
| step_clear_prompt: "svc_step m (m\<lparr>sys_svc := clearPromptForActivation i (sys_svc m)\<rparr>)"
| step_secrets: "svc_step m (m\<lparr>sys_svc := NewSecrets connection (sys_svc m)\<rparr>)"
| step_disconnect: "svc_step m (m\<lparr>sys_svc := snd (disconnectLocked (sys_svc m))\<rparr>)"
| step_set_failure: "svc_step m (m\<lparr>sys_svc := setFailureLocked (sys_svc m)\<rparr>)"
| step_state: "svc_step m (m\<lparr>sys_svc := snd (setStateValue st (sys_svc m))\<rparr>)"
| step_session_state: "svc_step m (m\<lparr>sys_svc := snd (setStateForActiveSessionLocked sid st (sys_svc m))\<rparr>)"
| step_clear_session: "svc_step m (m\<lparr>sys_svc := snd (clearActiveSessionLocked sid (sys_svc m))\<rparr>)"
| step_threshold: "failActiveSessionLocked sid (sys_svc m) = (Some (mc, h, changed), s) \<Longrightarrow>
    svc_step m (m\<lparr>sys_svc := s, late_cancels := set_option mc \<union> late_cancels m\<rparr>)"
| step_late_cancel: "c \<in> late_cancels m \<Longrightarrow> svc_step m (m\<lparr>sys_svc := cancel_ctx c (sys_svc m)\<rparr>)"
| step_outside: "svc_step m (m\<lparr>sys_svc := sys_svc m\<lparr>outside := d\<rparr>\<rparr>)"

inductive_cases svc_stepE: "svc_step m m'"

abbreviation reachable :: "('h, 'd) system \<Rightarrow> bool" where
  "reachable \<equiv> reach sys_init svc_step"

section \<open>The invariant\<close>

definition slot_inv :: "('h, 'd) system \<Rightarrow> bool" where
  "slot_inv m \<longleftrightarrow>
     (if activating (sys_svc m)
      then svc_client (sys_svc m) = None \<and>
           (\<exists>c i. running m = [(c, i)] \<and> activationCancel (sys_svc m) = Some c \<and> c \<in> contexts m)
      else running m = [] \<and> activationCancel (sys_svc m) = None)"

definition session_inv :: "('h, 'd) system \<Rightarrow> bool" where
  "session_inv m \<longleftrightarrow>
     (monitorCancel (sys_svc m) = None \<longrightarrow> svc_client (sys_svc m) = None) \<and>
     (\<forall>c. monitorCancel (sys_svc m) = Some c \<longrightarrow>
          (\<exists>h. svc_client (sys_svc m) = Some h \<and>
               (c, h, sessionID (sys_svc m)) \<in> set (monitors (sys_svc m))) \<and>
          c \<notin> cancelled (sys_svc m) \<and> c \<notin> contexts m \<and> c \<notin> late_cancels m)"

definition prompt_inv :: "('h, 'd) system \<Rightarrow> bool" where
  "prompt_inv m \<longleftrightarrow>
     (\<forall>p. svc_prompt (sys_svc m) = Some p \<longrightarrow>
          activating (sys_svc m) \<and> prompt_activationID p = activationID (sys_svc m) \<and>
          (\<exists>c. running m = [(c, prompt_activationID p)]))"

definition fresh_inv :: "('h, 'd) system \<Rightarrow> bool" where
  "fresh_inv m \<longleftrightarrow>
     (\<forall>c \<in> cancelled (sys_svc m) \<union> contexts m \<union> late_cancels m \<union> fst ` set (monitors (sys_svc m)).
        c < next_ref (sys_svc m))"

definition sys_inv :: "('h, 'd) system \<Rightarrow> bool" where
  "sys_inv m \<longleftrightarrow> slot_inv m \<and> session_inv m \<and> prompt_inv m \<and> fresh_inv m"

lemmas inv_defs = sys_inv_def slot_inv_def session_inv_def prompt_inv_def fresh_inv_def

lemmas region_defs =
  cancel_ctx_def cancel_if_def setStateValue_def reserveActivation_def finishFailedActivation_def
  startMonitorLocked_def completeActivation_def new_channel_def registerActivationPrompt_def
  clearPromptForActivation_def disconnectLocked_def setFailureLocked_def
  setStateForActiveSessionLocked_def clearActiveSessionLocked_def failActiveSessionLocked_def

lemma sys_inv_init: "sys_init m \<Longrightarrow> sys_inv m"
  by (auto simp: sys_init_def NewService_def inv_defs)

lemma monitor_fresh:
  "sys_inv m \<Longrightarrow> monitorCancel (sys_svc m) = Some c \<Longrightarrow> c < next_ref (sys_svc m)"
  by (force simp: inv_defs)

lemma inv_cancel:
  "sys_inv m \<Longrightarrow> c \<in> contexts m \<or> c \<in> late_cancels m \<Longrightarrow>
     sys_inv (m\<lparr>sys_svc := cancel_ctx c (sys_svc m)\<rparr>)"
  by (auto simp: inv_defs cancel_ctx_def)

lemma inv_no_prompt: "sys_inv m \<Longrightarrow> sys_inv (m\<lparr>sys_svc := (sys_svc m)\<lparr>svc_prompt := None\<rparr>\<rparr>)"
  by (auto simp: inv_defs)

lemma inv_frame:
  "sys_inv m \<Longrightarrow> sys_inv (m\<lparr>sys_svc := (sys_svc m)\<lparr>delivered := x\<rparr>\<rparr>)"
  "sys_inv m \<Longrightarrow> sys_inv (m\<lparr>sys_svc := (sys_svc m)\<lparr>outside := d\<rparr>\<rparr>)"
  "sys_inv m \<Longrightarrow> sys_inv (m\<lparr>sys_svc := (sys_svc m)\<lparr>svc_state := st\<rparr>\<rparr>)"
  by (auto simp: inv_defs)

lemma inv_state: "sys_inv m \<Longrightarrow> sys_inv (m\<lparr>sys_svc := snd (setStateValue st (sys_svc m))\<rparr>)"
  by (simp add: setStateValue_def inv_frame)

lemma inv_activation_cancel:
  "sys_inv m \<Longrightarrow> activationCancel (sys_svc m) = Some c \<Longrightarrow> c \<in> contexts m"
  by (auto simp: inv_defs split: if_splits)

lemma inv_cancel_activation:
  "sys_inv m \<Longrightarrow> sys_inv (m\<lparr>sys_svc := cancel_if (activationCancel (sys_svc m)) (sys_svc m)\<rparr>)"
  using inv_cancel inv_activation_cancel
  by (auto simp: cancel_if_def split: option.split)

lemma inv_set_failure: "sys_inv m \<Longrightarrow> sys_inv (m\<lparr>sys_svc := setFailureLocked (sys_svc m)\<rparr>)"
  using inv_no_prompt [OF inv_cancel_activation] by (simp add: setFailureLocked_def)

lemma no_client_no_monitor:
  "sys_inv m \<Longrightarrow> svc_client (sys_svc m) = None \<Longrightarrow> monitorCancel (sys_svc m) = None"
  by (cases "monitorCancel (sys_svc m)") (simp_all add: sys_inv_def session_inv_def)

lemma inv_reserve:
  assumes "sys_inv m" "reserveActivation (sys_svc m) = (Inr (c, i), s)"
  shows "sys_inv (m\<lparr>sys_svc := s, running := (c, i) # running m, contexts := insert c (contexts m)\<rparr>)"
proof -
  have "\<not> activating (sys_svc m)" "svc_client (sys_svc m) = None"
    and s: "c = next_ref (sys_svc m)" "s = (sys_svc m)\<lparr>next_ref := c + 1, activationID := i,
      activating := True, activationCancel := Some c, svc_prompt := None\<rparr>"
    using assms(2) by (auto simp: reserveActivation_def Let_def split: if_splits)
  moreover from this have "monitorCancel (sys_svc m) = None"
    using assms(1) no_client_no_monitor by blast
  ultimately show ?thesis
    using assms(1) by (auto simp: inv_defs less_Suc_eq)
qed

lemma inv_complete:
  assumes "sys_inv m" "(c, i) \<in> set (running m)"
    and "completeActivation c h prof (sys_svc m) = (Some sid, s)"
  shows "sys_inv (m\<lparr>sys_svc := s, running := remove1 (c, i) (running m)\<rparr>)"
proof -
  have act: "activating (sys_svc m)"
    using assms(3) by (auto simp: completeActivation_def split: if_splits)
  then have "svc_client (sys_svc m) = None"
    using assms(1) by (simp add: inv_defs)
  then have mon: "monitorCancel (sys_svc m) = None"
    using assms(1) no_client_no_monitor by blast
  then have s: "s = (sys_svc m)\<lparr>activating := False, activationCancel := None, svc_prompt := None,
      svc_client := Some h, activeProfile := prof, sessionID := sid,
      next_ref := next_ref (sys_svc m) + 1, monitorCancel := Some (next_ref (sys_svc m)),
      monitors := (next_ref (sys_svc m), h, sid) # monitors (sys_svc m)\<rparr>"
    using assms(3)
    by (auto simp: completeActivation_def startMonitorLocked_def cancel_if_def Let_def split: if_splits)
  have "remove1 (c, i) (running m) = []"
    using assms(1,2) act by (auto simp: inv_defs)
  moreover have "fresh_inv m"
    using assms(1) by (simp add: sys_inv_def)
  then have "next_ref (sys_svc m) \<notin> cancelled (sys_svc m)" "next_ref (sys_svc m) \<notin> contexts m"
    "next_ref (sys_svc m) \<notin> late_cancels m"
    by (auto simp: fresh_inv_def)
  ultimately show ?thesis
    using assms(1) act by (auto simp: s inv_defs less_Suc_eq)
qed

lemma inv_finish:
  assumes "sys_inv m" "(c, i) \<in> set (running m)"
  shows "sys_inv (m\<lparr>sys_svc := finishFailedActivation (sys_svc m), running := remove1 (c, i) (running m)\<rparr>)"
proof -
  have "activating (sys_svc m)" "remove1 (c, i) (running m) = []"
    using assms by (auto simp: inv_defs split: if_splits)
  moreover from this have "monitorCancel (sys_svc m) = None"
    using assms(1) no_client_no_monitor by (auto simp: inv_defs)
  ultimately show ?thesis
    using assms by (auto simp: inv_defs finishFailedActivation_def)
qed

lemma inv_prompt:
  assumes "sys_inv m" "(c, i) \<in> set (running m)" "prompt_activationID p = i"
  shows "sys_inv (m\<lparr>sys_svc := snd (registerActivationPrompt p (sys_svc m))\<rparr>)"
  using assms by (auto simp: inv_defs registerActivationPrompt_def)

lemma inv_channel: "sys_inv m \<Longrightarrow> sys_inv (m\<lparr>sys_svc := snd (new_channel (sys_svc m))\<rparr>)"
  by (auto simp: inv_defs new_channel_def less_Suc_eq)

lemma inv_clear_prompt: "sys_inv m \<Longrightarrow> sys_inv (m\<lparr>sys_svc := clearPromptForActivation i (sys_svc m)\<rparr>)"
  using inv_no_prompt by (auto simp: clearPromptForActivation_def split: option.split)

lemma inv_no_session:
  assumes "sys_inv m"
    and "late = late_cancels m \<or> late = set_option (monitorCancel (sys_svc m)) \<union> late_cancels m"
  shows "sys_inv (m\<lparr>sys_svc := (sys_svc m)\<lparr>monitorCancel := None, svc_client := None,
      activeProfile := no_profile_ref\<rparr>, late_cancels := late\<rparr>)"
proof -
  have "\<forall>c \<in> late. c < next_ref (sys_svc m)"
    using assms monitor_fresh [OF assms(1)] by (auto simp: inv_defs)
  then show ?thesis
    using assms(1) by (auto simp: inv_defs)
qed

lemma inv_cancelled:
  assumes "sys_inv m" "monitorCancel (sys_svc m) = None" "c < next_ref (sys_svc m)"
  shows "sys_inv (m\<lparr>sys_svc := cancel_ctx c (sys_svc m)\<rparr>)"
  using assms by (auto simp: inv_defs cancel_ctx_def)

lemma inv_drop_monitor:
  assumes "sys_inv m"
  shows "sys_inv (m\<lparr>sys_svc := (cancel_if (monitorCancel (sys_svc m)) (sys_svc m))\<lparr>monitorCancel := None,
      svc_client := None, activeProfile := no_profile_ref\<rparr>\<rparr>)"
proof (cases "monitorCancel (sys_svc m)")
  case None
  then show ?thesis
    using inv_no_session [OF assms, of "late_cancels m"] by (simp add: cancel_if_def)
next
  case (Some c)
  have "(cancel_ctx c (sys_svc m))\<lparr>monitorCancel := None, svc_client := None, activeProfile := no_profile_ref\<rparr> =
    cancel_ctx c ((sys_svc m)\<lparr>monitorCancel := None, svc_client := None, activeProfile := no_profile_ref\<rparr>)"
    by (simp add: cancel_ctx_def)
  then show ?thesis
    using inv_cancelled [OF inv_no_session [OF assms, of "late_cancels m"], of c] monitor_fresh [OF assms Some]
    by (simp add: cancel_if_def Some)
qed

lemma inv_new_ids:
  "sys_inv m \<Longrightarrow> svc_prompt (sys_svc m) = None \<Longrightarrow> monitorCancel (sys_svc m) = None \<Longrightarrow>
     sys_inv (m\<lparr>sys_svc := (sys_svc m)\<lparr>sessionID := x, activationID := y\<rparr>\<rparr>)"
  by (auto simp: inv_defs)

lemma NewSecrets_effects:
  "NewSecrets connection s \<in>
     {s, s\<lparr>svc_prompt := None\<rparr>, cancel_if (activationCancel s) (s\<lparr>svc_prompt := None\<rparr>)} \<or>
   (\<exists>ch x. NewSecrets connection s = send_result ch x (s\<lparr>svc_prompt := None\<rparr>))"
proof (cases "svc_prompt s")
  case None
  then show ?thesis
    by (simp add: NewSecrets_def Let_def)
next
  case (Some p)
  have "handleNewSecretsLocked p x s \<in>
     {s, s\<lparr>svc_prompt := None\<rparr>, cancel_if (activationCancel s) (s\<lparr>svc_prompt := None\<rparr>)} \<or>
   (\<exists>ch y. handleNewSecretsLocked p x s = send_result ch y (s\<lparr>svc_prompt := None\<rparr>))" for x
    by (cases "prompt_kind p") (auto simp: handleNewSecretsLocked_def Let_def)
  then show ?thesis
    by (simp add: NewSecrets_def Let_def Some)
qed

lemma inv_secrets: "sys_inv m \<Longrightarrow> sys_inv (m\<lparr>sys_svc := NewSecrets connection (sys_svc m)\<rparr>)"
proof -
  assume inv: "sys_inv m"
  have "sys_inv (m\<lparr>sys_svc := send_result ch x ((sys_svc m)\<lparr>svc_prompt := None\<rparr>)\<rparr>)" for ch x
    using inv_no_prompt [OF inv] inv_frame(1) [OF inv_no_prompt [OF inv]]
    by (auto simp: send_result_def split: option.split)
  moreover have "sys_inv (m\<lparr>sys_svc := cancel_if (activationCancel (sys_svc m)) ((sys_svc m)\<lparr>svc_prompt := None\<rparr>)\<rparr>)"
    using inv_cancel_activation [OF inv_no_prompt [OF inv]] by simp
  ultimately show ?thesis
    using NewSecrets_effects [of connection "sys_svc m"] inv inv_no_prompt [OF inv] by auto
qed

lemma inv_disconnect:
  assumes "sys_inv m"
  shows "sys_inv (m\<lparr>sys_svc := snd (disconnectLocked (sys_svc m))\<rparr>)"
proof -
  let ?m = "m\<lparr>sys_svc := cancel_if (activationCancel (sys_svc m)) (sys_svc m)\<rparr>"
  have "sys_inv ?m"
    by (rule inv_cancel_activation [OF assms])
  from inv_new_ids [OF inv_no_prompt [OF inv_drop_monitor [OF this]]] show ?thesis
    by (simp add: disconnectLocked_def Let_def)
qed

lemma inv_session_state:
  "sys_inv m \<Longrightarrow> sys_inv (m\<lparr>sys_svc := snd (setStateForActiveSessionLocked sid st (sys_svc m))\<rparr>)"
  using inv_state [of m st] by (auto simp: setStateForActiveSessionLocked_def split: prod.split)

lemma inv_clear_session:
  "sys_inv m \<Longrightarrow> sys_inv (m\<lparr>sys_svc := snd (clearActiveSessionLocked sid (sys_svc m))\<rparr>)"
  using inv_drop_monitor [of m] by (simp add: clearActiveSessionLocked_def Let_def)

lemma inv_threshold:
  assumes "sys_inv m" "failActiveSessionLocked sid (sys_svc m) = (Some (mc, h, changed), s)"
  shows "sys_inv (m\<lparr>sys_svc := s, late_cancels := set_option mc \<union> late_cancels m\<rparr>)"
proof -
  let ?m = "m\<lparr>sys_svc := (sys_svc m)\<lparr>monitorCancel := None, svc_client := None,
      activeProfile := no_profile_ref\<rparr>, late_cancels := set_option mc \<union> late_cancels m\<rparr>"
  have "mc = monitorCancel (sys_svc m)" and s: "s = snd (setStateValue ServiceStateStopped (sys_svc ?m))"
    using assms(2) by (auto simp: failActiveSessionLocked_def split: if_splits prod.splits)
  then have "sys_inv ?m"
    by (intro inv_no_session [OF assms(1)]) simp
  from inv_state [OF this, of ServiceStateStopped] have "sys_inv (?m\<lparr>sys_svc := s\<rparr>)"
    by (simp only: s)
  moreover have "m\<lparr>sys_svc := s, late_cancels := set_option mc \<union> late_cancels m\<rparr> = ?m\<lparr>sys_svc := s\<rparr>"
    by simp
  ultimately show ?thesis
    by (simp only:)
qed

lemma sys_inv_step: "svc_step m m' \<Longrightarrow> sys_inv m \<Longrightarrow> sys_inv m'"
proof (induction rule: svc_step.induct)
  case (step_channel m ch s)
  then show ?case
    using inv_channel [of m] by simp
qed (simp_all add: inv_reserve inv_complete inv_finish inv_cancel inv_prompt inv_frame inv_clear_prompt
      inv_secrets inv_disconnect inv_set_failure inv_state inv_session_state inv_clear_session
      inv_threshold)

interpretation lifecycle: invariant_of sys_init svc_step sys_inv
  by unfold_locales (auto intro: sys_inv_init sys_inv_step)


section \<open>Lemmas\<close>

lemma formatActivationID_inj [simp]: "formatActivationID i = formatActivationID j \<longleftrightarrow> i = j"
  by (simp add: formatActivationID_def)

lemma formatActivationID_nonempty [simp]: "formatActivationID i \<noteq> []"
  by (simp add: formatActivationID_def format_uint_def)

lemma NewSecrets_cancelled: "cancelled s \<subseteq> cancelled (NewSecrets connection s)"
  using NewSecrets_effects [of connection s]
  by (auto simp: cancel_if_def cancel_ctx_def send_result_def split: option.splits)

lemma step_cancelled_mono: "svc_step m m' \<Longrightarrow> cancelled (sys_svc m) \<subseteq> cancelled (sys_svc m')"
  by (induction rule: svc_step.induct)
    (auto simp: region_defs Let_def NewSecrets_cancelled [THEN subsetD]
      split: if_splits option.splits prod.splits)

lemma steps_cancelled_mono: "svc_step\<^sup>*\<^sup>* m m' \<Longrightarrow> cancelled (sys_svc m) \<subseteq> cancelled (sys_svc m')"
  by (induction rule: rtranclp_induct) (use step_cancelled_mono in blast)+

subsection \<open>A first activation\<close>

definition first_attempt :: "'d \<Rightarrow> ('h, 'd) system" where
  "first_attempt d =
     \<lparr>sys_svc = (NewService d)\<lparr>next_ref := 1, activationID := 1, activating := True,
                  activationCancel := Some 0\<rparr>,
      running = [(0, 1)], contexts = {0}, late_cancels = {}\<rparr>"

lemma first_attempt_reachable:
  fixes d :: 'd
  shows "reachable (first_attempt d :: ('h, 'd) system)"
proof -
  let ?m = "\<lparr>sys_svc = NewService d, running = [], contexts = {}, late_cancels = {}\<rparr> :: ('h, 'd) system"
  have "reachable ?m"
    by (rule reach_start) (auto simp: sys_init_def)
  moreover have "reserveActivation (sys_svc ?m) = (Inr (0, 1), sys_svc (first_attempt d))"
    by (simp add: reserveActivation_def NewService_def first_attempt_def Let_def)
  from step_reserve [OF this] have "svc_step ?m (first_attempt d :: ('h, 'd) system)"
    by (simp add: first_attempt_def)
  ultimately show ?thesis
    by (rule reach_step)
qed

section \<open>Properties\<close>

text \<open>
  C1: one slot. In every interleaving of D-Bus calls, activations and monitors, at most one activation is
  in flight, and none while a session is active; the cancel function kept in the service is the one
  of that activation; a session is active exactly while its monitor's cancel function is kept, and
  that monitor was started for the current session's number with the current client and has not been
  told to stop; and a pending prompt is always the in-flight activation's own.
\<close>

theorem reachable_single_slot:
  assumes "reachable m"
  shows "length (running m) = (if activating (sys_svc m) then 1 else 0) \<and>
    (running m \<noteq> [] \<longrightarrow> svc_client (sys_svc m) = None) \<and>
    activationCancel (sys_svc m) = (if running m = [] then None else Some (fst (hd (running m)))) \<and>
    (svc_client (sys_svc m) = None) = (monitorCancel (sys_svc m) = None) \<and>
    (\<forall>c h. monitorCancel (sys_svc m) = Some c \<and> svc_client (sys_svc m) = Some h \<longrightarrow>
       (c, h, sessionID (sys_svc m)) \<in> set (monitors (sys_svc m)) \<and> c \<notin> cancelled (sys_svc m)) \<and>
    (\<forall>p. svc_prompt (sys_svc m) = Some p \<longrightarrow>
       map snd (running m) = [prompt_activationID p] \<and> prompt_activationID p = activationID (sys_svc m))"
proof -
  have inv: "slot_inv m" "session_inv m" "prompt_inv m"
    using lifecycle.inv_reach [OF assms] by (simp_all add: sys_inv_def)
  have "length (running m) = (if activating (sys_svc m) then 1 else 0) \<and>
    (running m \<noteq> [] \<longrightarrow> svc_client (sys_svc m) = None) \<and>
    activationCancel (sys_svc m) = (if running m = [] then None else Some (fst (hd (running m))))"
    using inv(1) by (auto simp: slot_inv_def split: if_splits)
  moreover have "(svc_client (sys_svc m) = None) = (monitorCancel (sys_svc m) = None) \<and>
    (\<forall>c h. monitorCancel (sys_svc m) = Some c \<and> svc_client (sys_svc m) = Some h \<longrightarrow>
       (c, h, sessionID (sys_svc m)) \<in> set (monitors (sys_svc m)) \<and> c \<notin> cancelled (sys_svc m))"
    using inv(2) by (auto simp: session_inv_def)
  moreover have "\<forall>p. svc_prompt (sys_svc m) = Some p \<longrightarrow>
      map snd (running m) = [prompt_activationID p] \<and> prompt_activationID p = activationID (sys_svc m)"
    using inv(3) by (auto simp: prompt_inv_def)
  ultimately show ?thesis
    by blast
qed

lemma reachable_single_slot_witness:
  "length (running (first_attempt () :: (nat, unit) system)) = 1 \<and>
   svc_client (sys_svc (first_attempt () :: (nat, unit) system)) = None"
  using reachable_single_slot [of "first_attempt () :: (nat, unit) system", OF first_attempt_reachable]
  by (auto simp: first_attempt_def NewService_def)

text \<open>
  an activation can be reserved exactly when nothing is in flight and no session is active, and the
  refusal changes nothing.
\<close>

theorem reserveActivation_iff_idle:
  assumes "reachable m"
  shows "(case reserveActivation (sys_svc m) of
            (Inr (c, i), s) \<Rightarrow> running m = [] \<and> monitorCancel (sys_svc m) = None \<and>
              c \<notin> cancelled s \<and> activating s
          | (Inl e, s) \<Rightarrow> (running m \<noteq> [] \<or> monitorCancel (sys_svc m) \<noteq> None) \<and>
              s = sys_svc m \<and> dbus_name e = dbusErrorVPNAlreadyActive)"
proof -
  have inv: "slot_inv m" "fresh_inv m"
    using lifecycle.inv_reach [OF assms] by (simp_all add: sys_inv_def)
  have "(svc_client (sys_svc m) = None) = (monitorCancel (sys_svc m) = None)"
    using lifecycle.inv_reach [OF assms] by (auto simp: sys_inv_def session_inv_def)
  moreover have "activating (sys_svc m) = (running m \<noteq> [])"
    using inv(1) by (auto simp: slot_inv_def split: if_splits)
  moreover have "next_ref (sys_svc m) \<notin> cancelled (sys_svc m)"
    using inv(2) by (auto simp: fresh_inv_def)
  ultimately show ?thesis
    by (auto simp: reserveActivation_def Let_def newDBusError_def)
qed

lemma reserveActivation_iff_idle_witness:
  "\<exists>e. fst (reserveActivation (sys_svc (first_attempt () :: (nat, unit) system))) = Inl e \<and>
     dbus_name e = dbusErrorVPNAlreadyActive"
proof -
  have "running (first_attempt () :: (nat, unit) system) \<noteq> []"
    by (simp add: first_attempt_def)
  then show ?thesis
    using reserveActivation_iff_idle [of "first_attempt () :: (nat, unit) system", OF first_attempt_reachable]
    by (auto split: prod.splits sum.splits)
qed

text \<open>
  C15: a disconnect is final for the activation in flight. Whatever happens afterwards, in any
  interleaving, that activation cannot become the active session: its completion is refused and
  leaves the service unchanged.
\<close>

theorem disconnect_stops_activation:
  assumes "reachable m" "(c, i) \<in> set (running m)"
    and "svc_step\<^sup>*\<^sup>* (m\<lparr>sys_svc := snd (disconnectLocked (sys_svc m))\<rparr>) m'"
  shows "completeActivation c h prof (sys_svc m') = (None, sys_svc m')"
proof -
  have "activationCancel (sys_svc m) = Some c"
    using lifecycle.inv_reach [OF assms(1)] assms(2) by (auto simp: inv_defs split: if_splits)
  then have "c \<in> cancelled (snd (disconnectLocked (sys_svc m)))"
    by (auto simp: disconnectLocked_def Let_def cancel_if_def cancel_ctx_def split: option.split)
  then have "c \<in> cancelled (sys_svc m')"
    using steps_cancelled_mono [OF assms(3)] by auto
  then show ?thesis
    by (simp add: completeActivation_def)
qed

lemma disconnect_stops_activation_witness:
  "fst (completeActivation 0 (5 :: nat) no_profile_ref
     (snd (disconnectLocked (sys_svc (first_attempt () :: (nat, unit) system))))) = None"
  using disconnect_stops_activation [of "first_attempt () :: (nat, unit) system" 0 1 _ 5 no_profile_ref,
      OF first_attempt_reachable _ rtranclp.rtrancl_refl]
  by (simp add: first_attempt_def)

text \<open>
  a session that was disconnected has no further effect. The regions a monitor or an activation
  runs for the old session's number find another number and change nothing: they neither move the
  state nor drop the client of a later session.
\<close>

theorem disconnected_session_is_stale:
  "case snd (disconnectLocked s) of s' \<Rightarrow>
     svc_client s' = None \<and> set_option (monitorCancel s) \<union> set_option (activationCancel s) \<subseteq> cancelled s' \<and>
     setStateForActiveSessionLocked (sessionID s) st s' = (None, s') \<and>
     clearActiveSessionLocked (sessionID s) s' = (None, s') \<and>
     failActiveSessionLocked (sessionID s) s' = (None, s')"
  by (auto simp: disconnectLocked_def setStateForActiveSessionLocked_def clearActiveSessionLocked_def
      failActiveSessionLocked_def Let_def cancel_if_def cancel_ctx_def split: option.splits)

text \<open>
  C19: an answer that names another activation is ignored. In every reachable state, secrets whose
  prompt identifier is that of an activation other than the latest change nothing: no prompt is consumed, nothing
  is delivered and nothing is cancelled.
\<close>

theorem stale_answer_ignored:
  assumes "reachable m" "i \<noteq> activationID (sys_svc m)"
    and "s_PromptActivationID (parseActivationSettings connection) = formatActivationID i"
  shows "NewSecrets connection (sys_svc m) = sys_svc m"
  using lifecycle.inv_reach [OF assms(1)] assms(2,3)
  by (auto simp: NewSecrets_def Let_def inv_defs split: option.split)

lemma stale_answer_ignored_witness:
  "NewSecrets [(''vpn'', [(netbirdPromptActivationID, VString ''7'')])]
     (sys_svc (first_attempt () :: (nat, unit) system)) = sys_svc (first_attempt ())"
proof (rule stale_answer_ignored [OF first_attempt_reachable])
  show "7 \<noteq> activationID (sys_svc (first_attempt () :: (nat, unit) system))"
    by (simp add: first_attempt_def)
  show "s_PromptActivationID (parseActivationSettings [(''vpn'', [(netbirdPromptActivationID, VString ''7'')])]) =
      formatActivationID 7"
    by code_simp
qed

text \<open>
  a setup-key prompt is answered once. The first answer that names the activation, or none, is
  put into the prompt's channel and ends the prompt; every later one is dropped.
\<close>

theorem setup_key_answered_once:
  assumes "svc_prompt s = Some p" "prompt_kind p = PromptSetupKey" "prompt_result p = Some ch"
    and "delivered s ch = None"
    and "s_PromptActivationID (parseActivationSettings connection) \<in>
           {[], formatActivationID (prompt_activationID p)}"
  shows "delivered (NewSecrets connection s) ch = Some (parseActivationSettings connection) \<and>
    NewSecrets connection' (NewSecrets connection s) = NewSecrets connection s"
  using assms by (auto simp: NewSecrets_def handleNewSecretsLocked_def send_result_def Let_def)

lemma setup_key_answered_once_witness:
  "\<exists>x. delivered (NewSecrets [(''vpn'', [(''setup-key'', VString ''k'')])]
     ((NewService () :: (nat, unit) service)\<lparr>svc_prompt := Some \<lparr>prompt_activationID = 1,
        prompt_kind = PromptSetupKey, prompt_result = Some 3\<rparr>\<rparr>)) 3 = Some x \<and> s_SetupKey x = ''k''"
proof -
  let ?c = "[(''vpn'', [(''setup-key'', VString ''k'')])]"
  have "s_PromptActivationID (parseActivationSettings ?c) = []" "s_SetupKey (parseActivationSettings ?c) = ''k''"
    by code_simp+
  then show ?thesis
    using setup_key_answered_once [of "(NewService () :: (nat, unit) service)\<lparr>svc_prompt :=
        Some \<lparr>prompt_activationID = 1, prompt_kind = PromptSetupKey, prompt_result = Some 3\<rparr>\<rparr>"
        "\<lparr>prompt_activationID = 1, prompt_kind = PromptSetupKey, prompt_result = Some 3\<rparr>" 3 ?c]
    by (simp add: NewService_def)
qed

end
