(* ===== verification/NBStatus.thy ===== *)
theory NBStatus
  imports Daemon
begin

text \<open>
  The translation of daemon status responses (\<open>internal/netbird/status/status.go\<close>): free-form
  status text, with the full status as a fallback and a source of failure messages, to one of
  five states. The lemmas show that every mapping carries a message, which inputs lead to which
  state, that needles match whole words, and that the text is first brought to a normal form.
\<close>

section \<open>Definitions\<close>

datatype nb_state = Unknown | Disconnected | Connecting | Connected | Failed

fun state_String :: "nb_state \<Rightarrow> string" where
  "state_String Disconnected = ''disconnected''"
| "state_String Connecting = ''connecting''"
| "state_String Connected = ''connected''"
| "state_String Failed = ''failed''"
| "state_String Unknown = ''unknown''"

record mapping =
  mapped_State :: nb_state
  mapped_Message :: string
  mapped_DaemonVersion :: string

definition mapping_Ready :: "mapping \<Rightarrow> bool" where
  "mapping_Ready m \<longleftrightarrow> mapped_State m = Connected"

definition mapping_Failed :: "mapping \<Rightarrow> bool" where
  "mapping_Failed m \<longleftrightarrow> mapped_State m = Failed"

subsection \<open>Status text\<close>

fun split_camel_from :: "char \<Rightarrow> string \<Rightarrow> string" where
  "split_camel_from prev [] = []"
| "split_camel_from prev (r # rs) =
     (if (is_lower prev \<or> is_digit prev) \<and> is_upper r then CHR '' '' # r # split_camel_from r rs
      else r # split_camel_from r rs)"

fun splitCamelCase :: "string \<Rightarrow> string" where
  "splitCamelCase [] = []"
| "splitCamelCase (r # rs) = r # split_camel_from r rs"

definition punctuation_to_space :: "char \<Rightarrow> char" where
  "punctuation_to_space c = (if c \<in> set ''_-.:;,'' then CHR '' '' else c)"

definition status_normalize :: "string \<Rightarrow> string" where
  "status_normalize v =
     join '' '' (str_fields (map punctuation_to_space (to_lower (splitCamelCase (trim_space v)))))"

definition containsAny :: "string \<Rightarrow> string list \<Rightarrow> bool" where
  "containsAny v needles =
     list_ex (\<lambda>needle. let n = status_normalize needle
                       in if contains n '' '' then contains v n else List.member (str_fields v) n)
       needles"

definition failed_words :: "string list" where
  "failed_words =
     [''failed'', ''failure'', ''error'', ''fatal'', ''invalid'', ''expired'', ''unauthorized'',
      ''unauthenticated'', ''authentication failed'', ''login failed'']"

definition disconnected_words :: "string list" where
  "disconnected_words =
     [''not connected'', ''disconnected'', ''disconnect'', ''stopped'', ''stopping'', ''down'',
      ''offline'', ''idle'', ''login required'', ''needs login'', ''need login'', ''not logged'',
      ''logged out'']"

definition connecting_words :: "string list" where
  "connecting_words =
     [''connecting'', ''reconnecting'', ''starting'', ''initializing'', ''initialising'', ''waiting'',
      ''authenticating'', ''logging in'', ''login pending'', ''in progress'', ''updating'']"

definition connected_words :: "string list" where
  "connected_words = [''connected'', ''ready'', ''running'', ''up'', ''active'']"

definition mapStatusString :: "string \<Rightarrow> nb_state" where
  "mapStatusString raw =
     (let status = status_normalize raw
      in if status = [] then Unknown
         else if containsAny status failed_words then Failed
         else if containsAny status disconnected_words then Disconnected
         else if containsAny status connecting_words then Connecting
         else if containsAny status connected_words then Connected
         else Unknown)"

subsection \<open>Full status\<close>

definition get_Connected :: "conn_state option \<Rightarrow> bool" where
  "get_Connected st = (case st of None \<Rightarrow> False | Some c \<Rightarrow> conn_Connected c)"

definition get_Error :: "conn_state option \<Rightarrow> string" where
  "get_Error st = (case st of None \<Rightarrow> [] | Some c \<Rightarrow> conn_Error c)"

definition get_IP :: "string option \<Rightarrow> string" where
  "get_IP peer = (case peer of None \<Rightarrow> [] | Some ip \<Rightarrow> ip)"

definition mapFullStatus :: "full_status option \<Rightarrow> string \<Rightarrow> nb_state \<times> string" where
  "mapFullStatus full fallbackMessage =
     (case full of
        None \<Rightarrow> (Unknown, fallbackMessage)
      | Some f \<Rightarrow>
          (let managementConnected = get_Connected (full_ManagementState f);
               signalConnected = get_Connected (full_SignalState f);
               localPeerIP = trim_space (get_IP (full_LocalPeerIP f))
           in if managementConnected \<and> signalConnected \<and> localPeerIP \<noteq> []
              then (Connected, ''daemon full status is connected'')
              else if managementConnected \<or> signalConnected \<or> localPeerIP \<noteq> []
              then (Connecting, ''daemon full status is partially connected'')
              else (Disconnected, fallbackMessage)))"

definition managementFailureMessage :: "full_status \<Rightarrow> string" where
  "managementFailureMessage f =
     (let message = trim_space (get_Error (full_ManagementState f))
      in if message \<noteq> [] then ''management connection error: '' @ message else [])"

definition signalFailureMessage :: "full_status \<Rightarrow> string" where
  "signalFailureMessage f =
     (let message = trim_space (get_Error (full_SignalState f))
      in if message \<noteq> [] then ''signal connection error: '' @ message else [])"

fun relayFailureMessage :: "relay_state list \<Rightarrow> string" where
  "relayFailureMessage [] = []"
| "relayFailureMessage (relay # relays) =
     (let message = trim_space (relay_Error relay)
      in if message \<noteq> [] then ''relay '' @ relay_URI relay @ '' error: '' @ message
         else relayFailureMessage relays)"

fun dnsFailureMessage :: "string list \<Rightarrow> string" where
  "dnsFailureMessage [] = []"
| "dnsFailureMessage (err # groups) =
     (let message = trim_space err
      in if message \<noteq> [] then ''dns server error: '' @ message else dnsFailureMessage groups)"

fun isFailureEvent :: "severity \<Rightarrow> bool" where
  "isFailureEvent SeverityError = True"
| "isFailureEvent SeverityCritical = True"
| "isFailureEvent _ = False"

fun systemEventFailureMessage :: "system_event list \<Rightarrow> string" where
  "systemEventFailureMessage [] = []"
| "systemEventFailureMessage (event # events) =
     (if \<not> isFailureEvent (event_Severity event) then systemEventFailureMessage events
      else if trim_space (event_UserMessage event) \<noteq> [] then trim_space (event_UserMessage event)
      else if trim_space (event_Message event) \<noteq> [] then trim_space (event_Message event)
      else systemEventFailureMessage events)"

definition fullStatusFailure :: "full_status option \<Rightarrow> string \<times> bool" where
  "fullStatusFailure full =
     (case full of
        None \<Rightarrow> ([], False)
      | Some f \<Rightarrow>
          if managementFailureMessage f \<noteq> [] then (managementFailureMessage f, True)
          else if signalFailureMessage f \<noteq> [] then (signalFailureMessage f, True)
          else if relayFailureMessage (full_Relays f) \<noteq> []
          then (relayFailureMessage (full_Relays f), True)
          else if dnsFailureMessage (full_DnsErrors f) \<noteq> []
          then (dnsFailureMessage (full_DnsErrors f), True)
          else if systemEventFailureMessage (full_Events f) \<noteq> []
          then (systemEventFailureMessage (full_Events f), True)
          else ([], False))"

text \<open>\<open>Map\<close> of the package.\<close>

definition Map_status :: "status_response option \<Rightarrow> mapping" where
  "Map_status resp =
     (case resp of
        None \<Rightarrow> \<lparr>mapped_State = Unknown, mapped_Message = ''daemon returned no status'',
                 mapped_DaemonVersion = []\<rparr>
      | Some r \<Rightarrow>
          (let raw = trim_space (resp_Status r);
               mapped = mapStatusString raw;
               message = (if raw = [] then state_String mapped else raw);
               (failureMessage, isFailed) = fullStatusFailure (resp_FullStatus r)
           in if isFailed \<and> mapped \<noteq> Connected
              then \<lparr>mapped_State = Failed, mapped_Message = failureMessage,
                    mapped_DaemonVersion = resp_DaemonVersion r\<rparr>
              else
                (let (mapped', message') =
                   (if mapped = Unknown then mapFullStatus (resp_FullStatus r) message
                    else (mapped, message))
                 in \<lparr>mapped_State = mapped', mapped_Message = message',
                     mapped_DaemonVersion = resp_DaemonVersion r\<rparr>)))"

section \<open>The normal form of status text\<close>

lemma split_camel_from_no_upper: "\<forall>c \<in> set s. \<not> is_upper c \<Longrightarrow> split_camel_from prev s = s"
  by (induction prev s rule: split_camel_from.induct) auto

lemma splitCamelCase_no_upper: "\<forall>c \<in> set s. \<not> is_upper c \<Longrightarrow> splitCamelCase s = s"
  by (cases s) (auto simp: split_camel_from_no_upper)

lemma lower_char_not_upper: "\<not> is_upper c \<Longrightarrow> lower_char c = c"
  by (auto simp: lower_char_def is_upper_def)

lemma to_lower_no_upper: "\<forall>c \<in> set s. \<not> is_upper c \<Longrightarrow> to_lower s = s"
  by (simp add: to_lower_def lower_char_not_upper map_idI)

definition status_char :: "char \<Rightarrow> bool" where
  "status_char c \<longleftrightarrow> \<not> is_upper c \<and> punctuation_to_space c = c"

lemma status_char_normal: "status_char (punctuation_to_space (lower_char c))"
proof -
  have "\<not> is_upper (CHR 0x20)" by (simp add: is_upper_def)
  then show ?thesis
    by (auto simp: status_char_def punctuation_to_space_def is_upper_lower)
qed

lemma status_normalize_words: "\<exists>ws. status_normalize s = join '' '' ws
    \<and> (\<forall>w \<in> set ws. is_word w) \<and> (\<forall>c \<in> set (join '' '' ws). status_char c)"
proof (intro exI conjI)
  let ?x = "map punctuation_to_space (to_lower (splitCamelCase (trim_space s)))"
  show "status_normalize s = join '' '' (str_fields ?x)"
    by (simp add: status_normalize_def)
  show "\<forall>w \<in> set (str_fields ?x). is_word w"
    by (auto dest: str_fields_words)
  have "\<forall>c \<in> set ?x. status_char c"
    by (auto simp: to_lower_def status_char_normal)
  moreover have "status_char (CHR 0x20)"
    by (simp add: status_char_def is_upper_def punctuation_to_space_def)
  ultimately show "\<forall>c \<in> set (join '' '' (str_fields ?x)). status_char c"
    using set_join [of "'' ''" "str_fields ?x"] set_fields [of _ ?x] by fastforce
qed

lemma status_normalize_idem: "status_normalize (status_normalize s) = status_normalize s"
proof -
  obtain ws where ws: "status_normalize s = join '' '' ws" "\<forall>w \<in> set ws. is_word w"
      "\<forall>c \<in> set (join '' '' ws). status_char c"
    using status_normalize_words by blast
  from ws(3) have "map punctuation_to_space (to_lower (splitCamelCase (join '' '' ws))) = join '' '' ws"
    by (auto simp: status_char_def splitCamelCase_no_upper to_lower_no_upper intro: map_idI)
  with ws(2) show ?thesis
    unfolding ws(1) by (simp add: status_normalize_def trim_join_words str_fields_join)
qed

interpretation status_text: string_normalizer status_normalize
  by unfold_locales (simp_all add: status_normalize_idem, simp add: status_normalize_def)

section \<open>Needles\<close>

definition matches_needle :: "string \<Rightarrow> string \<Rightarrow> bool" where
  "matches_needle v n \<longleftrightarrow>
     (if contains n '' '' then contains v n else List.member (str_fields v) n)"

lemma words_normal:
  "map status_normalize failed_words = failed_words"
  "map status_normalize disconnected_words = disconnected_words"
  "map status_normalize connecting_words = connecting_words"
  "map status_normalize connected_words = connected_words"
  by code_simp+

lemma containsAny_normal:
  assumes "map status_normalize ns = ns"
  shows "containsAny v ns \<longleftrightarrow> (\<exists>n \<in> set ns. matches_needle v n)"
proof -
  have "containsAny v ns \<longleftrightarrow> (\<exists>n \<in> set (map status_normalize ns). matches_needle v n)"
    by (auto simp: containsAny_def matches_needle_def list_ex_iff Let_def)
  with assms show ?thesis by simp
qed

lemmas containsAny_words = words_normal [THEN containsAny_normal]

lemma single_words: "list_all (\<lambda>n. \<not> contains n '' '') connected_words"
  by code_simp

section \<open>States and messages\<close>

lemma fullStatusFailure_message: "fullStatusFailure full = (message, True) \<Longrightarrow> message \<noteq> []"
  by (auto simp: fullStatusFailure_def split: option.splits if_splits)

lemma state_String_nonempty: "state_String st \<noteq> []"
  by (cases st) simp_all

lemma mapFullStatus_message:
  "mapFullStatus full fallback = (st, message) \<Longrightarrow> fallback \<noteq> [] \<Longrightarrow> message \<noteq> []"
  by (auto simp: mapFullStatus_def Let_def split: option.splits if_splits)

lemma mapFullStatus_not_failed: "fst (mapFullStatus full fallback) \<noteq> Failed"
  by (auto simp: mapFullStatus_def Let_def split: option.splits)

lemma mapStatusString_trim [simp]: "mapStatusString (trim_space s) = mapStatusString s"
  by (simp add: mapStatusString_def status_text.nf_trim)

lemma mapStatusString_blank: "trim_space s = [] \<Longrightarrow> mapStatusString s = Unknown"
proof -
  have "mapStatusString [] = Unknown" by code_simp
  then show "trim_space s = [] \<Longrightarrow> mapStatusString s = Unknown"
    using mapStatusString_trim [of s] by simp
qed

lemma fst_mapFullStatus:
  "fst (mapFullStatus full fallback) = Connected \<longleftrightarrow>
     (\<exists>f. full = Some f \<and> get_Connected (full_ManagementState f)
        \<and> get_Connected (full_SignalState f) \<and> trim_space (get_IP (full_LocalPeerIP f)) \<noteq> [])"
  by (auto simp: mapFullStatus_def Let_def split: option.splits)

text \<open>The state alone, without the messages.\<close>

definition decided_State :: "status_response \<Rightarrow> string \<Rightarrow> nb_state" where
  "decided_State r fallback =
     (if snd (fullStatusFailure (resp_FullStatus r)) \<and> mapStatusString (resp_Status r) \<noteq> Connected
      then Failed
      else if mapStatusString (resp_Status r) = Unknown
      then fst (mapFullStatus (resp_FullStatus r) fallback)
      else mapStatusString (resp_Status r))"

lemma Map_status_decided: "\<exists>fallback. mapped_State (Map_status (Some r)) = decided_State r fallback"
proof (intro exI)
  show "mapped_State (Map_status (Some r)) = decided_State r
      (if trim_space (resp_Status r) = [] then state_String (mapStatusString (resp_Status r))
       else trim_space (resp_Status r))"
    by (auto simp: Map_status_def decided_State_def Let_def mapStatusString_blank split: prod.split)
qed

lemma matches_connected:
  "(\<exists>n \<in> set connected_words. matches_needle v n) \<longleftrightarrow>
     (\<exists>n \<in> set connected_words. n \<in> set (str_fields v))"
  using single_words by (auto simp: matches_needle_def list_all_iff)

lemma no_failure_message: "snd (fullStatusFailure None) = False"
  by (simp add: fullStatusFailure_def)

section \<open>Properties\<close>

text \<open>
  a status text is mapped to Connected exactly when one of the words connected, ready,
  running, up, active stands in it as a whole word and no failure, disconnection or
  connection-in-progress phrase does. So neither ''disconnected'' nor ''not connected'' counts as
  connected, although both contain the word's letters.
\<close>

theorem mapStatusString_Connected_iff:
  "mapStatusString raw = Connected \<longleftrightarrow>
     set connected_words \<inter> set (str_fields (status_normalize raw)) \<noteq> {}
     \<and> \<not> containsAny (status_normalize raw) failed_words
     \<and> \<not> containsAny (status_normalize raw) disconnected_words
     \<and> \<not> containsAny (status_normalize raw) connecting_words"
  unfolding mapStatusString_def Let_def containsAny_words(4) matches_connected
  by auto

text \<open>
  C28: \<open>Map\<close> reports Connected exactly when the status text says so, or when the text is not
  understood, the full status names no failure, and management, signal and the local peer
  address are all up. A failure in the full status never yields Connected unless the text
  itself says connected.
\<close>

theorem Map_status_Connected_iff:
  "mapped_State (Map_status resp) = Connected \<longleftrightarrow>
     (\<exists>r. resp = Some r \<and>
        (mapStatusString (resp_Status r) = Connected \<or>
         (mapStatusString (resp_Status r) = Unknown
          \<and> snd (fullStatusFailure (resp_FullStatus r)) = False
          \<and> (\<exists>f. resp_FullStatus r = Some f \<and> get_Connected (full_ManagementState f)
                \<and> get_Connected (full_SignalState f)
                \<and> trim_space (get_IP (full_LocalPeerIP f)) \<noteq> []))))"
proof (cases resp)
  case (Some r)
  obtain fallback where st: "mapped_State (Map_status (Some r)) = decided_State r fallback"
    using Map_status_decided by blast
  show ?thesis
    unfolding Some st by (auto simp: decided_State_def fst_mapFullStatus)
qed (simp add: Map_status_def)

text \<open>
  every mapping carries a message, whatever the daemon returned: a nil response, an empty
  status text, or a failure found in any part of the full status.
\<close>

theorem Map_status_message: "mapped_Message (Map_status resp) \<noteq> []"
proof (cases resp)
  case (Some r)
  then show ?thesis
    by (auto simp: Map_status_def Let_def state_String_nonempty split: prod.split
        dest: fullStatusFailure_message mapFullStatus_message)
qed (simp add: Map_status_def)

text \<open>
  the mapping reports Failed exactly when the status text names a failure, or the full status
  does and the text does not say connected.
\<close>

theorem Map_status_Failed_iff:
  "mapped_State (Map_status resp) = Failed \<longleftrightarrow>
     (\<exists>r. resp = Some r \<and>
        (mapStatusString (resp_Status r) = Failed \<or>
         (snd (fullStatusFailure (resp_FullStatus r)) \<and> mapStatusString (resp_Status r) \<noteq> Connected)))"
proof (cases resp)
  case (Some r)
  obtain fallback where st: "mapped_State (Map_status (Some r)) = decided_State r fallback"
    using Map_status_decided by blast
  show ?thesis
    unfolding Some st by (auto simp: decided_State_def mapFullStatus_not_failed)
qed (simp add: Map_status_def)

section \<open>Failures of the full status\<close>

text \<open>Severities are ordered as the protocol lists them, above all values that it does not name.\<close>

fun severity_number :: "severity \<Rightarrow> int" where
  "severity_number SeverityInfo = 0"
| "severity_number SeverityWarning = 1"
| "severity_number SeverityError = 2"
| "severity_number SeverityCritical = 3"
| "severity_number (SeverityOther n) = (if 0 \<le> n then - 2 * n - 1 else 2 * n)"

lemma severity_number_inj [simp]: "severity_number a = severity_number b \<longleftrightarrow> a = b"
  by (cases a; cases b) (auto split: if_splits; presburger)+

instantiation severity :: linorder
begin

definition less_eq_severity :: "severity \<Rightarrow> severity \<Rightarrow> bool" where
  "a \<le> b \<longleftrightarrow> severity_number a \<le> severity_number b"

definition less_severity :: "severity \<Rightarrow> severity \<Rightarrow> bool" where
  "a < b \<longleftrightarrow> severity_number a < severity_number b"

instance
proof
  fix a b :: severity
  assume "a \<le> b" "b \<le> a"
  then show "a = b"
    by (metis order_antisym less_eq_severity_def severity_number_inj)
qed (auto simp: less_eq_severity_def less_severity_def)

end

lemma isFailureEvent_iff: "isFailureEvent s \<longleftrightarrow> SeverityError \<le> s"
  by (cases s) (auto simp: less_eq_severity_def)

lemma relayFailureMessage_iff: "relayFailureMessage relays \<noteq> [] \<longleftrightarrow> (\<exists>r \<in> set relays. \<not> blank (relay_Error r))"
  by (induction relays) (auto simp: Let_def blank_def)

lemma dnsFailureMessage_iff: "dnsFailureMessage groups \<noteq> [] \<longleftrightarrow> (\<exists>e \<in> set groups. \<not> blank e)"
  by (induction groups) (auto simp: Let_def blank_def)

lemma systemEventFailureMessage_iff:
  "systemEventFailureMessage events \<noteq> [] \<longleftrightarrow>
     (\<exists>e \<in> set events. SeverityError \<le> event_Severity e \<and> \<not> (blank (event_UserMessage e) \<and> blank (event_Message e)))"
  by (induction events) (auto simp: isFailureEvent_iff blank_def)

lemma fullStatusFailure_iff:
  "snd (fullStatusFailure full) \<longleftrightarrow>
     (\<exists>f. full = Some f \<and>
        (\<not> blank (get_Error (full_ManagementState f)) \<or> \<not> blank (get_Error (full_SignalState f)) \<or>
         (\<exists>r \<in> set (full_Relays f). \<not> blank (relay_Error r)) \<or> (\<exists>e \<in> set (full_DnsErrors f). \<not> blank e) \<or>
         (\<exists>e \<in> set (full_Events f). SeverityError \<le> event_Severity e \<and>
            \<not> (blank (event_UserMessage e) \<and> blank (event_Message e)))))"
  unfolding relayFailureMessage_iff [symmetric] dnsFailureMessage_iff [symmetric] systemEventFailureMessage_iff [symmetric]
  by (auto simp: fullStatusFailure_def managementFailureMessage_def signalFailureMessage_def blank_def Let_def
      split: option.split)

text \<open>
  C27: what counts as a failure of the daemon. A status is mapped to Failed exactly when its text names a failure, or
  does not say connected while the full status holds an error that is not blank, of the management or the signal
  connection, a relay or a name server group, or an event of severity ERROR or CRITICAL (the only ones from
  ERROR on) with a text that is not blank.
\<close>

theorem Map_status_Failed_sources:
  "mapped_State (Map_status resp) = Failed \<longleftrightarrow>
     (\<exists>r. resp = Some r \<and>
        (mapStatusString (resp_Status r) = Failed \<or>
         (mapStatusString (resp_Status r) \<noteq> Connected \<and>
          (\<exists>f. resp_FullStatus r = Some f \<and>
             ((\<exists>e \<in> {get_Error (full_ManagementState f), get_Error (full_SignalState f)} \<union>
                   relay_Error ` set (full_Relays f) \<union> set (full_DnsErrors f). \<not> blank e) \<or>
              (\<exists>e \<in> set (full_Events f). SeverityError \<le> event_Severity e \<and>
                 \<not> (blank (event_UserMessage e) \<and> blank (event_Message e))))))))"
  unfolding Map_status_Failed_iff fullStatusFailure_iff by blast

end
