(* ===== verification/Profile.thy ===== *)
theory Profile
  imports NBStatus
begin

text \<open>
  The choice of a daemon profile for an activation (\<open>internal/netbird/profile/profile.go\<close>). Every
  function takes the client as an argument and threads the state the client acts on. The lemmas
  bound the calls each function makes, characterise the refusal to switch away from a running
  engine, and the creation of a missing profile.
\<close>

section \<open>Definitions\<close>

definition trimProfileRef :: "profile_ref \<Rightarrow> profile_ref" where
  "trimProfileRef ref =
     ref\<lparr>ref_ID := trim_space (ref_ID ref),
         ref_ProfileName := trim_space (ref_ProfileName ref),
         ref_Username := trim_space (ref_Username ref)\<rparr>"

definition matchingProfilesByName :: "profile list \<Rightarrow> string \<Rightarrow> profile list" where
  "matchingProfilesByName profiles name =
     filter (\<lambda>p. trim_space (profile_Name p) = trim_space name) profiles"

definition matchingProfilesByID :: "profile list \<Rightarrow> string \<Rightarrow> profile list" where
  "matchingProfilesByID profiles idn =
     filter (\<lambda>p. trim_space (profile_ID p) = trim_space idn) profiles"

definition profileRefFromMatch :: "profile \<Rightarrow> string \<Rightarrow> profile_ref" where
  "profileRefFromMatch m username =
     \<lparr>ref_ID = trim_space (profile_ID m), ref_ProfileName = trim_space (profile_Name m),
      ref_Username = trim_space username\<rparr>"

definition fillMissingProfileFields :: "profile_ref \<Rightarrow> profile_ref \<Rightarrow> profile_ref" where
  "fillMissingProfileFields active0 desired0 =
     (let active = trimProfileRef active0; desired = trimProfileRef desired0
      in if ref_Empty active \<or> \<not> ref_MatchesDesired active desired then desired
         else \<lparr>ref_ID = (if ref_ID desired = [] then ref_ID active else ref_ID desired),
               ref_ProfileName =
                 (if ref_ProfileName desired = [] then ref_ProfileName active
                  else ref_ProfileName desired),
               ref_Username =
                 (if ref_Username desired = [] then ref_Username active else ref_Username desired)\<rparr>)"

definition runningEngine :: "'d client \<Rightarrow> 'd \<Rightarrow> (gerr + bool) \<times> 'd" where
  "runningEngine c d =
     on_ok (c_Status c full_peer_status d) (\<lambda>e. e)
       (\<lambda>resp d. case mapped_State (Map_status resp) of
                    Disconnected \<Rightarrow> (Inr False, d)
                  | Failed \<Rightarrow> (Inr False, d)
                  | _ \<Rightarrow> (Inr True, d))"

definition checkRunningConflict :: "'d client \<Rightarrow> profile_ref \<Rightarrow> profile_ref \<Rightarrow> 'd \<Rightarrow> (gerr + unit) \<times> 'd" where
  "checkRunningConflict c active0 desired0 d =
     (let active = trimProfileRef active0; desired = trimProfileRef desired0
      in if ref_Empty active \<or> ref_MatchesDesired active desired then (Inr (), d)
         else
           on_ok (runningEngine c d) (\<lambda>e. Errorf ''check active profile status'' [e])
             (\<lambda>running d.
                if running
                then (Inl (Errorf (''active '' @ ref_String active @ '', requested '' @ ref_String desired)
                             [Sentinel ErrConflict]), d)
                else (Inr (), d)))"

definition one_match :: "profile list \<Rightarrow> profile_ref \<Rightarrow> gerr + profile_ref" where
  "one_match ms desired =
     (case ms of
        [] \<Rightarrow> Inl (Errorf (ref_String desired) [Sentinel ErrNotFound])
      | [m] \<Rightarrow> Inr (profileRefFromMatch m (ref_Username desired))
      | _ \<Rightarrow> Inl (Errorf (ref_String desired @ '' has '' @ dec_of_nat (length ms) @ '' matches'')
                  [Sentinel ErrAmbiguous]))"

definition resolveExistingProfile :: "'d client \<Rightarrow> profile_ref \<Rightarrow> 'd \<Rightarrow> (gerr + profile_ref) \<times> 'd" where
  "resolveExistingProfile c desired0 d =
     (let desired = trimProfileRef desired0
      in if ref_Handle desired = [] \<or> ref_Username desired = [] then (Inr desired, d)
         else
           on_ok (c_ListProfiles c (ref_Username desired) d)
             (\<lambda>e. Errorf (''validate profile '' @ ref_String desired) [e])
             (\<lambda>profiles d.
                if ref_ProfileName desired \<noteq> []
                then (one_match (matchingProfilesByName profiles (ref_ProfileName desired)) desired, d)
                else (one_match (matchingProfilesByID profiles (ref_ID desired)) desired, d)))"

definition PrepareActivation :: "'d client \<Rightarrow> profile_ref \<Rightarrow> 'd \<Rightarrow> (gerr + profile_ref) \<times> 'd" where
  "PrepareActivation c desired0 d =
     (let desired = trimProfileRef desired0
      in on_ok (c_GetFeatures c d) (\<lambda>e. Errorf ''resolve profile features'' [e])
           (\<lambda>f d.
              if DisableProfiles f then (Inr no_profile_ref, d)
              else if ref_Empty desired then (Inr desired, d)
              else
                on_ok (c_GetActiveProfile c d) (\<lambda>e. Errorf ''resolve active profile'' [e])
                  (\<lambda>active0 d.
                     let active = trimProfileRef active0
                     in on_ok (checkRunningConflict c active desired d) (\<lambda>e. e)
                          (\<lambda>_ d. (Inr (fillMissingProfileFields active desired), d)))))"

definition EnsureExists :: "'d client \<Rightarrow> profile_ref \<Rightarrow> 'd \<Rightarrow> (gerr + profile_ref) \<times> 'd" where
  "EnsureExists c desired0 d =
     (let desired = trimProfileRef desired0
      in on_ok (c_GetFeatures c d) (\<lambda>e. Errorf ''resolve profile features'' [e])
           (\<lambda>f d.
              if DisableProfiles f then (Inr no_profile_ref, d)
              else if ref_Empty desired \<or> ref_ProfileName desired = [] \<or> ref_Username desired = []
              then (Inr desired, d)
              else
                (case resolveExistingProfile c desired d of
                   (Inr resolved, d) \<Rightarrow> (Inr resolved, d)
                 | (Inl err, d) \<Rightarrow>
                     if \<not> errors_is err ErrNotFound then (Inl err, d)
                     else
                       on_ok (c_AddProfile c desired d)
                         (\<lambda>e. Errorf (''create profile '' @ ref_String desired) [e])
                         (\<lambda>created0 d.
                            let created = trimProfileRef created0
                            in (Inr (created
                                  \<lparr>ref_ProfileName := (if ref_ProfileName created = []
                                                       then ref_ProfileName desired
                                                       else ref_ProfileName created),
                                   ref_Username := (if ref_Username created = []
                                                    then ref_Username desired
                                                    else ref_Username created)\<rparr>), d)))))"

definition Resolve :: "'d client \<Rightarrow> profile_ref \<Rightarrow> 'd \<Rightarrow> (gerr + profile_ref) \<times> 'd" where
  "Resolve c desired0 d =
     (let desired = trimProfileRef desired0
      in on_ok (c_GetFeatures c d) (\<lambda>e. Errorf ''resolve profile features'' [e])
           (\<lambda>f d.
              if DisableProfiles f then (Inr no_profile_ref, d)
              else
                on_ok (c_GetActiveProfile c d) (\<lambda>e. Errorf ''resolve active profile'' [e])
                  (\<lambda>active0 d.
                     let active = trimProfileRef active0
                     in if ref_Empty desired then (Inr active, d)
                        else
                          on_ok (checkRunningConflict c active desired d) (\<lambda>e. e)
                            (\<lambda>_ d.
                               let prepared = fillMissingProfileFields active desired
                               in if ref_MatchesDesired active prepared then (Inr prepared, d)
                                  else
                                    on_ok (resolveExistingProfile c prepared d) (\<lambda>e. e)
                                      (\<lambda>resolved d.
                                         (Inr (fillMissingProfileFields active resolved), d))))))"

section \<open>References\<close>

interpretation trimmed_ref: normalizer trimProfileRef
  by unfold_locales (simp add: trimProfileRef_def)

lemma trimProfileRef_simps [simp]:
  "ref_ID (trimProfileRef r) = trim_space (ref_ID r)"
  "ref_ProfileName (trimProfileRef r) = trim_space (ref_ProfileName r)"
  "ref_Username (trimProfileRef r) = trim_space (ref_Username r)"
  "ref_Empty (trimProfileRef r) = ref_Empty r"
  "ref_Handle (trimProfileRef r) = ref_Handle r"
  "ref_MatchesDesired (trimProfileRef r) s = ref_MatchesDesired r s"
  "ref_MatchesDesired s (trimProfileRef r) = ref_MatchesDesired s r"
  "ref_String (trimProfileRef r) = ref_String r"
  by (simp_all add: trimProfileRef_def ref_Empty_def ref_Handle_def ref_MatchesDesired_iff
      ref_String_def Let_def)

lemma trim_trimProfileRef [simp]: "trimProfileRef (trimProfileRef r) = trimProfileRef r"
  by (rule trimmed_ref.nf_nf)

lemma trim_no_profile [simp]: "trimProfileRef no_profile_ref = no_profile_ref"
  by (simp add: trimProfileRef_def no_profile_ref_def)

lemma matchingProfilesByName_trim [simp]:
  "matchingProfilesByName ps (trim_space name) = matchingProfilesByName ps name"
  by (simp add: matchingProfilesByName_def)

lemma fillMissing_fields:
  "fillMissingProfileFields active desired =
     (if ref_Empty active \<or> \<not> ref_MatchesDesired active desired then trimProfileRef desired
      else \<lparr>ref_ID = (if trim_space (ref_ID desired) = [] then trim_space (ref_ID active)
                     else trim_space (ref_ID desired)),
            ref_ProfileName = (if trim_space (ref_ProfileName desired) = []
                     then trim_space (ref_ProfileName active) else trim_space (ref_ProfileName desired)),
            ref_Username = (if trim_space (ref_Username desired) = []
                     then trim_space (ref_Username active) else trim_space (ref_Username desired))\<rparr>)"
  by (simp add: fillMissingProfileFields_def)

lemma fillMissing_trim [simp]:
  "fillMissingProfileFields (trimProfileRef a) d = fillMissingProfileFields a d"
  "fillMissingProfileFields a (trimProfileRef d) = fillMissingProfileFields a d"
  by (simp_all add: fillMissingProfileFields_def)

lemma fillMissing_matches: "ref_MatchesDesired (fillMissingProfileFields active desired) desired"
  by (auto simp: fillMissing_fields ref_MatchesDesired_iff)

lemma fillMissing_active:
  "ref_MatchesDesired active desired \<Longrightarrow> \<not> ref_Empty active \<Longrightarrow>
     ref_MatchesDesired active (fillMissingProfileFields active desired)"
  by (auto simp: fillMissing_fields ref_MatchesDesired_iff)

section \<open>The running engine\<close>

definition engine_runs :: "status_response option \<Rightarrow> bool" where
  "engine_runs resp \<longleftrightarrow> mapped_State (Map_status resp) \<notin> {Disconnected, Failed}"

lemma runningEngine_ok:
  "c_Status c full_peer_status d = (Inr resp, d') \<Longrightarrow> runningEngine c d = (Inr (engine_runs resp), d')"
  by (cases "mapped_State (Map_status resp)") (simp_all add: runningEngine_def engine_runs_def)

lemma runningEngine_err:
  "c_Status c full_peer_status d = (Inl e, d') \<Longrightarrow> runningEngine c d = (Inl e, d')"
  by (simp add: runningEngine_def)

lemma runningEngine_cases:
  "runningEngine c d =
     (case c_Status c full_peer_status d of
        (Inl e, d') \<Rightarrow> (Inl e, d') | (Inr resp, d') \<Rightarrow> (Inr (engine_runs resp), d'))"
  by (auto simp: runningEngine_ok runningEngine_err split: prod.split sum.split)

lemma one_match_cases:
  "one_match ms desired = Inr r \<longleftrightarrow> (\<exists>m. ms = [m] \<and> r = profileRefFromMatch m (ref_Username desired))"
  "(\<exists>e. one_match ms desired = Inl e \<and> errors_is e ErrNotFound) \<longleftrightarrow> ms = []"
  by (auto simp: one_match_def split: list.split)

section \<open>Calls made\<close>

definition read_calls :: "action set" where
  "read_calls = {GetFeatures, GetActiveProfile, Status full_peer_status} \<union> range ListProfiles"

interpretation conflict_check: call_budget "checkRunningConflict (recording c) active desired" "{Status full_peer_status}"
  for c :: "'d client" and active desired
  by unfold_locales
    (auto simp: checkRunningConflict_def Let_def on_ok_def runningEngine_cases
      split: prod.splits sum.splits if_splits)

interpretation resolve_existing: call_budget "resolveExistingProfile (recording c) desired" "range ListProfiles"
  for c :: "'d client" and desired
  by unfold_locales
    (auto simp: resolveExistingProfile_def Let_def on_ok_def split: prod.splits sum.splits if_splits)

interpretation prepare: call_budget "PrepareActivation (recording c) desired" read_calls
  for c :: "'d client" and desired
proof unfold_locales
  fix log d r log' d'
  assume "PrepareActivation (recording c) desired (log, d) = (r, log', d')"
  then show "\<exists>cs. log' = log @ cs \<and> set cs \<subseteq> read_calls"
    by (auto simp: PrepareActivation_def Let_def on_ok_def read_calls_def
        split: prod.splits sum.splits if_splits dest!: conflict_check.budget)
qed

interpretation resolve: call_budget "Resolve (recording c) desired" read_calls
  for c :: "'d client" and desired
proof unfold_locales
  fix log d r log' d'
  assume "Resolve (recording c) desired (log, d) = (r, log', d')"
  then show "\<exists>cs. log' = log @ cs \<and> set cs \<subseteq> read_calls"
    by (auto simp: Resolve_def Let_def on_ok_def read_calls_def
        split: prod.splits sum.splits if_splits
        dest!: conflict_check.budget resolve_existing.budget)
qed


interpretation ensure: call_budget "EnsureExists (recording c) desired"
    "{GetFeatures, AddProfile (trimProfileRef desired)} \<union> range ListProfiles"
  for c :: "'d client" and desired
proof unfold_locales
  fix log d r log' d'
  assume "EnsureExists (recording c) desired (log, d) = (r, log', d')"
  then show "\<exists>cs. log' = log @ cs \<and>
      set cs \<subseteq> {GetFeatures, AddProfile (trimProfileRef desired)} \<union> range ListProfiles"
    by (auto simp: EnsureExists_def Let_def on_ok_def
        split: prod.splits sum.splits if_splits dest!: resolve_existing.budget) blast+
qed

context client_relation
begin

lemma runningEngine_moves: "moves R (runningEngine c)"
  unfolding runningEngine_def
  by (intro moves_on_ok calls) (simp add: moves_def R_refl split: nb_state.split)

lemma checkRunningConflict_moves: "moves R (checkRunningConflict c active desired)"
  unfolding checkRunningConflict_def Let_def by (intro moves_intros runningEngine_moves)

lemma resolveExistingProfile_moves: "moves R (resolveExistingProfile c desired)"
  unfolding resolveExistingProfile_def Let_def by (intro moves_intros calls)

lemma PrepareActivation_moves: "moves R (PrepareActivation c desired)"
  unfolding PrepareActivation_def Let_def by (intro moves_intros calls checkRunningConflict_moves)

lemma Resolve_moves: "moves R (Resolve c desired)"
  unfolding Resolve_def Let_def
  by (intro moves_intros calls checkRunningConflict_moves resolveExistingProfile_moves)

lemma EnsureExists_moves: "moves R (EnsureExists c desired)"
proof -
  have "moves R (\<lambda>d. case resolveExistingProfile c p d of
      (r, d) \<Rightarrow> (case r of Inr resolved \<Rightarrow> (Inr resolved, d)
                 | Inl err \<Rightarrow> if \<not> errors_is err ErrNotFound then (Inl err, d)
                     else on_ok (c_AddProfile c p d) wrap (\<lambda>created d. (Inr (g created), d))))" for p wrap g
  proof (rule moves_bind [OF resolveExistingProfile_moves])
    fix r :: "gerr + profile_ref"
    show "moves R (\<lambda>d. case r of Inr resolved \<Rightarrow> (Inr resolved, d)
                 | Inl err \<Rightarrow> if \<not> errors_is err ErrNotFound then (Inl err, d)
                     else on_ok (c_AddProfile c p d) wrap (\<lambda>created d. (Inr (g created), d)))"
      by (cases r) (auto intro!: moves_intros calls)
  qed
  moreover have "(case x of (Inr resolved, d) \<Rightarrow> f resolved d | (Inl err, d) \<Rightarrow> k err d) =
      (case x of (r, d) \<Rightarrow> (case r of Inr resolved \<Rightarrow> f resolved d | Inl err \<Rightarrow> k err d))" for x f k
    by (simp split: prod.split sum.split)
  ultimately show ?thesis
    unfolding EnsureExists_def Let_def by (intro moves_intros calls) simp
qed

end

subsection \<open>Creating a missing profile\<close>

lemma resolveExisting_by_name:
  assumes "trim_space (ref_ProfileName desired) \<noteq> []" "trim_space (ref_Username desired) \<noteq> []"
  shows "resolveExistingProfile c desired d =
           on_ok (c_ListProfiles c (trim_space (ref_Username desired)) d)
             (\<lambda>e. Errorf (''validate profile '' @ ref_String desired) [e])
             (\<lambda>ps d. (one_match (matchingProfilesByName ps (ref_ProfileName desired))
                        (trimProfileRef desired), d))"
proof -
  have "ref_Handle desired \<noteq> []"
    using assms(1) by (simp add: ref_Handle_def Let_def)
  then show ?thesis
    using assms by (simp add: resolveExistingProfile_def)
qed

definition named_by :: "profile_ref \<Rightarrow> profile_ref \<Rightarrow> profile_ref" where
  "named_by desired created =
     \<lparr>ref_ID = trim_space (ref_ID created),
      ref_ProfileName = (if trim_space (ref_ProfileName created) = []
                         then trim_space (ref_ProfileName desired)
                         else trim_space (ref_ProfileName created)),
      ref_Username = (if trim_space (ref_Username created) = []
                      then trim_space (ref_Username desired)
                      else trim_space (ref_Username created))\<rparr>"

lemma trim_then_name:
  "(trimProfileRef r)\<lparr>ref_ProfileName := a, ref_Username := b\<rparr> =
     \<lparr>ref_ID = trim_space (ref_ID r), ref_ProfileName = a, ref_Username = b\<rparr>"
  by (simp add: trimProfileRef_def)

lemma EnsureExists_by_name:
  assumes "c_GetFeatures c d = (Inr f, d1)" "\<not> DisableProfiles f"
    and named: "trim_space (ref_ProfileName desired) \<noteq> []" "trim_space (ref_Username desired) \<noteq> []"
    and "c_ListProfiles c (trim_space (ref_Username desired)) d1 = (Inr ps, d2)"
  shows "EnsureExists c desired d =
     (case matchingProfilesByName ps (ref_ProfileName desired) of
        [] \<Rightarrow> on_ok (c_AddProfile c (trimProfileRef desired) d2)
                 (\<lambda>e. Errorf (''create profile '' @ ref_String desired) [e])
                 (\<lambda>created d. (Inr (named_by desired created), d))
      | [m] \<Rightarrow> (Inr (profileRefFromMatch m (ref_Username desired)), d2)
      | m # m' # ms \<Rightarrow> (Inl (Errorf (ref_String desired @ '' has '' @ dec_of_nat (length ms + 2) @ '' matches'')
                          [Sentinel ErrAmbiguous]), d2))"
proof -
  have "\<not> ref_Empty desired"
    using named(1) by (auto simp: ref_Empty_def)
  then show ?thesis
    using assms
    by (auto simp: EnsureExists_def resolveExisting_by_name one_match_def profileRefFromMatch_def
        named_by_def trim_then_name Let_def split: list.splits cong: if_cong)
qed


section \<open>Properties\<close>

text \<open>
  C24: choosing a profile only reads. Whatever the daemon answers, the preparation of an activation
  and the resolution of a profile call nothing but GetFeatures, GetActiveProfile, Status and
  ListProfiles: they never log in, switch, create or update a profile, nor move the engine; the one
  call with an effect that EnsureExists can make is the creation of the profile it was asked for.
\<close>

theorem profile_choice_reads_only:
  "set (fst (snd (PrepareActivation (recording c) desired ([], d)))) \<subseteq> read_calls \<and>
   set (fst (snd (Resolve (recording c) desired ([], d)))) \<subseteq> read_calls \<and>
   set (fst (snd (EnsureExists (recording c) desired ([], d)))) \<subseteq>
     read_calls \<union> {AddProfile (trimProfileRef desired)}"
proof (intro conjI)
  show "set (fst (snd (PrepareActivation (recording c) desired ([], d)))) \<subseteq> read_calls"
    by (rule prepare.from_empty_log [of c desired d "fst x" "fst (snd x)" "snd (snd x)" for x]) simp
  show "set (fst (snd (Resolve (recording c) desired ([], d)))) \<subseteq> read_calls"
    by (rule resolve.from_empty_log [of c desired d "fst x" "fst (snd x)" "snd (snd x)" for x]) simp
  have "set (fst (snd (EnsureExists (recording c) desired ([], d)))) \<subseteq>
      {GetFeatures, AddProfile (trimProfileRef desired)} \<union> range ListProfiles"
    by (rule ensure.from_empty_log [of c desired d "fst x" "fst (snd x)" "snd (snd x)" for x]) simp
  then show "set (fst (snd (EnsureExists (recording c) desired ([], d)))) \<subseteq>
      read_calls \<union> {AddProfile (trimProfileRef desired)}"
    by (auto simp: read_calls_def)
qed

text \<open>
  C22: an activation is refused for a conflict exactly when it would switch away from a running
  session: profiles are enabled, one is requested, another one is active (they differ in a field the
  request names) and the daemon's status is neither disconnected nor failed. Otherwise the prepared
  reference keeps every field the request names.
\<close>

theorem PrepareActivation_conflict_iff:
  assumes "c_GetFeatures c d = (Inr f, d1)" "c_GetActiveProfile c d1 = (Inr active, d2)"
    and "c_Status c full_peer_status d2 = (Inr resp, d3)"
  shows "(case fst (PrepareActivation c desired d) of
            Inl e \<Rightarrow> errors_is e ErrConflict \<and> \<not> DisableProfiles f \<and> \<not> ref_Empty desired \<and>
                     \<not> ref_Empty active \<and> \<not> ref_MatchesDesired active desired \<and>
                     mapped_State (Map_status resp) \<notin> {Disconnected, Failed}
          | Inr r \<Rightarrow> (if DisableProfiles f then r = no_profile_ref
                      else ref_MatchesDesired r desired \<and>
                           (ref_Empty desired \<or> ref_Empty active \<or> ref_MatchesDesired active r \<or>
                            mapped_State (Map_status resp) \<in> {Disconnected, Failed})))"
  using assms
  by (cases "ref_Empty active")
    (auto simp: PrepareActivation_def Let_def on_ok_def checkRunningConflict_def runningEngine_cases
      engine_runs_def fillMissing_matches fillMissing_active trimmed_ref.nf_nf)

definition fixed_client :: "features \<Rightarrow> profile_ref \<Rightarrow> status_response option \<Rightarrow> profile list client" where
  "fixed_client f active resp =
     \<lparr>c_Login = (\<lambda>_ d. (Inl (ErrText ''unused''), d)),
      c_WaitSSOLogin = (\<lambda>_ d. (Inl (ErrText ''unused''), d)),
      c_SwitchProfile = (\<lambda>p d. (Inr p, d)),
      c_AddProfile = (\<lambda>p d. (Inr (p\<lparr>ref_ID := ref_ProfileName p\<rparr>),
          d @ [\<lparr>profile_ID = ref_ProfileName p, profile_Name = ref_ProfileName p,
                 profile_IsActive = False\<rparr>])),
      c_UpdateProfile = (\<lambda>_ d. (None, d)), c_Up = (\<lambda>_ d. (None, d)), c_Down = (\<lambda>d. (None, d)),
      c_Status = (\<lambda>_ d. (Inr resp, d)), c_GetConfig = (\<lambda>_ d. (Inr None, d)),
      c_GetFeatures = (\<lambda>d. (Inr f, d)), c_GetActiveProfile = (\<lambda>d. (Inr active, d)),
      c_ListProfiles = (\<lambda>_ d. (Inr d, d)), c_Close = (\<lambda>d. (None, d))\<rparr>"

lemma PrepareActivation_conflict_iff_witness:
  "\<exists>e. fst (PrepareActivation
       (fixed_client \<lparr>DisableProfiles = False, DisableUpdateSettings = False, DisableNetworks = False\<rparr>
          \<lparr>ref_ID = ''a'', ref_ProfileName = [], ref_Username = []\<rparr>
          (Some \<lparr>resp_Status = ''Connected'', resp_FullStatus = None, resp_DaemonVersion = []\<rparr>))
       \<lparr>ref_ID = ''b'', ref_ProfileName = [], ref_Username = []\<rparr> []) = Inl e \<and> errors_is e ErrConflict"
proof -
  let ?f = "\<lparr>DisableProfiles = False, DisableUpdateSettings = False, DisableNetworks = False\<rparr>"
  let ?a = "\<lparr>ref_ID = ''a'', ref_ProfileName = [], ref_Username = []\<rparr>"
  let ?b = "\<lparr>ref_ID = ''b'', ref_ProfileName = [], ref_Username = []\<rparr>"
  let ?s = "Some \<lparr>resp_Status = ''Connected'', resp_FullStatus = None, resp_DaemonVersion = []\<rparr>"
  have "mapped_State (Map_status ?s) = Connected"
    by code_simp
  moreover have "\<not> ref_MatchesDesired ?a ?b" "\<not> ref_Empty ?b" "\<not> ref_Empty ?a"
    by code_simp+
  moreover have "\<not> ref_MatchesDesired ?a r" if "ref_MatchesDesired r ?b" for r
  proof -
    have "trim_space ''b'' \<noteq> []" "trim_space ''a'' \<noteq> trim_space ''b''"
      by code_simp+
    then show ?thesis
      using that by (auto simp: ref_MatchesDesired_iff)
  qed
  ultimately show ?thesis
    using PrepareActivation_conflict_iff [of "fixed_client ?f ?a ?s" "[]" ?f "[]" ?a "[]" ?s "[]" ?b]
    by (auto simp: fixed_client_def split: sum.splits)
qed

text \<open>
  C23: the result of EnsureExists depends on the number of profiles of the requested name that the
  daemon lists for the user. With none, the profile is created, once, with the trimmed reference, and
  the result carries the identifier the daemon chose; with exactly one, the result is that profile
  and nothing is created; with several, the result is the ambiguity error and nothing is created.
\<close>

theorem EnsureExists_outcomes:
  assumes "c_GetFeatures c d = (Inr f, d1)" "\<not> DisableProfiles f"
    and "trim_space (ref_ProfileName desired) \<noteq> []" "trim_space (ref_Username desired) \<noteq> []"
    and "c_ListProfiles c (trim_space (ref_Username desired)) d1 = (Inr ps, d2)"
  shows "case EnsureExists (recording c) desired (log, d) of (r, log', d') \<Rightarrow>
     (case matchingProfilesByName ps (ref_ProfileName desired) of
        [] \<Rightarrow> log' = log @ [GetFeatures, ListProfiles (trim_space (ref_Username desired)),
                            AddProfile (trimProfileRef desired)] \<and>
             (case c_AddProfile c (trimProfileRef desired) d2 of
                (Inr created, d3) \<Rightarrow> d' = d3 \<and> r = Inr (named_by desired created)
              | (Inl e, d3) \<Rightarrow> d' = d3 \<and> r \<in> range Inl)
      | [m] \<Rightarrow> log' = log @ [GetFeatures, ListProfiles (trim_space (ref_Username desired))] \<and>
               d' = d2 \<and> r = Inr (profileRefFromMatch m (ref_Username desired))
      | _ \<Rightarrow> log' = log @ [GetFeatures, ListProfiles (trim_space (ref_Username desired))] \<and>
             d' = d2 \<and> (\<exists>e. r = Inl e \<and> errors_is e ErrAmbiguous))"
proof -
  let ?u = "trim_space (ref_Username desired)"
  have "c_GetFeatures (recording c) (log, d) = (Inr f, log @ [GetFeatures], d1)"
    and "c_ListProfiles (recording c) ?u (log @ [GetFeatures], d1) =
      (Inr ps, log @ [GetFeatures, ListProfiles ?u], d2)"
    using assms by (simp_all add: recording_def logged_def)
  then show ?thesis
    using assms by (subst EnsureExists_by_name) (auto simp: on_ok_def split: list.splits prod.splits sum.splits)
qed

lemma EnsureExists_outcomes_witness:
  "case EnsureExists (recording
      (fixed_client \<lparr>DisableProfiles = False, DisableUpdateSettings = False, DisableNetworks = False\<rparr>
         no_profile_ref None))
      \<lparr>ref_ID = [], ref_ProfileName = ''work'', ref_Username = ''me''\<rparr> ([], []) of (r, log', d') \<Rightarrow>
     log' = [GetFeatures, ListProfiles ''me'',
             AddProfile \<lparr>ref_ID = [], ref_ProfileName = ''work'', ref_Username = ''me''\<rparr>] \<and>
     length d' = 1"
proof -
  let ?f = "\<lparr>DisableProfiles = False, DisableUpdateSettings = False, DisableNetworks = False\<rparr>"
  let ?c = "fixed_client ?f no_profile_ref None"
  have trims: "trim_space ''work'' = ''work''" "trim_space ''me'' = ''me''" "trim_space [] = []"
    by code_simp+
  show ?thesis
    using EnsureExists_outcomes [of ?c "[]" ?f "[]" "\<lparr>ref_ID = [], ref_ProfileName = ''work'', ref_Username = ''me''\<rparr>"
        "[]" "[]" "[]"]
    by (auto simp: fixed_client_def trimProfileRef_def matchingProfilesByName_def trims)
qed

text \<open>
  EnsureExists finds what it created. For a daemon whose lists are queries (they do not change
  it) and that lists a profile, under the identifier it returned, once it has been added, a second
  EnsureExists for the same reference creates nothing and resolves to the same identifier.
\<close>

theorem EnsureExists_idempotent:
  assumes features: "\<And>d. c_GetFeatures c d = (Inr f, d)"
    and lists: "\<And>u d. c_ListProfiles c u d = (Inr (listing u d), d)"
    and adds: "\<And>p d r d'. c_AddProfile c p d = (Inr r, d') \<Longrightarrow>
        matchingProfilesByName (listing (ref_Username p) d) (ref_ProfileName p) = [] \<Longrightarrow>
        \<exists>m. matchingProfilesByName (listing (ref_Username p) d') (ref_ProfileName p) = [m] \<and>
            trim_space (profile_ID m) = trim_space (ref_ID r)"
    and first: "EnsureExists c desired d = (Inr r, d')"
  shows "\<exists>r'. EnsureExists c desired d' = (Inr r', d') \<and> ref_ID r' = ref_ID r"
proof (cases "DisableProfiles f \<or> trim_space (ref_ProfileName desired) = [] \<or>
              trim_space (ref_Username desired) = []")
  case True
  then show ?thesis
    using first features by (auto simp: EnsureExists_def Let_def)
next
  case False
  note by_name = EnsureExists_by_name [OF features _ _ _ lists, of desired]
  let ?u = "trim_space (ref_Username desired)"
  show ?thesis
  proof (cases "matchingProfilesByName (listing ?u d) (ref_ProfileName desired)")
    case Nil
    with first False obtain created where
      created: "c_AddProfile c (trimProfileRef desired) d = (Inr created, d')"
      "r = named_by desired created"
      by (auto simp: by_name on_ok_def split: prod.splits sum.splits)
    with adds [OF this(1)] Nil obtain m where
      "matchingProfilesByName (listing ?u d') (ref_ProfileName desired) = [m]"
      "trim_space (profile_ID m) = trim_space (ref_ID created)"
      by auto
    with False created show ?thesis
      by (auto simp: by_name profileRefFromMatch_def named_by_def)
  next
    case (Cons m ms)
    with first False show ?thesis
      by (auto simp: by_name split: list.splits)
  qed
qed

lemma EnsureExists_idempotent_witness:
  "\<exists>r'. EnsureExists
      (fixed_client \<lparr>DisableProfiles = False, DisableUpdateSettings = False, DisableNetworks = False\<rparr>
         no_profile_ref None)
      \<lparr>ref_ID = [], ref_ProfileName = ''work'', ref_Username = ''me''\<rparr>
      [\<lparr>profile_ID = ''work'', profile_Name = ''work'', profile_IsActive = False\<rparr>] =
      (Inr r', [\<lparr>profile_ID = ''work'', profile_Name = ''work'', profile_IsActive = False\<rparr>]) \<and>
      ref_ID r' = ''work''"
proof -
  let ?f = "\<lparr>DisableProfiles = False, DisableUpdateSettings = False, DisableNetworks = False\<rparr>"
  let ?c = "fixed_client ?f no_profile_ref None"
  let ?p = "\<lparr>ref_ID = [], ref_ProfileName = ''work'', ref_Username = ''me''\<rparr>"
  have trims: "trim_space ''work'' = ''work''" "trim_space ''me'' = ''me''"
    by code_simp+
  have "EnsureExists ?c ?p [] =
      (Inr \<lparr>ref_ID = ''work'', ref_ProfileName = ''work'', ref_Username = ''me''\<rparr>,
       [\<lparr>profile_ID = ''work'', profile_Name = ''work'', profile_IsActive = False\<rparr>])"
    by (subst EnsureExists_by_name [of _ _ ?f "[]" _ "[]" "[]"])
      (simp_all add: fixed_client_def matchingProfilesByName_def trimProfileRef_def named_by_def trims)
  then have "\<exists>r'. EnsureExists ?c ?p [\<lparr>profile_ID = ''work'', profile_Name = ''work'', profile_IsActive = False\<rparr>] =
      (Inr r', [\<lparr>profile_ID = ''work'', profile_Name = ''work'', profile_IsActive = False\<rparr>]) \<and>
      ref_ID r' = ref_ID \<lparr>ref_ID = ''work'', ref_ProfileName = ''work'', ref_Username = ''me''\<rparr>"
  proof (rule EnsureExists_idempotent [of ?c ?f "\<lambda>_ d. d" ?p "[]", rotated -1])
    fix p d r d'
    assume "c_AddProfile ?c p d = (Inr r, d')" "matchingProfilesByName d (ref_ProfileName p) = []"
    then show "\<exists>m. matchingProfilesByName d' (ref_ProfileName p) = [m] \<and>
        trim_space (profile_ID m) = trim_space (ref_ID r)"
      by (auto simp: fixed_client_def matchingProfilesByName_def)
  qed (simp_all add: fixed_client_def)
  then show ?thesis
    by simp
qed

end
