(* ===== verification/Activation.thy ===== *)
theory Activation
  imports Lifecycle Profile
begin

text \<open>
  One activation, from NetworkManager's call to its end (\<open>runActivation\<close> and what it calls in
  \<open>internal/nmplugin/service.go\<close>, \<open>prompts.go\<close>, \<open>config.go\<close>, \<open>helpers.go\<close> and \<open>errors.go\<close>). A function
  of this theory is run by one goroutine: it threads the log of what that goroutine did and the
  state of the service, which other goroutines change at every lock and at every call.
\<close>

section \<open>Definitions\<close>

subsection \<open>The surroundings\<close>

text \<open>
  \<open>netip.Addr\<close>: the zero value, four octets, or sixteen octets and a zone.
\<close>

datatype netip_addr =
    AddrInvalid
  | Addr4 "8 word list"
  | Addr6 "8 word list" string

text \<open>
  What a goroutine meets outside its own code: the other goroutines (\<open>rt_meanwhile\<close>, all that happens
  before the lock it asks for is granted, and \<open>rt_block\<close>, all that happens while it is blocked in a
  \<open>select\<close>), the choices of a \<open>select\<close> (\<open>rt_done\<close>: the branch of the context's end; \<open>rt_ticks\<close>: the number of
  ticks of a ticker that are taken before that branch), the expiry of a deadline, the bus, the client
  factory and the clients, the operating system, and name resolution and address parsing.
\<close>

record ('h, 'd) runtime =
  rt_meanwhile :: "('h, 'd) service \<Rightarrow> ('h, 'd) service"
  rt_block :: "('h, 'd) service \<Rightarrow> ('h, 'd) service"
  rt_done :: "('h, 'd) service \<Rightarrow> bool"
  rt_ticks :: "('h, 'd) service \<Rightarrow> nat"
  rt_expired :: "('h, 'd) service \<Rightarrow> bool"
  rt_emit :: "signal \<Rightarrow> ('h, 'd) service \<Rightarrow> gerr option"
  rt_factory :: "('h, 'd) service \<Rightarrow> (gerr + 'h) \<times> ('h, 'd) service"
  rt_api :: "'h \<Rightarrow> ('h, 'd) service client"
  rt_os :: os_env
  rt_url_hostname :: "string \<Rightarrow> string option"
  rt_split_host :: "string \<Rightarrow> string option"
  rt_parse_addr :: "string \<Rightarrow> netip_addr option"
  rt_lookup :: "string \<Rightarrow> ('h, 'd) service \<Rightarrow> (gerr + netip_addr list) \<times> ('h, 'd) service"

type_synonym ('h, 'd) go = "action list \<times> ('h, 'd) service"

definition api :: "('h, 'd) runtime \<Rightarrow> 'h \<Rightarrow> ('h, 'd) go client" where
  "api rt h = recording (rt_api rt h)"

definition new_client :: "('h, 'd) runtime \<Rightarrow> ('h, 'd) go \<Rightarrow> (gerr + 'h) \<times> ('h, 'd) go" where
  "new_client rt = logged NewClient (rt_factory rt)"

text \<open>A region under the lock, with a result or without one.\<close>

definition locked ::
  "('h, 'd) runtime \<Rightarrow> (('h, 'd) service \<Rightarrow> 'r \<times> ('h, 'd) service) \<Rightarrow> ('h, 'd) go \<Rightarrow> 'r \<times> ('h, 'd) go" where
  "locked rt f = (\<lambda>(log, s). let (r, s') = f (rt_meanwhile rt s) in (r, (log, s')))"

definition locked_do ::
  "('h, 'd) runtime \<Rightarrow> (('h, 'd) service \<Rightarrow> ('h, 'd) service) \<Rightarrow> ('h, 'd) go \<Rightarrow> ('h, 'd) go" where
  "locked_do rt f = (\<lambda>(log, s). (log, f (rt_meanwhile rt s)))"

subsection \<open>Signals and states\<close>

definition emit :: "('h, 'd) runtime \<Rightarrow> signal \<Rightarrow> ('h, 'd) go \<Rightarrow> gerr option \<times> ('h, 'd) go" where
  "emit rt sig = (\<lambda>(log, s). (rt_emit rt sig s, (log @ [EmitSignal sig], s)))"

definition emitStateChanged :: "('h, 'd) runtime \<Rightarrow> service_state \<Rightarrow> ('h, 'd) go \<Rightarrow> ('h, 'd) go" where
  "emitStateChanged rt st g =
     snd (emit rt (PropertiesChanged [(''State'', VUint32 (state_code st))])
            (snd (emit rt (StateChanged (state_code st)) g)))"

definition EmitFailure :: "('h, 'd) runtime \<Rightarrow> plugin_failure \<Rightarrow> ('h, 'd) go \<Rightarrow> gerr option \<times> ('h, 'd) go" where
  "EmitFailure rt reason = emit rt (Failure (failure_code reason))"

definition EmitLoginBanner :: "('h, 'd) runtime \<Rightarrow> string \<Rightarrow> ('h, 'd) go \<Rightarrow> gerr option \<times> ('h, 'd) go" where
  "EmitLoginBanner rt banner = emit rt (LoginBanner banner)"

definition EmitSecretsRequired ::
  "('h, 'd) runtime \<Rightarrow> string \<Rightarrow> string list \<Rightarrow> ('h, 'd) go \<Rightarrow> gerr option \<times> ('h, 'd) go" where
  "EmitSecretsRequired rt message secrets = emit rt (SecretsRequired message secrets)"

definition EmitConfig :: "('h, 'd) runtime \<Rightarrow> variant_map \<Rightarrow> ('h, 'd) go \<Rightarrow> gerr option \<times> ('h, 'd) go" where
  "EmitConfig rt config = emit rt (Config config)"

definition setState :: "('h, 'd) runtime \<Rightarrow> service_state \<Rightarrow> ('h, 'd) go \<Rightarrow> ('h, 'd) go" where
  "setState rt st g =
     (case locked rt (setStateValue st) g of
        (changed, g) \<Rightarrow> if changed then emitStateChanged rt st g else g)"

definition setStateForActiveSession ::
  "('h, 'd) runtime \<Rightarrow> 64 word \<Rightarrow> service_state \<Rightarrow> ('h, 'd) go \<Rightarrow> bool \<times> ('h, 'd) go" where
  "setStateForActiveSession rt sid st g =
     (case locked rt (setStateForActiveSessionLocked sid st) g of
        (None, g) \<Rightarrow> (False, g)
      | (Some changed, g) \<Rightarrow> (True, if changed then emitStateChanged rt st g else g))"

definition interactiveSSORequiredMessage :: string where
  "interactiveSSORequiredMessage =
     ''This profile needs interactive SSO; rerun with nmcli connection up <name> --ask.''"

definition failActivation :: "('h, 'd) runtime \<Rightarrow> plugin_failure \<Rightarrow> gerr \<Rightarrow> ('h, 'd) go \<Rightarrow> ('h, 'd) go" where
  "failActivation rt failure err g =
     (let g1 = (if errors_is err ErrInteractiveSSONeeded
                then snd (EmitLoginBanner rt interactiveSSORequiredMessage g) else g);
          g2 = snd (EmitFailure rt failure g1)
      in setState rt ServiceStateStopped g2)"

subsection \<open>The daemon profile\<close>

definition switchDaemonProfile ::
  "('h, 'd) runtime \<Rightarrow> 'h \<Rightarrow> profile_ref \<Rightarrow> ('h, 'd) go \<Rightarrow> (gerr + profile_ref) \<times> ('h, 'd) go" where
  "switchDaemonProfile rt h prof g =
     (if ref_Handle prof = [] then (Inr prof, g)
      else
        on_ok (c_SwitchProfile (api rt h) prof g) (\<lambda>e. Errorf ''switch daemon profile'' [e])
          (\<lambda>resolved g. (Inr resolved, g)))"

definition prepareDaemonProfile ::
  "('h, 'd) runtime \<Rightarrow> 'h \<Rightarrow> activationSettings \<Rightarrow> ('h, 'd) go
     \<Rightarrow> (gerr + activationSettings) \<times> ('h, 'd) go" where
  "prepareDaemonProfile rt h settings g =
     (let p = s_Profile settings;
          desired = (if ref_ProfileName p \<noteq> [] \<and> ref_Username p = []
                     then p\<lparr>ref_Username := currentProcessUsername (rt_os rt)\<rparr> else p)
      in on_ok (PrepareActivation (api rt h) desired g) (\<lambda>e. e)
           (\<lambda>prepared g. on_ok (EnsureExists (api rt h) prepared g) (\<lambda>e. e)
              (\<lambda>existing g. on_ok (switchDaemonProfile rt h existing g) (\<lambda>e. e)
                 (\<lambda>switched g. (Inr (settings\<lparr>s_Profile := switched\<rparr>), g)))))"

definition updateDaemonProfile ::
  "('h, 'd) runtime \<Rightarrow> 'h \<Rightarrow> activationSettings \<Rightarrow> ('h, 'd) go \<Rightarrow> (gerr + unit) \<times> ('h, 'd) go" where
  "updateDaemonProfile rt h settings g =
     (if \<not> shouldUpdateProfile settings then (Inr (), g)
      else
        on_ok (c_GetFeatures (api rt h) g) (\<lambda>e. Errorf ''check daemon profile update support'' [e])
          (\<lambda>f g. if DisableUpdateSettings f then (Inr (), g)
                 else
                   on_done (c_UpdateProfile (api rt h) (daemonUpdateProfileRequest settings) g)
                     (\<lambda>e. Errorf ''update daemon profile from NetworkManager settings'' [e])
                     (\<lambda>g. (Inr (), g))))"

subsection \<open>Prompts\<close>

definition setupKeyRequiredMessage :: string where
  "setupKeyRequiredMessage = ''NetBird setup key required.''"

definition ssoRequiredMessage :: string where
  "ssoRequiredMessage = ''NetBird SSO login required.''"

definition formatPromptHint :: "string \<Rightarrow> string \<Rightarrow> string" where
  "formatPromptHint key v = key @ ''='' @ v"

definition setupKeyPromptHints :: "64 word \<Rightarrow> string list" where
  "setupKeyPromptHints idn =
     [''setup-key'', formatPromptHint netbirdPromptActivationID (formatActivationID idn)]"

definition ssoPromptHints :: "64 word \<Rightarrow> login_response \<Rightarrow> string list" where
  "ssoPromptHints idn response =
     [formatPromptHint netbirdPromptActivationID (formatActivationID idn),
      formatPromptHint netbirdSSOHint ''true'',
      netbirdSSOContinue] @
     (if VerificationURI response \<noteq> []
      then [formatPromptHint netbirdSSOVerificationURIHint (VerificationURI response)] else []) @
     (if VerificationURIComplete response \<noteq> []
      then [formatPromptHint netbirdSSOVerificationURIComplete (VerificationURIComplete response)]
      else []) @
     (if UserCode response \<noteq> []
      then [formatPromptHint netbirdSSOUserCodeHint (UserCode response)] else [])"

definition formatSSOLoginBanner :: "login_response \<Rightarrow> string" where
  "formatSSOLoginBanner response =
     join '' ''
       ([''NetBird SSO login required.''] @
        (if VerificationURIComplete response \<noteq> [] then [''Open: '' @ VerificationURIComplete response]
         else if VerificationURI response \<noteq> [] then [''Open: '' @ VerificationURI response] else []) @
        (if UserCode response \<noteq> [] then [''Code: '' @ UserCode response] else []))"

definition mergePromptSettings :: "activationSettings \<Rightarrow> activationSettings \<Rightarrow> activationSettings" where
  "mergePromptSettings current delivered_settings =
     (if s_SetupKey delivered_settings \<noteq> []
      then current\<lparr>s_SetupKey := s_SetupKey delivered_settings\<rparr> else current)"

definition blocked :: "('h, 'd) runtime \<Rightarrow> ('h, 'd) go \<Rightarrow> ('h, 'd) go" where
  "blocked rt = (\<lambda>(log, s). (log, rt_block rt s))"

text \<open>
  The \<open>select\<close> of \<open>waitForSetupKeySecret\<close>: the value in the channel, unless there is none or the
  branch of the context's end is taken. Receiving empties the channel.
\<close>

definition receive_or_done ::
  "('h, 'd) runtime \<Rightarrow> nat \<Rightarrow> ('h, 'd) go \<Rightarrow> activationSettings option \<times> ('h, 'd) go" where
  "receive_or_done rt ch g =
     (case blocked rt g of
        (log, s) \<Rightarrow>
          if rt_done rt s then (None, (log, s))
          else (delivered s ch, (log, s\<lparr>delivered := (delivered s)(ch := None)\<rparr>)))"

definition waitForSetupKeySecret ::
  "('h, 'd) runtime \<Rightarrow> 64 word \<Rightarrow> activationSettings \<Rightarrow> ('h, 'd) go
     \<Rightarrow> (gerr + activationSettings) \<times> ('h, 'd) go" where
  "waitForSetupKeySecret rt idn settings g0 =
     (case locked rt new_channel g0 of (ch, g1) \<Rightarrow>
      case locked rt (registerActivationPrompt
             \<lparr>prompt_activationID = idn, prompt_kind = PromptSetupKey, prompt_result = Some ch\<rparr>) g1 of
        (False, g2) \<Rightarrow> (Inl (Sentinel ErrPromptUnavailable), g2)
      | (True, g2) \<Rightarrow>
          (case receive_or_done rt ch
                  (snd (EmitSecretsRequired rt setupKeyRequiredMessage (setupKeyPromptHints idn) g2)) of
             (Some x, g3) \<Rightarrow>
               (let merged = mergePromptSettings settings x
                in if trim_space (s_SetupKey merged) = [] then (Inl (Sentinel ErrMissingSetupKey), g3)
                   else (Inr merged, g3))
           | (None, g3) \<Rightarrow>
               (Inl (Errorf ''timeout waiting for setup-key secret'' [Sentinel ErrContextDone]), g3)))"

definition startSSOPrompt ::
  "('h, 'd) runtime \<Rightarrow> 64 word \<Rightarrow> login_response \<Rightarrow> ('h, 'd) go \<Rightarrow> ('h, 'd) go" where
  "startSSOPrompt rt idn response g =
     (case locked rt (registerActivationPrompt
             \<lparr>prompt_activationID = idn, prompt_kind = PromptSSO, prompt_result = None\<rparr>) g of
        (False, g) \<Rightarrow> g
      | (True, g) \<Rightarrow> snd (EmitSecretsRequired rt ssoRequiredMessage (ssoPromptHints idn response) g))"

subsection \<open>Authentication\<close>

definition waitSSO ::
  "('h, 'd) runtime \<Rightarrow> activationAttempt \<Rightarrow> 'h \<Rightarrow> activationSettings \<Rightarrow> login_response \<Rightarrow> ('h, 'd) go
     \<Rightarrow> (gerr + bool) \<times> ('h, 'd) go" where
  "waitSSO rt att h settings response g =
     (case c_WaitSSOLogin (api rt h)
             \<lparr>wait_UserCode = UserCode response,
              wait_Hostname = login_Hostname (daemonLoginRequest (rt_os rt) settings)\<rparr> g of
        (Inr _, g) \<Rightarrow> (Inr True, g)
      | (Inl err, (log, s)) \<Rightarrow>
          if (rt_expired rt s \<or> attempt_ctx att \<in> cancelled s) \<and> attempt_ctx att \<notin> cancelled s
          then (Inl (Errorf ''timeout waiting for SSO login'' [err]), (log, s))
          else (Inl err, (log, s)))"

definition loginAndWait ::
  "('h, 'd) runtime \<Rightarrow> activationAttempt \<Rightarrow> 'h \<Rightarrow> activationSettings \<Rightarrow> ('h, 'd) go
     \<Rightarrow> (gerr + bool) \<times> ('h, 'd) go" where
  "loginAndWait rt att h settings g =
     on_ok (c_Login (api rt h) (daemonLoginRequest (rt_os rt) settings) g) (\<lambda>e. e)
       (\<lambda>response g.
          if \<not> NeedsSSOLogin response then (Inr False, g)
          else if \<not> attempt_interactive att then (Inl (Sentinel ErrInteractiveSSONeeded), g)
          else
            (let g1 = snd (EmitLoginBanner rt (formatSSOLoginBanner response) g);
                 g2 = startSSOPrompt rt (attempt_id att) response g1
             in waitSSO rt att h settings response g2))"

definition authenticate ::
  "('h, 'd) runtime \<Rightarrow> activationAttempt \<Rightarrow> 'h \<Rightarrow> activationSettings \<Rightarrow> ('h, 'd) go
     \<Rightarrow> (gerr + bool) \<times> ('h, 'd) go" where
  "authenticate rt att h settings g =
     (if \<not> shouldLogin settings (attempt_interactive att) then (Inr False, g)
      else if s_AuthMode settings = ''setup-key'' \<and> trim_space (s_SetupKey settings) = []
      then
        (if \<not> attempt_interactive att then (Inl (Sentinel ErrMissingSetupKey), g)
         else
           on_ok (waitForSetupKeySecret rt (attempt_id att) settings g) (\<lambda>e. e)
             (\<lambda>settings' g. loginAndWait rt att h settings' g))
      else loginAndWait rt att h settings g)"

subsection \<open>Waiting until the daemon is ready\<close>

definition readyWaitError :: "gerr option \<Rightarrow> string \<Rightarrow> gerr" where
  "readyWaitError lastErr lastMessage =
     (case lastErr of
        Some e \<Rightarrow> Errorf ''timeout waiting for netbird ready (last error)'' [Sentinel ErrContextDone]
      | None \<Rightarrow>
          if lastMessage \<noteq> []
          then Errorf (''timeout waiting for netbird ready (last status: '' @ lastMessage @ '')'')
                 [Sentinel ErrContextDone]
          else Errorf ''timeout waiting for netbird ready'' [Sentinel ErrContextDone])"

text \<open>
  The loop of \<open>waitForReady\<close>. Its argument is the number of ticks that the \<open>select\<close> takes before it
  takes the end of the context, so every terminating run of the loop is the value at one number.
\<close>

fun ready_loop ::
  "('h, 'd) runtime \<Rightarrow> 'h \<Rightarrow> nat \<Rightarrow> gerr option \<Rightarrow> string \<Rightarrow> ('h, 'd) go \<Rightarrow> (gerr + unit) \<times> ('h, 'd) go" where
  "ready_loop rt h ticks lastErr lastMessage g =
     (case c_Status (api rt h) full_peer_status g of
        (Inl err, g) \<Rightarrow>
          (case ticks of
             0 \<Rightarrow> (Inl (readyWaitError (Some err) lastMessage), blocked rt g)
           | Suc n \<Rightarrow> ready_loop rt h n (Some err) lastMessage (blocked rt g))
      | (Inr resp, g) \<Rightarrow>
          (let mapped = Map_status resp
           in if mapping_Ready mapped then (Inr (), g)
              else if mapping_Failed mapped
              then (Inl (Errorf (''daemon reported failure while connecting: '' @ mapped_Message mapped) []), g)
              else
                (case ticks of
                   0 \<Rightarrow> (Inl (readyWaitError lastErr (mapped_Message mapped)), blocked rt g)
                 | Suc n \<Rightarrow> ready_loop rt h n lastErr (mapped_Message mapped) (blocked rt g))))"

declare ready_loop.simps [simp del]

definition waitForReady :: "('h, 'd) runtime \<Rightarrow> 'h \<Rightarrow> ('h, 'd) go \<Rightarrow> (gerr + unit) \<times> ('h, 'd) go" where
  "waitForReady rt h g = ready_loop rt h (rt_ticks rt (snd g)) None [] g"

subsection \<open>The configuration sent to NetworkManager\<close>

definition brackets :: string where
  "brackets = ''[]''"

definition networkManagerGatewayHost :: "('h, 'd) runtime \<Rightarrow> string \<Rightarrow> string" where
  "networkManagerGatewayHost rt url =
     (let rawURL = trim_space url;
          hostname = (\<lambda>u. case rt_url_hostname rt u of None \<Rightarrow> [] | Some h \<Rightarrow> trim_space h)
      in if rawURL = [] then []
         else if hostname rawURL \<noteq> [] then trim_set brackets (hostname rawURL)
         else if hostname (''//'' @ rawURL) \<noteq> [] then trim_set brackets (hostname (''//'' @ rawURL))
         else
           (case rt_split_host rt rawURL of
              Some host \<Rightarrow> trim_set brackets (trim_space host)
            | None \<Rightarrow> trim_set brackets rawURL))"

definition is_4in6 :: "8 word list \<Rightarrow> bool" where
  "is_4in6 b \<longleftrightarrow> take 12 b = replicate 10 0 @ [255, 255]"

fun addr_Unmap :: "netip_addr \<Rightarrow> netip_addr" where
  "addr_Unmap (Addr6 b zone) = (if is_4in6 b then Addr4 (drop 12 b) else Addr6 b zone)"
| "addr_Unmap a = a"

fun addr_IsUnspecified :: "netip_addr \<Rightarrow> bool" where
  "addr_IsUnspecified AddrInvalid = False"
| "addr_IsUnspecified (Addr4 b) = (b = replicate 4 0)"
| "addr_IsUnspecified (Addr6 b zone) = (b = replicate 16 0 \<and> zone = [])"

definition big_endian_uint32 :: "8 word list \<Rightarrow> 32 word" where
  "big_endian_uint32 b = foldl (\<lambda>n x. push_bit 8 n + ucast x) 0 b"

definition gatewayVariantForAddr :: "netip_addr \<Rightarrow> gval option" where
  "gatewayVariantForAddr a =
     (case addr_Unmap a of
        AddrInvalid \<Rightarrow> None
      | Addr4 b \<Rightarrow> if addr_IsUnspecified (Addr4 b) then None else Some (VUint32 (big_endian_uint32 b))
      | Addr6 b zone \<Rightarrow>
          if addr_IsUnspecified (Addr6 b zone) then None
          else Some (VBytes (map (\<lambda>x. char_of (unat x)) b)))"

fun first_gateway :: "netip_addr list \<Rightarrow> gval option" where
  "first_gateway [] = None"
| "first_gateway (a # as) =
     (case gatewayVariantForAddr a of Some v \<Rightarrow> Some v | None \<Rightarrow> first_gateway as)"

definition networkManagerGatewayVariant ::
  "('h, 'd) runtime \<Rightarrow> string \<Rightarrow> ('h, 'd) go \<Rightarrow> (gerr + gval) \<times> ('h, 'd) go" where
  "networkManagerGatewayVariant rt rawURL g =
     (let host = networkManagerGatewayHost rt rawURL
      in if host = []
         then (Inl (Errorf ''management-url or admin-url is required for NetworkManager VPN gateway metadata'' []), g)
         else
           (case rt_parse_addr rt host of
              Some addr \<Rightarrow>
                (case gatewayVariantForAddr addr of
                   Some v \<Rightarrow> (Inr v, g)
                 | None \<Rightarrow>
                     (Inl (Errorf (''management-url host is not a usable NetworkManager VPN gateway address: '' @ host) []), g))
            | None \<Rightarrow>
                (case g of (log, s) \<Rightarrow>
                   (case rt_lookup rt host s of
                      (Inl err, s) \<Rightarrow>
                        (Inl (Errorf (''resolve management-url host for NetworkManager VPN gateway metadata: '' @ host) [err]),
                         (log, s))
                    | (Inr addrs, s) \<Rightarrow>
                        (case first_gateway addrs of
                           Some v \<Rightarrow> (Inr v, (log, s))
                         | None \<Rightarrow>
                             (Inl (Errorf (''resolve management-url host: no usable IP address: '' @ host) []),
                              (log, s)))))))"

text \<open>The getters of a nil configuration return empty strings, so nil and empty need no distinction here.\<close>

definition networkManagerConfigMetadata ::
  "('h, 'd) runtime \<Rightarrow> 'h \<Rightarrow> profile_ref \<Rightarrow> activationSettings \<Rightarrow> ('h, 'd) go
     \<Rightarrow> (string \<times> string) \<times> ('h, 'd) go" where
  "networkManagerConfigMetadata rt h prof settings g =
     (let interfaceName = trim_space (s_InterfaceName settings);
          gateway0 = trim_space (s_ManagementURL settings);
          gatewayURL = (if gateway0 = [] then trim_space (s_AdminURL settings) else gateway0)
      in if interfaceName \<noteq> [] \<and> gatewayURL \<noteq> [] then ((interfaceName, gatewayURL), g)
         else
           (case c_GetConfig (api rt h) prof g of
              (Inl err, g) \<Rightarrow> ((interfaceName, gatewayURL), g)
            | (Inr None, g) \<Rightarrow> ((interfaceName, gatewayURL), g)
            | (Inr (Some config), g) \<Rightarrow>
                (let interface' = (if interfaceName = []
                                   then normalizeInterfaceName (config_InterfaceName config)
                                   else interfaceName);
                     gateway1 = (if gatewayURL = [] then trim_space (config_ManagementUrl config)
                                 else gatewayURL);
                     gateway2 = (if gateway1 = [] then trim_space (config_AdminURL config) else gateway1)
                 in ((interface', gateway2), g))))"

definition networkManagerConfig :: "string \<Rightarrow> gval \<Rightarrow> variant_map" where
  "networkManagerConfig interfaceName gateway =
     [(''gateway'', gateway), (''has-ip4'', VBool False), (''has-ip6'', VBool False)] @
     (if interfaceName \<noteq> [] then [(''tundev'', VString interfaceName)] else [])"

definition emitNetworkManagerConfig ::
  "('h, 'd) runtime \<Rightarrow> 'h \<Rightarrow> profile_ref \<Rightarrow> activationSettings \<Rightarrow> ('h, 'd) go
     \<Rightarrow> (gerr + unit) \<times> ('h, 'd) go" where
  "emitNetworkManagerConfig rt h prof settings g =
     (case networkManagerConfigMetadata rt h prof settings g of
        ((interfaceName, gatewayURL), g) \<Rightarrow>
          on_ok (networkManagerGatewayVariant rt gatewayURL g) (\<lambda>e. e)
            (\<lambda>gateway g.
               on_done (EmitConfig rt (networkManagerConfig interfaceName gateway) g) (\<lambda>e. e)
                 (\<lambda>g. (Inr (), g))))"

subsection \<open>An activation\<close>

record activationStatus =
  success :: bool
  daemonUp :: bool

definition newStatus :: activationStatus where
  "newStatus = \<lparr>success = False, daemonUp = False\<rparr>"

text \<open>
  \<open>or_fail\<close>: an error ends the activation (\<open>failActivation\<close> and an early return, with the status and the client
  the deferred \<open>finishActivationAttempt\<close> then sees); a result is handed on.
\<close>

definition or_fail ::
  "('h, 'd) runtime \<Rightarrow> (gerr \<Rightarrow> plugin_failure) \<Rightarrow> (gerr \<Rightarrow> gerr) \<Rightarrow> activationStatus \<times> 'h option
     \<Rightarrow> (gerr + 'a) \<times> ('h, 'd) go
     \<Rightarrow> ('a \<Rightarrow> ('h, 'd) go \<Rightarrow> (activationStatus \<times> 'h option) \<times> ('h, 'd) go)
     \<Rightarrow> (activationStatus \<times> 'h option) \<times> ('h, 'd) go" where
  "or_fail rt failure wrap leaving call nxt =
     (case call of
        (Inl e, g) \<Rightarrow> (leaving, failActivation rt (failure e) (wrap e) g)
      | (Inr x, g) \<Rightarrow> nxt x g)"

definition classifyUpFailure :: "gerr \<Rightarrow> plugin_failure" where
  "classifyUpFailure err =
     (if errors_is err ErrAuthenticationRequired then PluginFailureLoginFailed
      else PluginFailureConnectFailed)"

definition error_only :: "gerr option \<times> 's \<Rightarrow> (gerr + unit) \<times> 's" where
  "error_only call = on_done call (\<lambda>e. e) (\<lambda>g. (Inr (), g))"

text \<open>From \<open>client.Up\<close> on; \<open>resolved\<close> is the resolved profile.\<close>

definition bringUp ::
  "('h, 'd) runtime \<Rightarrow> activationAttempt \<Rightarrow> 'h \<Rightarrow> profile_ref \<Rightarrow> activationSettings \<Rightarrow> ('h, 'd) go
     \<Rightarrow> (activationStatus \<times> 'h option) \<times> ('h, 'd) go" where
  "bringUp rt att h resolved settings g =
     or_fail rt classifyUpFailure (\<lambda>e. e) (newStatus, Some h)
       (error_only (c_Up (api rt h) resolved g))
       (\<lambda>_ g. let up = newStatus\<lparr>daemonUp := True\<rparr>
              in or_fail rt (\<lambda>_. PluginFailureConnectFailed) (\<lambda>e. e) (up, Some h) (waitForReady rt h g)
                   (\<lambda>_ g. or_fail rt (\<lambda>_. PluginFailureBadIPConfig) (\<lambda>e. e) (up, Some h)
                      (emitNetworkManagerConfig rt h resolved settings g)
                      (\<lambda>_ g. case locked rt (completeActivation (attempt_ctx att) h resolved) g of
                               (None, g) \<Rightarrow> ((up, Some h), g)
                             | (Some sid, g) \<Rightarrow>
                                 ((up\<lparr>success := True\<rparr>, Some h),
                                  snd (setStateForActiveSession rt sid ServiceStateStarted g)))))"

definition activate ::
  "('h, 'd) runtime \<Rightarrow> activationAttempt \<Rightarrow> ('h, 'd) go
     \<Rightarrow> (activationStatus \<times> 'h option) \<times> ('h, 'd) go" where
  "activate rt att g =
     (let settings = mergeDetails (parseActivationSettings (attempt_connection att)) (attempt_details att)
      in if \<not> isAuthModeValid settings
         then ((newStatus, None),
               failActivation rt PluginFailureLoginFailed
                 (Errorf (''unsupported auth mode '' @ s_AuthMode settings) []) g)
         else if s_AuthMode settings = ''sso'' \<and> \<not> attempt_interactive att
         then ((newStatus, None),
               failActivation rt PluginFailureLoginFailed (Sentinel ErrInteractiveSSONeeded) g)
         else
           or_fail rt (\<lambda>_. PluginFailureConnectFailed) (\<lambda>e. Errorf ''connect to netbird daemon'' [e])
             (newStatus, None) (new_client rt g)
             (\<lambda>h g.
                or_fail rt (\<lambda>_. PluginFailureConnectFailed) (\<lambda>e. e) (newStatus, Some h)
                  (prepareDaemonProfile rt h settings g)
                     (\<lambda>settings g.
                        or_fail rt (\<lambda>_. PluginFailureLoginFailed) (\<lambda>e. e) (newStatus, Some h)
                          (authenticate rt att h settings g)
                          (\<lambda>waitedForSSO g.
                             or_fail rt (\<lambda>_. PluginFailureConnectFailed) (\<lambda>e. e) (newStatus, Some h)
                               (updateDaemonProfile rt h settings g)
                               (\<lambda>_ g.
                                  or_fail rt (\<lambda>_. PluginFailureConnectFailed) (\<lambda>e. e) (newStatus, Some h)
                                    (Resolve (api rt h) (s_Profile settings) g)
                                    (\<lambda>resolved g. bringUp rt att h resolved settings g))))))"

definition finishActivationAttempt ::
  "('h, 'd) runtime \<Rightarrow> activationAttempt \<Rightarrow> activationStatus \<Rightarrow> 'h option \<Rightarrow> ('h, 'd) go \<Rightarrow> ('h, 'd) go" where
  "finishActivationAttempt rt att status client g0 =
     (let g1 = locked_do rt (clearPromptForActivation (attempt_id att)) g0;
          g2 = (case client of
                  Some h \<Rightarrow> if \<not> success status \<and> daemonUp status then snd (c_Down (api rt h) g1) else g1
                | None \<Rightarrow> g1);
          g3 = locked_do rt (cancel_ctx (attempt_ctx att)) g2
      in if success status then g3
         else
           (let g4 = locked_do rt finishFailedActivation g3
            in case client of Some h \<Rightarrow> snd (c_Close (api rt h) g4) | None \<Rightarrow> g4))"

definition runActivation :: "('h, 'd) runtime \<Rightarrow> activationAttempt \<Rightarrow> ('h, 'd) go \<Rightarrow> ('h, 'd) go" where
  "runActivation rt att g =
     (case activate rt att g of
        ((status, client), g) \<Rightarrow> finishActivationAttempt rt att status client g)"

section \<open>What a goroutine does\<close>

text \<open>The signals by kind, and the calls of each part of an activation.\<close>

definition state_signals :: "action set" where
  "state_signals = {EmitSignal (StateChanged c) | c. True} \<union> {EmitSignal (PropertiesChanged m) | m. True}"

definition prompt_signals :: "action set" where
  "prompt_signals = {EmitSignal (SecretsRequired m hs) | m hs. True} \<union> {EmitSignal (LoginBanner b) | b. True}"

definition profile_calls :: "action set" where
  "profile_calls = read_calls \<union> range AddProfile \<union> range SwitchProfile"

definition auth_calls :: "action set" where
  "auth_calls = prompt_signals \<union> range Login \<union> range WaitSSOLogin"

lemmas budget_defs = state_signals_def prompt_signals_def profile_calls_def auth_calls_def read_calls_def

lemma go_simps [simp]:
  "emit rt sig (log, s) = (rt_emit rt sig s, (log @ [EmitSignal sig], s))"
  "locked_do rt k (log, s) = (log, k (rt_meanwhile rt s))"
  "locked rt f (log, s) = (fst (f (rt_meanwhile rt s)), (log, snd (f (rt_meanwhile rt s))))"
  "blocked rt (log, s) = (log, rt_block rt s)"
  "new_client rt (log, s) = (fst (rt_factory rt s), (log @ [NewClient], snd (rt_factory rt s)))"
  by (simp_all add: emit_def locked_do_def locked_def blocked_def new_client_def logged_def Let_def
      split: prod.split)

lemma emitStateChanged_log [simp]:
  "emitStateChanged rt st (log, s) =
     (log @ [EmitSignal (StateChanged (state_code st)),
             EmitSignal (PropertiesChanged [(''State'', VUint32 (state_code st))])], s)"
  by (simp add: emitStateChanged_def)

lemma setState_log:
  "\<exists>cs. setState rt st (log, s) = (log @ cs, snd (setStateValue st (rt_meanwhile rt s))) \<and>
        set cs \<subseteq> state_signals"
  by (auto simp: setState_def state_signals_def)

lemma budget_set_state: "call_budget (\<lambda>g. ((), setState rt st g)) state_signals"
proof
  fix log d r log' d'
  assume "((), setState rt st (log, d)) = (r, log', d')"
  then show "\<exists>cs. log' = log @ cs \<and> set cs \<subseteq> state_signals"
    using setState_log [of rt st log d] by auto
qed

lemma budget_emit: "EmitSignal sig \<in> A \<Longrightarrow> call_budget (emit rt sig) A"
  by (auto simp: call_budget_def)

lemma budget_locked: "call_budget (locked rt f) A"
  by (auto simp: call_budget_def)

interpretation session_state: call_budget "setStateForActiveSession rt sid st" state_signals
  for rt :: "('h, 'd) runtime" and sid st
  by unfold_locales
    (auto simp: setStateForActiveSession_def state_signals_def split: prod.splits option.splits if_splits)

interpretation daemon_profile: call_budget "prepareDaemonProfile rt h settings" profile_calls
  for rt :: "('h, 'd) runtime" and h settings
proof -
  have "call_budget (PrepareActivation (api rt h) p) profile_calls" for p
    unfolding api_def by (rule budget_mono [OF prepare.call_budget_axioms]) (auto simp: profile_calls_def)
  moreover have "call_budget (EnsureExists (api rt h) p) profile_calls" for p
    unfolding api_def
    by (rule budget_mono [OF ensure.call_budget_axioms]) (auto simp: profile_calls_def read_calls_def)
  moreover have "call_budget (switchDaemonProfile rt h p) profile_calls" for p
    unfolding switchDaemonProfile_def api_def by (intro budget_intros budget_recording) (simp add: profile_calls_def)
  ultimately show "call_budget (prepareDaemonProfile rt h settings) profile_calls"
    unfolding prepareDaemonProfile_def Let_def by (intro budget_intros budget_recording)
qed

interpretation daemon_update: call_budget "updateDaemonProfile rt h settings" "insert GetFeatures (range UpdateProfile)"
  for rt :: "('h, 'd) runtime" and h settings
  unfolding updateDaemonProfile_def api_def by (intro budget_intros budget_recording) auto

lemma budget_EmitLoginBanner: "call_budget (EmitLoginBanner rt b) auth_calls"
  by (simp add: EmitLoginBanner_def budget_emit auth_calls_def prompt_signals_def)

lemma budget_EmitSecretsRequired: "call_budget (EmitSecretsRequired rt m hs) auth_calls"
  by (simp add: EmitSecretsRequired_def budget_emit auth_calls_def prompt_signals_def)

lemma budget_wait_setup_key: "call_budget (waitForSetupKeySecret rt idn settings) auth_calls"
proof
  fix log d r log' d'
  assume "waitForSetupKeySecret rt idn settings (log, d) = (r, log', d')"
  then show "\<exists>cs. log' = log @ cs \<and> set cs \<subseteq> auth_calls"
    by (auto simp: waitForSetupKeySecret_def EmitSecretsRequired_def receive_or_done_def auth_calls_def
        prompt_signals_def Let_def split: bool.splits if_splits option.splits)
qed

lemma budget_start_sso: "call_budget (\<lambda>g. ((), startSSOPrompt rt idn response g)) auth_calls"
  by (auto simp: call_budget_def startSSOPrompt_def EmitSecretsRequired_def auth_calls_def
      prompt_signals_def split: bool.splits)

lemma budget_wait_sso: "call_budget (waitSSO rt att h settings response) auth_calls"
  by (auto simp: call_budget_def waitSSO_def api_def auth_calls_def split: prod.splits sum.splits if_splits)

lemma budget_login: "call_budget (loginAndWait rt att h settings) auth_calls"
proof -
  have prompt: "call_budget (\<lambda>g. waitSSO rt att h settings response (startSSOPrompt rt i response g)) auth_calls"
    for response i
    using budget_bind [OF budget_start_sso budget_wait_sso] by simp
  have "call_budget (\<lambda>g. waitSSO rt att h settings response
      (startSSOPrompt rt i response (snd (EmitLoginBanner rt b g)))) auth_calls" for response i b
    using budget_bind [OF budget_EmitLoginBanner prompt] by (simp add: case_prod_beta)
  then show ?thesis
    unfolding loginAndWait_def Let_def api_def
    by (intro budget_intros budget_recording) (auto simp: auth_calls_def)
qed

interpretation authentication: call_budget "authenticate rt att h settings" auth_calls
  for rt :: "('h, 'd) runtime" and att h settings
  unfolding authenticate_def by (intro budget_intros budget_recording budget_login budget_wait_setup_key)

lemma api_Status:
  "c_Status (api rt h) opts (log, s) =
     (fst (c_Status (rt_api rt h) opts s), (log @ [Status opts], snd (c_Status (rt_api rt h) opts s)))"
  by (simp add: api_def recording_def logged_def Let_def split: prod.split)

lemma ready_loop_calls:
  "\<exists>n \<le> ticks. fst (snd (ready_loop rt h ticks lastErr lastMessage (log, s))) =
     log @ replicate (Suc n) (Status full_peer_status)"
proof (induction ticks arbitrary: lastErr lastMessage log s)
  case 0
  then show ?case
    by (subst ready_loop.simps) (auto simp: api_Status Let_def split: sum.split)
next
  case (Suc ticks)
  have more: "\<exists>n \<le> Suc ticks. fst (snd (ready_loop rt h ticks e m (log @ [Status full_peer_status], s'))) =
      log @ replicate (Suc n) (Status full_peer_status)" for e m s'
  proof -
    from Suc.IH [of e m "log @ [Status full_peer_status]" s'] obtain n where
      "n \<le> ticks" "fst (snd (ready_loop rt h ticks e m (log @ [Status full_peer_status], s'))) =
        log @ replicate (Suc (Suc n)) (Status full_peer_status)"
      by auto
    then show ?thesis
      by (intro exI [of _ "Suc n"]) simp
  qed
  have "\<exists>n \<le> Suc ticks. log @ [Status full_peer_status] = log @ replicate (Suc n) (Status full_peer_status)"
    by (rule exI [of _ 0]) simp
  with more show ?case
    by (subst ready_loop.simps) (auto simp: api_Status Let_def split: sum.split)
qed

interpretation ready: call_budget "waitForReady rt h" "{Status full_peer_status}"
  for rt :: "('h, 'd) runtime" and h
proof unfold_locales
  fix log d r log' d'
  assume "waitForReady rt h (log, d) = (r, log', d')"
  then show "\<exists>cs. log' = log @ cs \<and> set cs \<subseteq> {Status full_peer_status}"
    using ready_loop_calls [of "rt_ticks rt d" rt h None "[]" log d]
    by (auto simp: waitForReady_def)
qed

lemma budget_metadata:
  "call_budget (networkManagerConfigMetadata rt h prof settings) (range GetConfig)"
  by (auto simp: call_budget_def networkManagerConfigMetadata_def api_def Let_def
      split: if_splits prod.splits sum.splits option.splits)

lemma budget_gateway: "call_budget (networkManagerGatewayVariant rt url) A"
  by (auto simp: call_budget_def networkManagerGatewayVariant_def Let_def
      split: if_splits prod.splits sum.splits option.splits)

lemma emitNetworkManagerConfig_log:
  assumes "emitNetworkManagerConfig rt h prof settings (log, s) = (r, log', s')"
  shows "\<exists>cs. set cs \<subseteq> range GetConfig \<and>
    (r \<in> range Inl \<and> log' = log @ cs \<or> (\<exists>c. log' = log @ cs @ [EmitSignal (Config c)]))"
proof -
  obtain iface gw log1 s1 where 1: "networkManagerConfigMetadata rt h prof settings (log, s) = ((iface, gw), log1, s1)"
    by (metis prod.exhaust)
  obtain v log2 s2 where 2: "networkManagerGatewayVariant rt gw (log1, s1) = (v, log2, s2)"
    by (metis prod.exhaust)
  from call_budget.budget [OF budget_metadata 1] call_budget.budget [OF budget_gateway [of rt gw "{}"] 2]
  obtain cs where "log2 = log @ cs" "set cs \<subseteq> range GetConfig"
    by auto
  with assms 1 2 show ?thesis
    by (cases v) (auto simp: emitNetworkManagerConfig_def EmitConfig_def on_done_def split: option.splits)
qed

subsection \<open>The key actions of an activation\<close>

fun key_action :: "action \<Rightarrow> bool" where
  "key_action NewClient = True"
| "key_action (Up p) = True"
| "key_action Down = True"
| "key_action Close = True"
| "key_action (EmitSignal (Failure c)) = True"
| "key_action (EmitSignal (Config m)) = True"
| "key_action a = False"

definition key_trace :: "('h, 'd) go \<Rightarrow> action list" where
  "key_trace g = filter key_action (fst g)"

lemma key_trace_simp [simp]: "key_trace (log, s) = filter key_action log"
  by (simp add: key_trace_def)

lemma quiet_budget:
  "call_budget f A \<Longrightarrow> (\<And>a. a \<in> A \<Longrightarrow> \<not> key_action a) \<Longrightarrow> f g = (r, g') \<Longrightarrow> key_trace g' = key_trace g"
  using call_budget.keeps_filter [of f A "fst g" "snd g" r "fst g'" "snd g'" key_action]
  by (simp add: key_trace_def)

lemma quiet_sets:
  "a \<in> state_signals \<Longrightarrow> \<not> key_action a"
  "a \<in> profile_calls \<Longrightarrow> \<not> key_action a"
  "a \<in> auth_calls \<Longrightarrow> \<not> key_action a"
  "a \<in> insert GetFeatures (range UpdateProfile) \<Longrightarrow> \<not> key_action a"
  "a \<in> read_calls \<Longrightarrow> \<not> key_action a"
  "a \<in> {Status full_peer_status} \<Longrightarrow> \<not> key_action a"
  "a \<in> range GetConfig \<Longrightarrow> \<not> key_action a"
  by (auto simp: budget_defs)

lemma quiet_state: "key_trace (setState rt st g) = key_trace g"
  using quiet_budget [OF budget_set_state quiet_sets(1), where g = g and g' = "setState rt st g"] by simp

lemma quiet_steps:
  "setStateForActiveSession rt sid st g = (b, g') \<Longrightarrow> key_trace g' = key_trace g"
  "prepareDaemonProfile rt h settings g = (rp, g') \<Longrightarrow> key_trace g' = key_trace g"
  "authenticate rt att h settings g = (ra, g') \<Longrightarrow> key_trace g' = key_trace g"
  "updateDaemonProfile rt h settings g = (ru, g') \<Longrightarrow> key_trace g' = key_trace g"
  "Resolve (api rt h) p g = (rr, g') \<Longrightarrow> key_trace g' = key_trace g"
  "waitForReady rt h g = (rw, g') \<Longrightarrow> key_trace g' = key_trace g"
  by (rule quiet_budget [OF session_state.call_budget_axioms quiet_sets(1)]
        quiet_budget [OF daemon_profile.call_budget_axioms quiet_sets(2)]
        quiet_budget [OF authentication.call_budget_axioms quiet_sets(3)]
        quiet_budget [OF daemon_update.call_budget_axioms quiet_sets(4)]
        quiet_budget [OF resolve.call_budget_axioms [of "rt_api rt h" p, folded api_def] quiet_sets(5)]
        quiet_budget [OF ready.call_budget_axioms quiet_sets(6)];
      assumption)+

lemma locked_key [simp]: "key_trace (locked_do rt k g) = key_trace g"
  by (cases g) simp

lemma locked_result: "locked rt f g = (r, g') \<Longrightarrow> key_trace g' = key_trace g"
  by (cases g) auto

lemma fail_key:
  "key_trace (failActivation rt f e g) = key_trace g @ [EmitSignal (Failure (failure_code f))]"
  by (cases g) (simp add: failActivation_def quiet_state EmitFailure_def EmitLoginBanner_def)

lemma config_key:
  "emitNetworkManagerConfig rt h prof settings g = (r, g') \<Longrightarrow>
     r \<in> range Inl \<and> key_trace g' = key_trace g \<or> (\<exists>c. key_trace g' = key_trace g @ [EmitSignal (Config c)])"
proof -
  assume "emitNetworkManagerConfig rt h prof settings g = (r, g')"
  then obtain cs where "set cs \<subseteq> range GetConfig"
    "r \<in> range Inl \<and> fst g' = fst g @ cs \<or> (\<exists>c. fst g' = fst g @ cs @ [EmitSignal (Config c)])"
    using emitNetworkManagerConfig_log [of rt h prof settings "fst g" "snd g" r "fst g'" "snd g'"] by auto
  moreover from this have "filter key_action cs = []"
    using quiet_sets(7) by (auto simp: filter_empty_conv)
  ultimately show ?thesis
    by (auto simp: key_trace_def)
qed

lemma api_key:
  "c_Up (api rt h) p g = (ru, g') \<Longrightarrow> key_trace g' = key_trace g @ [Up p]"
  "key_trace (snd (c_Down (api rt h) g)) = key_trace g @ [Down]"
  "key_trace (snd (c_Close (api rt h) g)) = key_trace g @ [Close]"
  "new_client rt g = (rn, g') \<Longrightarrow> key_trace g' = key_trace g @ [NewClient]"
  by (cases g; auto simp: api_def recording_def logged_def Let_def split: prod.splits)+

text \<open>What the activation has done when it is left, with the status and the client it leaves.\<close>

inductive left_after :: "action list \<Rightarrow> activationStatus \<times> 'h option \<Rightarrow> bool" where
  left_early: "left_after [EmitSignal (Failure 0)] (newStatus, None)"
| left_no_client: "left_after [NewClient, EmitSignal (Failure 1)] (newStatus, None)"
| left_before_up: "c \<in> {0, 1} \<Longrightarrow> left_after [NewClient, EmitSignal (Failure c)] (newStatus, Some h)"
| left_up_failed: "c \<in> {0, 1} \<Longrightarrow>
    left_after [NewClient, Up p, EmitSignal (Failure c)] (newStatus, Some h)"
| left_not_ready: "c \<in> {1, 2} \<Longrightarrow>
    left_after [NewClient, Up p, EmitSignal (Failure c)] (newStatus\<lparr>daemonUp := True\<rparr>, Some h)"
| left_config_failed:
    "left_after [NewClient, Up p, EmitSignal (Config m), EmitSignal (Failure 2)]
       (newStatus\<lparr>daemonUp := True\<rparr>, Some h)"
| left_stopped: "left_after [NewClient, Up p, EmitSignal (Config m)] (newStatus\<lparr>daemonUp := True\<rparr>, Some h)"
| left_active: "left_after [NewClient, Up p, EmitSignal (Config m)]
    (newStatus\<lparr>daemonUp := True, success := True\<rparr>, Some h)"

definition leaves :: "(activationStatus \<times> 'h option) \<times> ('h, 'd) go \<Rightarrow> bool" where
  "leaves = (\<lambda>(leaving, g). left_after (key_trace g) leaving)"

lemma leavesI: "left_after (key_trace g) l \<Longrightarrow> leaves (l, g)"
  by (simp add: leaves_def)

lemma leaves_or_fail:
  assumes call: "\<And>r g. call = (r, g) \<Longrightarrow> key_trace g = t"
    and fail: "\<And>e. left_after (t @ [EmitSignal (Failure (failure_code (failure e)))]) l"
    and nxt: "\<And>x g. key_trace g = t \<Longrightarrow> leaves (nxt x g)"
  shows "leaves (or_fail rt failure wrap l call nxt)"
proof -
  obtain r g where "call = (r, g)"
    by (metis prod.exhaust)
  with call have "call = (r, g)" "key_trace g = t"
    by simp_all
  then show ?thesis
    using fail nxt by (cases r) (simp_all add: or_fail_def leaves_def fail_key)
qed

lemma classify_code: "failure_code (classifyUpFailure e) \<in> {0, 1}"
  by (simp add: classifyUpFailure_def)

lemma error_only_key:
  "error_only (c_Up (api rt h) p g) = (r, g') \<Longrightarrow> key_trace g' = key_trace g @ [Up p]"
  using api_key(1) [of rt h p g]
  by (cases "c_Up (api rt h) p g") (auto simp: error_only_def on_done_def split: option.splits)

lemma leaves_config:
  assumes "key_trace g = [NewClient, Up p]"
  shows "leaves (or_fail rt (\<lambda>_. PluginFailureBadIPConfig) (\<lambda>e. e) (newStatus\<lparr>daemonUp := True\<rparr>, Some h)
     (emitNetworkManagerConfig rt h p settings g)
     (\<lambda>_ g. case locked rt (completeActivation (attempt_ctx att) h p) g of
        (None, g) \<Rightarrow> ((newStatus\<lparr>daemonUp := True\<rparr>, Some h), g)
      | (Some sid, g) \<Rightarrow> ((newStatus\<lparr>daemonUp := True, success := True\<rparr>, Some h),
           snd (setStateForActiveSession rt sid ServiceStateStarted g))))"
proof -
  obtain r g1 where emit: "emitNetworkManagerConfig rt h p settings g = (r, g1)"
    by (metis prod.exhaust)
  show ?thesis
  proof (cases "key_trace g1 = key_trace g")
    case True
    then obtain e where "r = Inl e"
      using config_key [OF emit] by auto
    then show ?thesis
      using True assms left_not_ready [of 2 p h] by (simp add: or_fail_def emit leaves_def fail_key)
  next
    case False
    then obtain m where g1: "key_trace g1 = [NewClient, Up p, EmitSignal (Config m)]"
      using config_key [OF emit] assms by auto
    obtain sid g2 where compl: "locked rt (completeActivation (attempt_ctx att) h p) g1 = (sid, g2)"
      by (metis prod.exhaust)
    have g2: "key_trace g2 = [NewClient, Up p, EmitSignal (Config m)]"
      using locked_result [OF compl] g1 by simp
    have "key_trace (snd (setStateForActiveSession rt sid ServiceStateStarted g2)) =
        [NewClient, Up p, EmitSignal (Config m)]" for sid
      using quiet_steps(1) [of rt sid ServiceStateStarted g2 b g3 for b g3] g2
      by (cases "setStateForActiveSession rt sid ServiceStateStarted g2") simp
    then show ?thesis
      using g1 g2 compl left_config_failed left_stopped left_active
      by (cases r) (auto simp: or_fail_def emit leaves_def fail_key split: option.split)
  qed
qed

lemma leaves_bringUp:
  assumes "key_trace g = [NewClient]"
  shows "leaves (bringUp rt att h p settings g)"
  unfolding bringUp_def Let_def
proof (rule leaves_or_fail [where t = "[NewClient, Up p]"])
  fix g1 :: "('a, 'b) go"
  assume "key_trace g1 = [NewClient, Up p]"
  then show "leaves (or_fail rt (\<lambda>_. PluginFailureConnectFailed) (\<lambda>e. e) (newStatus\<lparr>daemonUp := True\<rparr>, Some h)
      (waitForReady rt h g1)
      (\<lambda>_ g. or_fail rt (\<lambda>_. PluginFailureBadIPConfig) (\<lambda>e. e) (newStatus\<lparr>daemonUp := True\<rparr>, Some h)
         (emitNetworkManagerConfig rt h p settings g)
         (\<lambda>_ g. case locked rt (completeActivation (attempt_ctx att) h p) g of
            (None, g) \<Rightarrow> ((newStatus\<lparr>daemonUp := True\<rparr>, Some h), g)
          | (Some sid, g) \<Rightarrow> ((newStatus\<lparr>daemonUp := True, success := True\<rparr>, Some h),
              snd (setStateForActiveSession rt sid ServiceStateStarted g)))))"
    by (intro leaves_or_fail [where t = "[NewClient, Up p]"] leaves_config)
      (auto simp: quiet_steps(6) intro: left_not_ready [of 1, simplified])
qed (use assms classify_code in \<open>auto simp: error_only_key intro: left_up_failed\<close>)

lemma leaves_activate: "leaves (activate rt att ([], s))"
proof -
  have login: "left_after [EmitSignal (Failure (failure_code PluginFailureLoginFailed))] (newStatus, None)"
    using left_early by simp
  have early: "leaves ((newStatus, None), failActivation rt PluginFailureLoginFailed e ([], s))" for e
    using login by (intro leavesI) (simp add: fail_key)
  have connect: "left_after ([NewClient] @ [EmitSignal (Failure (failure_code PluginFailureConnectFailed))])
      (newStatus, Some h)"
    and login': "left_after ([NewClient] @ [EmitSignal (Failure (failure_code PluginFailureLoginFailed))])
      (newStatus, Some h)" for h
    using left_before_up [of 1 h] left_before_up [of 0 h] by simp_all
  have no_client: "left_after ([NewClient] @ [EmitSignal (Failure (failure_code PluginFailureConnectFailed))])
      (newStatus, None)"
    using left_no_client by simp
  have client: "leaves (or_fail rt (\<lambda>_. PluginFailureConnectFailed) (\<lambda>e. e) (newStatus, Some h)
      (prepareDaemonProfile rt h settings g)
      (\<lambda>settings g. or_fail rt (\<lambda>_. PluginFailureLoginFailed) (\<lambda>e. e) (newStatus, Some h)
         (authenticate rt att h settings g)
         (\<lambda>_ g. or_fail rt (\<lambda>_. PluginFailureConnectFailed) (\<lambda>e. e) (newStatus, Some h)
            (updateDaemonProfile rt h settings g)
            (\<lambda>_ g. or_fail rt (\<lambda>_. PluginFailureConnectFailed) (\<lambda>e. e) (newStatus, Some h)
               (Resolve (api rt h) (s_Profile settings) g)
               (\<lambda>resolved g. bringUp rt att h resolved settings g)))))"
    if "key_trace g = [NewClient]" for h settings g
    by (intro leaves_or_fail [where t = "[NewClient]"] connect login' leaves_bringUp)
      (use that in \<open>auto dest: quiet_steps\<close>)
  show ?thesis
    unfolding activate_def Let_def
    by (auto intro!: early leaves_or_fail [where t = "[NewClient]"] no_client client dest: api_key(4))
qed

lemma finish_key:
  "key_trace (finishActivationAttempt rt att st client g) =
     key_trace g @
     (if success st then []
      else (if client \<noteq> None \<and> daemonUp st then [Down] else []) @ (if client \<noteq> None then [Close] else []))"
  by (auto simp: finishActivationAttempt_def Let_def api_key split: option.split)

inductive_cases left_afterE: "left_after cs l"

section \<open>What an activation does to the service\<close>

text \<open>
  \<open>runtime_moves R rt\<close>: all that other goroutines and the daemon do, between two steps of a goroutine or
  during one of its calls, stays within \<open>R\<close>.
\<close>

definition runtime_moves ::
  "(('h, 'd) service \<Rightarrow> ('h, 'd) service \<Rightarrow> bool) \<Rightarrow> ('h, 'd) runtime \<Rightarrow> bool" where
  "runtime_moves R rt \<longleftrightarrow>
     (\<forall>s. R s (rt_meanwhile rt s)) \<and> (\<forall>s. R s (rt_block rt s)) \<and> moves R (rt_factory rt) \<and>
     (\<forall>h. client_moves R (rt_api rt h)) \<and> (\<forall>host. moves R (rt_lookup rt host))"

text \<open>A relation kept by all that happens around a goroutine and by a change of the state.\<close>

locale service_relation = run_relation R
  for R :: "('h, 'd) service \<Rightarrow> ('h, 'd) service \<Rightarrow> bool" +
  fixes rt :: "('h, 'd) runtime"
  assumes env: "runtime_moves R rt"
    and state_region: "R s (snd (setStateValue st s))"
begin

lemma behind_relation: "run_relation (behind R)"
  by unfold_locales (auto simp: behind_def intro: R_refl R_trans)

sublocale go: run_relation "behind R"
  by (rule behind_relation)

sublocale daemon: client_relation "behind R" "api rt h" for h
  using env by unfold_locales (simp add: api_def runtime_moves_def client_moves_recording)

lemma quiet: "R s (rt_meanwhile rt s)" "R s (rt_block rt s)"
  using env by (simp_all add: runtime_moves_def)

lemma moves_locked: "(\<And>s. R s (snd (f s))) \<Longrightarrow> moves (behind R) (locked rt f)"
  by (auto simp: moves_def behind_def intro: R_trans quiet)

lemma moves_locked_do: "(\<And>s. R s (k s)) \<Longrightarrow> behind R g (locked_do rt k g)"
  by (cases g) (auto simp: behind_def intro: R_trans quiet)

lemma moves_emit: "moves (behind R) (emit rt sig)"
  by (auto simp: moves_def behind_def R_refl)

lemma moves_state_changed: "behind R g (emitStateChanged rt st g)"
  by (cases g) (simp add: behind_def R_refl)

lemma moves_set_state: "behind R g (setState rt st g)"
  using setState_log [of rt st "fst g" "snd g"] R_trans [OF quiet(1) state_region]
  by (auto simp: behind_def)

lemma emits_behind:
  "behind R g (snd (EmitFailure rt f g))" "behind R g (snd (EmitLoginBanner rt b g))"
  "behind R g (snd (EmitSecretsRequired rt m hs g))" "behind R g (snd (EmitConfig rt config g))"
  by (cases g, simp add: behind_def EmitFailure_def EmitLoginBanner_def EmitSecretsRequired_def
      EmitConfig_def R_refl)+

lemma moves_fail: "behind R g (failActivation rt f e g)"
proof -
  have fail: "behind R g1 (setState rt ServiceStateStopped (snd (EmitFailure rt f g1)))" for g1
    by (rule go.R_trans [OF emits_behind(1) moves_set_state])
  show ?thesis
    unfolding failActivation_def Let_def
    by (cases "errors_is e ErrInteractiveSSONeeded"; simp only: if_True if_False)
      (rule go.R_trans [OF emits_behind(2) fail], rule fail)
qed

lemma moves_new_client: "moves (behind R) (new_client rt)"
  using env by (simp add: new_client_def runtime_moves_def moves_logged)

lemma moves_switch: "moves (behind R) (switchDaemonProfile rt h prof)"
  unfolding switchDaemonProfile_def by (intro go.moves_intros daemon.calls)

lemma moves_prepare: "moves (behind R) (prepareDaemonProfile rt h settings)"
  unfolding prepareDaemonProfile_def Let_def
  by (intro go.moves_intros daemon.PrepareActivation_moves daemon.EnsureExists_moves moves_switch)

lemma moves_update: "moves (behind R) (updateDaemonProfile rt h settings)"
  unfolding updateDaemonProfile_def by (intro go.moves_intros daemon.calls)

lemma moves_resolve: "moves (behind R) (Resolve (api rt h) p)"
  by (rule daemon.Resolve_moves)

end

text \<open>A relation that the regions of the goroutine of an activation keep too.\<close>

locale attempt_relation = service_relation R rt
  for R :: "('h, 'd) service \<Rightarrow> ('h, 'd) service \<Rightarrow> bool" and rt :: "('h, 'd) runtime" +
  fixes att :: activationAttempt
  assumes channel_region: "R s (snd (new_channel s))"
    and prompt_region: "prompt_activationID p = attempt_id att \<Longrightarrow> R s (snd (registerActivationPrompt p s))"
    and receive_region: "R s (s\<lparr>delivered := (delivered s)(ch := None)\<rparr>)"
begin

lemma moves_receive: "moves (behind R) (receive_or_done rt ch)"
  by (auto simp: moves_def behind_def receive_or_done_def intro: quiet R_trans [OF quiet(2) receive_region])

lemma moves_register:
  "prompt_activationID p = attempt_id att \<Longrightarrow> moves (behind R) (locked rt (registerActivationPrompt p))"
  by (intro moves_locked prompt_region)

lemma moves_wait_setup_key: "moves (behind R) (waitForSetupKeySecret rt (attempt_id att) settings)"
  unfolding moves_def
proof
  fix g
  obtain ch g1 where 1: "locked rt new_channel g = (ch, g1)"
    by (metis prod.exhaust)
  let ?p = "\<lparr>prompt_activationID = attempt_id att, prompt_kind = PromptSetupKey, prompt_result = Some ch\<rparr>"
  let ?emit = "\<lambda>g. snd (EmitSecretsRequired rt setupKeyRequiredMessage (setupKeyPromptHints (attempt_id att)) g)"
  obtain ok g2 where 2: "locked rt (registerActivationPrompt ?p) g1 = (ok, g2)"
    by (metis prod.exhaust)
  obtain x g3 where 3: "receive_or_done rt ch (?emit g2) = (x, g3)"
    by (metis prod.exhaust)
  have "behind R g g1"
    by (rule movesD [OF moves_locked 1]) (rule channel_region)
  moreover have "behind R g1 g2"
    by (rule movesD [OF moves_register 2]) simp
  moreover have "behind R g2 g3"
    by (rule go.R_trans [OF emits_behind(3) movesD [OF moves_receive 3]])
  ultimately have "behind R g g2" "behind R g g3"
    by (blast intro: go.R_trans)+
  then show "behind R g (snd (waitForSetupKeySecret rt (attempt_id att) settings g))"
    using 1 2 3 by (cases ok; cases x) (simp_all add: waitForSetupKeySecret_def Let_def)
qed

lemma moves_start_sso: "behind R g (startSSOPrompt rt (attempt_id att) response g)"
proof -
  let ?p = "\<lparr>prompt_activationID = attempt_id att, prompt_kind = PromptSSO, prompt_result = None\<rparr>"
  obtain ok g1 where 1: "locked rt (registerActivationPrompt ?p) g = (ok, g1)"
    by (metis prod.exhaust)
  then have "behind R g g1"
    by (rule movesD [OF moves_register, rotated]) simp
  with 1 show ?thesis
    using go.R_trans [OF _ emits_behind(3)] by (cases ok) (simp_all add: startSSOPrompt_def)
qed

lemma moves_wait_sso: "moves (behind R) (waitSSO rt att h settings response)"
  unfolding moves_def
proof
  fix g
  obtain r log s where 1: "c_WaitSSOLogin (api rt h) \<lparr>wait_UserCode = UserCode response,
      wait_Hostname = login_Hostname (daemonLoginRequest (rt_os rt) settings)\<rparr> g = (r, log, s)"
    by (metis prod.exhaust)
  have "behind R g (log, s)"
    by (rule movesD [OF daemon.calls(2) 1])
  then show "behind R g (snd (waitSSO rt att h settings response g))"
    using 1 by (cases r) (simp_all add: waitSSO_def)
qed

lemma moves_login: "moves (behind R) (loginAndWait rt att h settings)"
proof -
  have "behind R g (snd (waitSSO rt att h settings response (startSSOPrompt rt (attempt_id att) response
      (snd (EmitLoginBanner rt b g)))))" for response b g
    by (rule go.R_trans [OF emits_behind(2) go.R_trans [OF moves_start_sso moves_result [OF moves_wait_sso]]])
  then have "moves (behind R) (\<lambda>g. waitSSO rt att h settings response (startSSOPrompt rt (attempt_id att) response
      (snd (EmitLoginBanner rt b g))))" for response b
    by (simp add: moves_def)
  then show ?thesis
    unfolding loginAndWait_def Let_def by (intro go.moves_intros daemon.calls)
qed

lemma moves_authenticate: "moves (behind R) (authenticate rt att h settings)"
  unfolding authenticate_def by (intro go.moves_intros moves_wait_setup_key moves_login)

lemma moves_blocked: "behind R g (blocked rt g)"
  by (cases g) (simp add: behind_def quiet)

lemma moves_ready_loop: "behind R g (snd (ready_loop rt h ticks lastErr lastMessage g))"
proof (induction ticks arbitrary: lastErr lastMessage g)
  case 0
  obtain r g1 where 1: "c_Status (api rt h) full_peer_status g = (r, g1)"
    by (metis prod.exhaust)
  then have "behind R g g1"
    by (rule movesD [OF daemon.calls(8)])
  then have "behind R g g1" "behind R g (blocked rt g1)"
    using go.R_trans [OF _ moves_blocked] by blast+
  with 1 show ?case
    by (subst ready_loop.simps) (cases r; simp add: Let_def)
next
  case (Suc ticks)
  obtain r g1 where 1: "c_Status (api rt h) full_peer_status g = (r, g1)"
    by (metis prod.exhaust)
  then have "behind R g g1"
    by (rule movesD [OF daemon.calls(8)])
  moreover from this have "behind R g (snd (ready_loop rt h ticks e m (blocked rt g1)))" for e m
    using Suc.IH moves_blocked by (meson go.R_trans)
  ultimately show ?case
    using 1 by (subst ready_loop.simps) (cases r; simp add: Let_def)
qed

lemma moves_ready: "moves (behind R) (waitForReady rt h)"
  by (simp add: moves_def waitForReady_def moves_ready_loop)

lemma moves_config: "moves (behind R) (emitNetworkManagerConfig rt h prof settings)"
  unfolding moves_def
proof
  fix g
  obtain iface gw g1 where 1: "networkManagerConfigMetadata rt h prof settings g = ((iface, gw), g1)"
    by (metis prod.exhaust)
  obtain v g2 where 2: "networkManagerGatewayVariant rt gw g1 = (v, g2)"
    by (metis prod.exhaust)
  have "behind R g (snd (c_GetConfig (api rt h) prof g))"
    by (rule moves_result [OF daemon.calls(9)])
  then have "behind R g g1"
    using 1 go.R_refl
    by (auto simp: networkManagerConfigMetadata_def Let_def split: if_splits prod.splits sum.splits option.splits)
  moreover have "behind R g1 g2"
  proof -
    have "behind R g1 (fst g1, snd (rt_lookup rt host (snd g1)))" for host
      using env moves_result by (fastforce simp: runtime_moves_def behind_def)
    then show ?thesis
      using 2 go.R_refl
      by (cases g1) (auto simp: networkManagerGatewayVariant_def Let_def
          split: if_splits prod.splits sum.splits option.splits, (metis snd_conv)+)
  qed
  moreover have "behind R g2 (snd (on_done (EmitConfig rt c g2) (\<lambda>e. e) (\<lambda>g. (Inr (), g))))" for c
    using emits_behind(4) [of g2 c]
    by (cases "EmitConfig rt c g2") (auto simp: on_done_def split: option.split)
  ultimately have "behind R g g2" "behind R g (snd (on_done (EmitConfig rt c g2) (\<lambda>e. e) (\<lambda>g. (Inr (), g))))" for c
    by (meson go.R_trans)+
  then show "behind R g (snd (emitNetworkManagerConfig rt h prof settings g))"
    using 1 2 by (cases v) (simp_all add: emitNetworkManagerConfig_def)
qed

lemma moves_up: "moves (behind R) (\<lambda>g. error_only (c_Up (api rt h) p g))"
  unfolding error_only_def by (intro go.moves_intros daemon.calls)

end

subsection \<open>Who is asked for secrets\<close>

lemma log_or_fail:
  assumes "call_budget f A" "\<And>x. call_budget (nxt x) A"
    and "\<And>e. call_budget (\<lambda>g. ((), failActivation rt (failure e) (wrap e) g)) A"
  shows "call_budget (\<lambda>g. or_fail rt failure wrap l (f g) nxt) A"
proof -
  have "call_budget (\<lambda>g. case r of Inl e \<Rightarrow> (l, failActivation rt (failure e) (wrap e) g) | Inr x \<Rightarrow> nxt x g) A" for r
    using assms(2,3) by (cases r) (simp_all add: call_budget_moves moves_def)
  from budget_bind [OF assms(1) this]
  show ?thesis
    by (simp add: or_fail_def case_prod_beta sum.case_eq_if)
qed

definition asking :: "action set" where
  "asking = range WaitSSOLogin \<union> {EmitSignal (SecretsRequired m hs) | m hs. True}"

text \<open>What an activation does apart from asking.\<close>

definition working :: "action set" where
  "working =
     {NewClient, Down, Close, GetFeatures} \<union> range Up \<union> range UpdateProfile \<union> range Status \<union> range GetConfig \<union>
     range Login \<union> profile_calls \<union> state_signals \<union> {EmitSignal (Failure c) | c. True} \<union>
     {EmitSignal (LoginBanner b) | b. True} \<union> {EmitSignal (Config m) | m. True}"

lemmas working_defs = working_def budget_defs

lemma working_asks_nothing: "working \<subseteq> - asking"
  by (auto simp: working_defs asking_def)

lemma fail_works: "call_budget (\<lambda>g. ((), failActivation rt failure e g)) working"
proof
  fix log d r log' d'
  assume "((), failActivation rt failure e (log, d)) = (r, log', d')"
  then show "\<exists>cs. log' = log @ cs \<and> set cs \<subseteq> working"
    using setState_log [of rt ServiceStateStopped "log @ [EmitSignal (Failure (failure_code failure))]" d]
      setState_log [of rt ServiceStateStopped
        "log @ [EmitSignal (LoginBanner interactiveSSORequiredMessage), EmitSignal (Failure (failure_code failure))]" d]
    by (auto simp: failActivation_def EmitFailure_def EmitLoginBanner_def working_defs Let_def
        split: if_splits)
qed

lemma noninteractive_login:
  assumes "\<not> attempt_interactive att"
  shows "call_budget (authenticate rt att h settings) working"
proof -
  have login: "loginAndWait rt att h settings = (\<lambda>g.
      on_ok (c_Login (api rt h) (daemonLoginRequest (rt_os rt) settings) g) (\<lambda>e. e)
        (\<lambda>response g. if \<not> NeedsSSOLogin response then (Inr False, g)
                       else (Inl (Sentinel ErrInteractiveSSONeeded), g)))"
    by (simp add: loginAndWait_def assms fun_eq_iff cong: if_cong)
  have "call_budget (loginAndWait rt att h settings) working"
    unfolding login api_def by (intro budget_intros budget_recording) (auto simp: working_defs)
  moreover have "authenticate rt att h settings = (\<lambda>g.
      if \<not> shouldLogin settings False then (Inr False, g)
      else if s_AuthMode settings = ''setup-key'' \<and> trim_space (s_SetupKey settings) = []
      then (Inl (Sentinel ErrMissingSetupKey), g) else loginAndWait rt att h settings g)"
    by (auto simp: authenticate_def assms fun_eq_iff)
  ultimately show ?thesis
    by (simp only:) (intro budget_intros)
qed

lemma config_works: "call_budget (emitNetworkManagerConfig rt h prof settings) working"
proof
  fix log d r log' d'
  assume "emitNetworkManagerConfig rt h prof settings (log, d) = (r, log', d')"
  from emitNetworkManagerConfig_log [OF this] show "\<exists>cs. log' = log @ cs \<and> set cs \<subseteq> working"
    by (auto simp: working_defs)
qed

lemma parts_work:
  "call_budget (prepareDaemonProfile rt h settings) working"
  "call_budget (updateDaemonProfile rt h settings) working"
  "call_budget (Resolve (api rt h) p) working"
  "call_budget (waitForReady rt h) working"
  "call_budget (setStateForActiveSession rt sid st) working"
  "call_budget (\<lambda>g. error_only (c_Up (api rt h) p g)) working"
  "call_budget (new_client rt) working"
  subgoal by (rule budget_mono [OF daemon_profile.call_budget_axioms]) (auto simp: working_defs)
  subgoal by (rule budget_mono [OF daemon_update.call_budget_axioms]) (auto simp: working_defs)
  subgoal unfolding api_def by (rule budget_mono [OF resolve.call_budget_axioms]) (auto simp: working_defs)
  subgoal by (rule budget_mono [OF ready.call_budget_axioms]) (auto simp: working_defs)
  subgoal by (rule budget_mono [OF session_state.call_budget_axioms]) (auto simp: working_defs)
  subgoal unfolding error_only_def api_def by (intro budget_intros budget_recording) (auto simp: working_defs)
  subgoal unfolding new_client_def by (rule budget_logged) (auto simp: working_defs)
  done

lemma complete_works:
  "call_budget (\<lambda>g. case locked rt (completeActivation ctx h p) g of
      (None, g) \<Rightarrow> (l, g)
    | (Some sid, g) \<Rightarrow> (l', snd (setStateForActiveSession rt sid ServiceStateStarted g))) working"
proof -
  have "call_budget (\<lambda>g. case x of None \<Rightarrow> (l, g)
      | Some sid \<Rightarrow> (l', snd (setStateForActiveSession rt sid ServiceStateStarted g))) working" for x
    using parts_work(5) [of rt "the x" ServiceStateStarted]
    by (cases x) (auto simp: call_budget_moves moves_def log_grows.R_refl)
  from budget_bind [OF budget_locked this] show ?thesis
    by (simp add: case_prod_beta option.case_eq_if)
qed

lemma activate_budget:
  assumes "working \<subseteq> A" "\<And>h settings. call_budget (authenticate rt att h settings) A"
  shows "call_budget (activate rt att) A"
proof -
  note parts = parts_work [THEN budget_mono, OF assms(1)] fail_works [THEN budget_mono, OF assms(1)]
    config_works [THEN budget_mono, OF assms(1)] complete_works [THEN budget_mono, OF assms(1)]
  have fails: "call_budget (\<lambda>g. (l, failActivation rt failure e g)) A"
    for l :: "activationStatus \<times> 'a option" and failure e
    using parts(8) [of rt failure e] by (simp add: call_budget_moves moves_def)
  have up: "call_budget (bringUp rt att h p settings) A" for h p settings
    unfolding bringUp_def Let_def by (intro log_or_fail parts)
  show ?thesis
    unfolding activate_def Let_def by (intro budget_intros fails log_or_fail parts assms(2) up)
qed

lemma finish_works: "call_budget (\<lambda>g. ((), finishActivationAttempt rt att st client g)) working"
proof
  fix log d r log' d'
  assume "((), finishActivationAttempt rt att st client (log, d)) = (r, log', d')"
  then show "\<exists>cs. log' = log @ cs \<and> set cs \<subseteq> working"
    by (auto simp: finishActivationAttempt_def api_def recording_def logged_def working_defs Let_def case_prod_beta
        split: if_splits option.splits)
qed

lemma runActivation_budget:
  assumes "working \<subseteq> A" "\<And>h settings. call_budget (authenticate rt att h settings) A"
  shows "set (fst (runActivation rt att ([], s))) \<subseteq> A"
proof -
  obtain st client log s1 where run: "activate rt att ([], s) = ((st, client), log, s1)"
    by (metis prod.exhaust)
  have "set log \<subseteq> A"
    by (rule call_budget.from_empty_log [OF activate_budget run]) (use assms in auto)
  moreover have "log_grows working (log, s1) (finishActivationAttempt rt att st client (log, s1))"
    using moves_result [OF finish_works [unfolded call_budget_moves]] by simp
  then obtain cs where "fst (finishActivationAttempt rt att st client (log, s1)) = log @ cs" "set cs \<subseteq> working"
    by (auto simp: log_grows_def)
  ultimately show ?thesis
    using assms(1) by (auto simp: runActivation_def run)
qed

subsection \<open>The answers waited for\<close>

text \<open>The answers of the daemon to \<open>n\<close> Status calls in a row, with the waiting in between.\<close>

fun daemon_answers :: "('h, 'd) runtime \<Rightarrow> 'h \<Rightarrow> nat \<Rightarrow> ('h, 'd) service \<Rightarrow> (gerr + status_response option) list" where
  "daemon_answers rt h 0 s = []"
| "daemon_answers rt h (Suc n) s =
     (case c_Status (rt_api rt h) full_peer_status s of
        (r, s') \<Rightarrow> r # daemon_answers rt h n (rt_block rt s'))"

definition answer_ready :: "gerr + status_response option \<Rightarrow> bool" where
  "answer_ready r = (case r of Inl _ \<Rightarrow> False | Inr resp \<Rightarrow> mapped_State (Map_status resp) = Connected)"

definition answer_open :: "gerr + status_response option \<Rightarrow> bool" where
  "answer_open r =
     (case r of Inl _ \<Rightarrow> True | Inr resp \<Rightarrow> mapped_State (Map_status resp) \<notin> {Connected, Failed})"

lemma ready_loop_answers:
  "(fst (ready_loop rt h n e m (log, s)) = Inr ()) =
     (case dropWhile answer_open (daemon_answers rt h (Suc n) s) of [] \<Rightarrow> False | a # _ \<Rightarrow> answer_ready a) \<and>
   fst (snd (ready_loop rt h n e m (log, s))) =
     log @ replicate (min (Suc n) (Suc (length (takeWhile answer_open (daemon_answers rt h (Suc n) s)))))
             (Status full_peer_status)"
proof (induction n arbitrary: e m log s)
  case 0
  show ?case
    by (subst (1 2) ready_loop.simps)
      (auto simp: api_Status Let_def mapping_Ready_def mapping_Failed_def answer_open_def answer_ready_def
        split: sum.split prod.split)
next
  case (Suc n)
  obtain r s' where r: "c_Status (rt_api rt h) full_peer_status s = (r, s')"
    by (metis prod.exhaust)
  show ?case
  proof (cases "answer_open r")
    case True
    then have "\<exists>e' m'. ready_loop rt h (Suc n) e m (log, s) =
        ready_loop rt h n e' m' (log @ [Status full_peer_status], rt_block rt s')"
      by (subst ready_loop.simps)
        (auto simp: api_Status r Let_def mapping_Ready_def mapping_Failed_def answer_open_def split: sum.splits)
    then obtain e' m' where step: "ready_loop rt h (Suc n) e m (log, s) =
        ready_loop rt h n e' m' (log @ [Status full_peer_status], rt_block rt s')"
      by blast
    have "daemon_answers rt h (Suc (Suc n)) s = r # daemon_answers rt h (Suc n) (rt_block rt s')"
      by (subst daemon_answers.simps) (simp add: r del: daemon_answers.simps)
    then show ?thesis
      using True Suc.IH [of e' m' "log @ [Status full_peer_status]" "rt_block rt s'"]
      by (simp add: step del: daemon_answers.simps)
  next
    case False
    then show ?thesis
      by (subst (1 2) ready_loop.simps)
        (auto simp: api_Status r Let_def mapping_Ready_def mapping_Failed_def answer_open_def answer_ready_def
          split: sum.splits)
  qed
qed

lemma daemon_answers_length [simp]: "length (daemon_answers rt h n s) = n"
  by (induction n arbitrary: s) (auto split: prod.split)

subsection \<open>A steady environment\<close>

text \<open>A client whose calls succeed and change nothing, and a runtime without other goroutines.\<close>

definition steady_client :: "login_response \<Rightarrow> status_response option \<Rightarrow> 'w client" where
  "steady_client login status =
     \<lparr>c_Login = (\<lambda>_ w. (Inr login, w)), c_WaitSSOLogin = (\<lambda>_ w. (Inr [], w)),
      c_SwitchProfile = (\<lambda>p w. (Inr p, w)), c_AddProfile = (\<lambda>p w. (Inr p, w)),
      c_UpdateProfile = (\<lambda>_ w. (None, w)), c_Up = (\<lambda>_ w. (None, w)), c_Down = (\<lambda>w. (None, w)),
      c_Status = (\<lambda>_ w. (Inr status, w)), c_GetConfig = (\<lambda>_ w. (Inr None, w)),
      c_GetFeatures = (\<lambda>w. (Inr \<lparr>DisableProfiles = True, DisableUpdateSettings = False,
                                  DisableNetworks = False\<rparr>, w)),
      c_GetActiveProfile = (\<lambda>w. (Inr no_profile_ref, w)), c_ListProfiles = (\<lambda>_ w. (Inr [], w)),
      c_Close = (\<lambda>w. (None, w))\<rparr>"

definition no_login :: login_response where
  "no_login = \<lparr>NeedsSSOLogin = False, UserCode = [], VerificationURI = [], VerificationURIComplete = []\<rparr>"

definition steady_runtime :: "string \<Rightarrow> (nat, unit) runtime" where
  "steady_runtime status =
     \<lparr>rt_meanwhile = (\<lambda>s. s), rt_block = (\<lambda>s. s), rt_done = (\<lambda>_. True), rt_ticks = (\<lambda>_. 2),
      rt_expired = (\<lambda>_. False), rt_emit = (\<lambda>_ _. None), rt_factory = (\<lambda>s. (Inr 7, s)),
      rt_api = (\<lambda>_. steady_client no_login
        (Some \<lparr>resp_Status = status, resp_FullStatus = None, resp_DaemonVersion = []\<rparr>)),
      rt_os = \<lparr>os_Hostname = [], os_User = None\<rparr>,
      rt_url_hostname = Some, rt_split_host = (\<lambda>_. None),
      rt_parse_addr = (\<lambda>_. Some (Addr4 [10, 0, 0, 1])), rt_lookup = (\<lambda>_ s. (Inr [], s))\<rparr>"

definition steady_attempt :: activationAttempt where
  "steady_attempt =
     \<lparr>attempt_ctx = 0, attempt_id = 1,
      attempt_connection = [(''vpn'', [(''auth-mode'', VString ''setup-key''), (''setup-key'', VString ''k''),
        (''management-url'', VString ''h'')])],
      attempt_details = [], attempt_interactive = False\<rparr>"

lemma steady_moves: "(\<And>s. R s s) \<Longrightarrow> runtime_moves R (steady_runtime status)"
  by (simp add: runtime_moves_def steady_runtime_def client_moves_def steady_client_def moves_def)

section \<open>Properties\<close>

text \<open>
  C5: the calls and signals of an activation. Whatever NetworkManager sends, whatever the daemon
  answers and however other goroutines interfere, an activation creates at most one client and brings the
  daemon up at most once, after which it either emits the configuration and succeeds, or takes the daemon down again;
  it reports at most one failure, with a code that tells which phase failed; and it closes the
  client it created unless it succeeded. It succeeded exactly when the last thing it did is to emit the configuration.
\<close>

theorem runActivation_trace:
  "(\<exists>p m c. key_trace (runActivation rt att ([], s)) \<in>
     {[EmitSignal (Failure 0)],
      [NewClient, EmitSignal (Failure 1)],
      [NewClient, EmitSignal (Failure c), Close],
      [NewClient, Up p, EmitSignal (Failure c), Close],
      [NewClient, Up p, EmitSignal (Failure 1), Down, Close],
      [NewClient, Up p, EmitSignal (Failure 2), Down, Close],
      [NewClient, Up p, EmitSignal (Config m), EmitSignal (Failure 2), Down, Close],
      [NewClient, Up p, EmitSignal (Config m), Down, Close],
      [NewClient, Up p, EmitSignal (Config m)]} \<and> c \<in> {0, 1}) \<and>
   (success (fst (fst (activate rt att ([], s)))) \<longleftrightarrow>
      (\<exists>p m. key_trace (runActivation rt att ([], s)) = [NewClient, Up p, EmitSignal (Config m)]))"
proof -
  obtain st client g where run: "activate rt att ([], s) = ((st, client), g)"
    by (metis prod.exhaust)
  then have "left_after (key_trace g) (st, client)"
    using leaves_activate [of rt att s] by (simp add: leaves_def)
  then show ?thesis
    by (cases rule: left_afterE) (auto simp: runActivation_def run finish_key newStatus_def)
qed

text \<open>
  C21: an activation that is not interactive never asks. It emits no SecretsRequired signal and never waits for
  a browser login, whatever the settings and the daemon say.
\<close>

theorem noninteractive_never_asks:
  assumes "\<not> attempt_interactive att"
  shows "set (fst (runActivation rt att ([], s))) \<inter> asking = {}"
proof -
  have "set (fst (runActivation rt att ([], s))) \<subseteq> - asking"
    by (rule runActivation_budget [OF working_asks_nothing])
      (rule budget_mono [OF noninteractive_login [OF assms] working_asks_nothing])
  then show ?thesis
    by blast
qed

lemma noninteractive_never_asks_witness:
  "set (fst (runActivation (steady_runtime ''Connected'') steady_attempt ([], sys_svc (first_attempt ())))) \<inter>
     asking = {}"
  by (rule noninteractive_never_asks) (simp add: steady_attempt_def)

lemma authenticate_answered:
  assumes "\<And>s. rt_meanwhile rt s = s" "\<And>s. rt_block rt s = NewSecrets connection s" "\<And>s. \<not> rt_done rt s"
    and "activating s" "activationID s = attempt_id att" "delivered s (next_ref s) = None"
    and "attempt_interactive att" "s_AuthMode settings = ''setup-key''" "trim_space (s_SetupKey settings) = []"
    and "s_PromptActivationID (parseActivationSettings connection) \<in> {[], formatActivationID (attempt_id att)}"
    and "s_SetupKey (parseActivationSettings connection) = key" "trim_space key \<noteq> []"
  shows "\<exists>s'. authenticate rt att h settings (log, s) =
      loginAndWait rt att h (settings\<lparr>s_SetupKey := key\<rparr>)
        (log @ [EmitSignal (SecretsRequired setupKeyRequiredMessage (setupKeyPromptHints (attempt_id att)))], s') \<and>
      svc_prompt s' = None \<and> activating s' \<and>
      login_SetupKey (daemonLoginRequest (rt_os rt) (settings\<lparr>s_SetupKey := key\<rparr>)) = key"
proof -
  let ?p = "\<lparr>prompt_activationID = attempt_id att, prompt_kind = PromptSetupKey, prompt_result = Some (next_ref s)\<rparr>"
  let ?x = "parseActivationSettings connection"
  define s1 where "s1 = s\<lparr>next_ref := next_ref s + 1, svc_prompt := Some ?p\<rparr>"
  have s1': "s\<lparr>next_ref := Suc (next_ref s), svc_prompt := Some ?p\<rparr> = s1"
    by (simp add: s1_def)
  have key: "key \<noteq> []"
    using assms(12) by auto
  have s1: "delivered s1 (next_ref s) = None" "svc_prompt s1 = Some ?p"
    using assms(6) by (simp_all add: s1_def)
  have answered: "NewSecrets connection s1 =
      s1\<lparr>svc_prompt := None, delivered := (delivered s1)(next_ref s \<mapsto> ?x)\<rparr>"
    using assms(10) s1 by (auto simp: NewSecrets_def handleNewSecretsLocked_def send_result_def Let_def)
  have "waitForSetupKeySecret rt (attempt_id att) settings (log, s) =
      (Inr (settings\<lparr>s_SetupKey := key\<rparr>),
       (log @ [EmitSignal (SecretsRequired setupKeyRequiredMessage (setupKeyPromptHints (attempt_id att)))],
        s1\<lparr>svc_prompt := None, delivered := (delivered s1)(next_ref s := None)\<rparr>))"
    using assms(1-5,11,12) key s1
    by (simp add: waitForSetupKeySecret_def new_channel_def registerActivationPrompt_def EmitSecretsRequired_def
        receive_or_done_def mergePromptSettings_def answered s1')
  moreover have "login_SetupKey (daemonLoginRequest (rt_os rt) (settings\<lparr>s_SetupKey := key\<rparr>)) = key"
    using assms(8) by (simp add: daemonLoginRequest_def Let_def)
  ultimately show ?thesis
    using assms(4,7,8,9)
    by (auto simp: authenticate_def shouldLogin_def s1_def)
qed

text \<open>
  a setup key asked for is the key used for the login. If the front end answers the prompt of the activation in flight
  (NewSecrets with the activation's identifier, or none, and a key that is not blank), an interactive
  setup-key activation without a key asks once, with the hints of its own identifier, and then logs in with
  exactly the settings it had and the key it was given; the prompt is over.
\<close>

theorem setup_key_prompt_to_login:
  assumes "\<And>s. rt_meanwhile rt s = s" "\<And>s. rt_block rt s = NewSecrets connection s" "\<And>s. \<not> rt_done rt s"
    and "activating s" "activationID s = attempt_id att" "delivered s (next_ref s) = None"
    and "attempt_interactive att" "s_AuthMode settings = ''setup-key''" "trim_space (s_SetupKey settings) = []"
    and "s_PromptActivationID (parseActivationSettings connection) \<in> {[], formatActivationID (attempt_id att)}"
    and "s_SetupKey (parseActivationSettings connection) = key" "trim_space key \<noteq> []"
  shows "\<exists>s'. authenticate rt att h settings (log, s) =
      loginAndWait rt att h (settings\<lparr>s_SetupKey := key\<rparr>)
        (log @ [EmitSignal (SecretsRequired setupKeyRequiredMessage (setupKeyPromptHints (attempt_id att)))], s') \<and>
      svc_prompt s' = None \<and> activating s' \<and>
      login_SetupKey (daemonLoginRequest (rt_os rt) (settings\<lparr>s_SetupKey := key\<rparr>)) = key"
  by (rule authenticate_answered [OF assms])

lemma setup_key_prompt_to_login_witness:
  "\<exists>s'. authenticate ((steady_runtime ''Connected'')\<lparr>rt_block := NewSecrets [(''vpn'', [(''setup-key'', VString ''k'')])],
        rt_done := \<lambda>_. False\<rparr>)
      (steady_attempt\<lparr>attempt_interactive := True\<rparr>) 7
      (parseActivationSettings [(''vpn'', [(''auth-mode'', VString ''setup-key'')])])
      ([], sys_svc (first_attempt ())) =
    loginAndWait ((steady_runtime ''Connected'')\<lparr>rt_block := NewSecrets [(''vpn'', [(''setup-key'', VString ''k'')])],
        rt_done := \<lambda>_. False\<rparr>)
      (steady_attempt\<lparr>attempt_interactive := True\<rparr>) 7
      ((parseActivationSettings [(''vpn'', [(''auth-mode'', VString ''setup-key'')])])\<lparr>s_SetupKey := ''k''\<rparr>)
      ([EmitSignal (SecretsRequired setupKeyRequiredMessage (setupKeyPromptHints 1))], s')"
proof -
  let ?answer = "[(''vpn'', [(''setup-key'', VString ''k'')])]"
  let ?set = "parseActivationSettings [(''vpn'', [(''auth-mode'', VString ''setup-key'')])]"
  have "s_AuthMode ?set = ''setup-key''" "trim_space (s_SetupKey ?set) = []"
    "s_PromptActivationID (parseActivationSettings ?answer) = []"
    "s_SetupKey (parseActivationSettings ?answer) = ''k''" "trim_space ''k'' \<noteq> []"
    by code_simp+
  then show ?thesis
    using setup_key_prompt_to_login [of "(steady_runtime ''Connected'')\<lparr>rt_block := NewSecrets ?answer, rt_done := \<lambda>_. False\<rparr>"
        ?answer "sys_svc (first_attempt ())" "steady_attempt\<lparr>attempt_interactive := True\<rparr>" ?set "''k''" 7 "[]"]
    by (auto simp: steady_runtime_def steady_attempt_def first_attempt_def NewService_def)
qed

text \<open>
  the gateway of an IPv4 address is the address in network byte order. An IPv4 address other than
  0.0.0.0 is sent as the 32-bit number of its octets, most significant first, and an IPv4-mapped IPv6
  address is sent as the IPv4 address it stands for.
\<close>

theorem gateway_ipv4:
  "gatewayVariantForAddr (Addr4 [a, b, c, d]) =
     (if [a, b, c, d] = [0, 0, 0, 0] then None
      else Some (VUint32 (of_nat (((unat a * 256 + unat b) * 256 + unat c) * 256 + unat d)))) \<and>
   gatewayVariantForAddr (Addr6 (replicate 10 0 @ [255, 255, a, b, c, d]) zone) =
     gatewayVariantForAddr (Addr4 [a, b, c, d])"
proof -
  have "push_bit 8 n = n * 256" for n :: "32 word"
    by (simp add: push_bit_eq_mult)
  then have "big_endian_uint32 [a, b, c, d] =
      of_nat (((unat a * 256 + unat b) * 256 + unat c) * 256 + unat d)"
    by (simp add: big_endian_uint32_def)
  moreover have "replicate 4 (0 :: 8 word) = [0, 0, 0, 0]" "replicate 10 (0 :: 8 word) = [0, 0, 0, 0, 0, 0, 0, 0, 0, 0]"
    by (simp_all add: numeral_eq_Suc)
  ultimately show ?thesis
    by (simp add: gatewayVariantForAddr_def is_4in6_def)
qed

text \<open>
  C31: what NetworkManager is told about the tunnel. Every configuration an activation emits says that NetworkManager has no
  IPv4 and no IPv6 to set up, names a gateway as a number or as octets, and names the interface only if
  it is known, without surrounding white space.
\<close>

theorem emitted_config:
  assumes "emitNetworkManagerConfig rt h prof settings ([], s) = (r, log', s')"
    and "EmitSignal (Config c) \<in> set log'"
  shows "map_of c ''has-ip4'' = Some (VBool False) \<and> map_of c ''has-ip6'' = Some (VBool False) \<and>
    (\<exists>v. map_of c ''gateway'' = Some v \<and> v \<in> range VUint32 \<union> range VBytes) \<and>
    (map_of c ''tundev'' = None \<or>
     (\<exists>n. map_of c ''tundev'' = Some (VString n) \<and> n \<noteq> [] \<and> trim_space n = n)) \<and> dom (map_of c) \<subseteq>
    {''gateway'', ''has-ip4'', ''has-ip6'', ''tundev''}"
proof -
  obtain iface gw log1 s1 where 1: "networkManagerConfigMetadata rt h prof settings ([], s) = ((iface, gw), log1, s1)"
    by (metis prod.exhaust)
  obtain v log2 s2 where 2: "networkManagerGatewayVariant rt gw (log1, s1) = (v, log2, s2)"
    by (metis prod.exhaust)
  have name: "trim_space iface = iface"
    using 1 by (auto simp: networkManagerConfigMetadata_def normalizeInterfaceName_def Let_def
        split: if_splits prod.splits sum.splits option.splits)
  have addr: "gatewayVariantForAddr a = Some x \<Longrightarrow> x \<in> range VUint32 \<union> range VBytes" for a x
    by (auto simp: gatewayVariantForAddr_def split: netip_addr.splits if_splits)
  then have "first_gateway as = Some x \<Longrightarrow> x \<in> range VUint32 \<union> range VBytes" for as x
    by (induction as) (auto split: option.splits)
  with addr have gateway: "v = Inr x \<Longrightarrow> x \<in> range VUint32 \<union> range VBytes" for x
    using 2 by (auto simp: networkManagerGatewayVariant_def Let_def
        split: if_splits prod.splits sum.splits option.splits)
  obtain cs where "log2 = [] @ cs" "set cs \<subseteq> range GetConfig"
    using call_budget.budget [OF budget_metadata 1] call_budget.budget [OF budget_gateway [of rt gw "{}"] 2] by auto
  then have "EmitSignal (Config c) \<notin> set log2"
    by auto
  then obtain x where "v = Inr x" "c = networkManagerConfig iface x"
    using assms 1 2
    by (cases v) (auto simp: emitNetworkManagerConfig_def EmitConfig_def on_done_def split: option.splits)
  then show ?thesis
    using gateway name by (auto simp: networkManagerConfig_def split: if_splits)
qed

lemma emitted_config_witness:
  "map_of (networkManagerConfig [] (VUint32 0x0A000001)) ''has-ip4'' = Some (VBool False)"
proof -
  let ?settings = "parseActivationSettings [(''vpn'', [(''management-url'', VString ''h'')])]"
  let ?r = "emitNetworkManagerConfig (steady_runtime ''Connected'') 7 no_profile_ref ?settings
      ([], sys_svc (first_attempt ()))"
  have "fst (snd ?r) = [GetConfig no_profile_ref,
      EmitSignal (Config (networkManagerConfig [] (VUint32 0x0A000001)))]"
    by code_simp
  then have "EmitSignal (Config (networkManagerConfig [] (VUint32 0x0A000001))) \<in> set (fst (snd ?r))"
    by simp
  from emitted_config [of _ 7 no_profile_ref ?settings, OF surjective_pairing [THEN trans, OF arg_cong2 [where f = Pair, OF refl surjective_pairing]] this]
  show ?thesis
    by blast
qed

text \<open>
  waiting for the daemon is bounded and decided by its answers. The answers to one Status call per tick, and one
  before the first tick, are looked at in turn until one decides: a connected daemon ends the wait
  with success, a failed one with an error; if none of them does, the wait ends with an error after the
  last. No call is made after the deciding one.
\<close>

theorem waitForReady_decided:
  "case daemon_answers rt h (Suc (rt_ticks rt s)) s of as \<Rightarrow>
     (fst (waitForReady rt h (log, s)) = Inr ()) =
       (case dropWhile answer_open as of [] \<Rightarrow> False | a # _ \<Rightarrow> answer_ready a) \<and>
     fst (snd (waitForReady rt h (log, s))) =
       log @ replicate (min (length as) (Suc (length (takeWhile answer_open as)))) (Status full_peer_status)"
  unfolding waitForReady_def
  using ready_loop_answers [of rt h "rt_ticks rt s" None "[]" log s]
  by (simp only: daemon_answers_length snd_conv)

end
