(* ===== verification/Interleaving.thy ===== *)
theory Interleaving
  imports Activation
begin

text \<open>
  The activation goroutine among the others. Its program (theory \<open>Activation\<close>) is a sequence of the
  locked regions of theory \<open>Lifecycle\<close>: if the other goroutines and the daemon act on the service only
  through its regions too, a whole activation is a path of the step relation, so the invariant of
  the service holds throughout. If they do not act on the service at all, the outcome is determined.
\<close>

section \<open>Definitions\<close>

text \<open>
  \<open>others att\<close>: what other goroutines may do to the service while the activation \<open>att\<close> exists: any steps, but
  they neither complete nor finish \<open>att\<close>. \<open>follows att\<close>: what the goroutine of \<open>att\<close>
  does itself before it leaves the slot.
\<close>

definition token :: "activationAttempt \<Rightarrow> nat \<times> 64 word" where
  "token att = (attempt_ctx att, attempt_id att)"

definition others :: "activationAttempt \<Rightarrow> ('h, 'd) service \<Rightarrow> ('h, 'd) service \<Rightarrow> bool" where
  "others att s s' \<longleftrightarrow>
     (\<forall>m. reachable m \<and> sys_svc m = s \<and> attempt_ctx att \<in> contexts m \<longrightarrow>
        (\<exists>m'. svc_step\<^sup>*\<^sup>* m m' \<and> sys_svc m' = s' \<and>
              (token att \<in> set (running m) \<longrightarrow> token att \<in> set (running m'))))"

definition follows :: "activationAttempt \<Rightarrow> ('h, 'd) service \<Rightarrow> ('h, 'd) service \<Rightarrow> bool" where
  "follows att s s' \<longleftrightarrow>
     (\<forall>m. reachable m \<and> sys_svc m = s \<and> token att \<in> set (running m) \<longrightarrow>
        (\<exists>m'. svc_step\<^sup>*\<^sup>* m m' \<and> sys_svc m' = s' \<and> token att \<in> set (running m')))"

definition runs_to :: "activationAttempt \<Rightarrow> ('h, 'd) system \<Rightarrow> bool \<Rightarrow> ('h, 'd) go \<Rightarrow> bool" where
  "runs_to att m tok g \<longleftrightarrow>
     (\<exists>m'. svc_step\<^sup>*\<^sup>* m m' \<and> sys_svc m' = snd g \<and> attempt_ctx att \<in> contexts m' \<and>
           (tok \<longrightarrow> token att \<in> set (running m')))"

section \<open>Lemmas\<close>

lemma reachable_steps: "reachable m \<Longrightarrow> svc_step\<^sup>*\<^sup>* m m' \<Longrightarrow> reachable m'"
  by (rotate_tac, induction rule: rtranclp_induct) (auto intro: reach_step)

lemma step_contexts_mono: "svc_step m m' \<Longrightarrow> contexts m \<subseteq> contexts m'"
  by (induction rule: svc_step.induct) auto

lemma steps_contexts_mono: "svc_step\<^sup>*\<^sup>* m m' \<Longrightarrow> contexts m \<subseteq> contexts m'"
  by (induction rule: rtranclp_induct) (use step_contexts_mono in blast)+

lemma running_context: "reachable m \<Longrightarrow> token att \<in> set (running m) \<Longrightarrow> attempt_ctx att \<in> contexts m"
  using lifecycle.inv_reach [of m] by (auto simp: inv_defs token_def split: if_splits)

lemma others_follows: "others att s s' \<Longrightarrow> follows att s s'"
  unfolding others_def follows_def using running_context by blast

lemma follows_refl: "follows att s s"
  unfolding follows_def by blast

lemma followsD:
  assumes "follows att s s'" "reachable m" "sys_svc m = s" "token att \<in> set (running m)"
  obtains m' where "svc_step\<^sup>*\<^sup>* m m'" "sys_svc m' = s'" "token att \<in> set (running m')"
  using assms unfolding follows_def by blast

lemma follows_trans:
  fixes s t u :: "('h, 'd) service"
  assumes "follows att s t" "follows att t u"
  shows "follows att s u"
  unfolding follows_def
proof (intro allI impI, elim conjE)
  fix m :: "('h, 'd) system"
  assume m: "reachable m" "sys_svc m = s" "token att \<in> set (running m)"
  then obtain m1 where m1: "svc_step\<^sup>*\<^sup>* m m1" "sys_svc m1 = t" "token att \<in> set (running m1)"
    by (rule followsD [OF assms(1)])
  then obtain m2 where "svc_step\<^sup>*\<^sup>* m1 m2" "sys_svc m2 = u" "token att \<in> set (running m2)"
    using followsD [OF assms(2) reachable_steps [OF m(1) m1(1)]] by blast
  then show "\<exists>m'. svc_step\<^sup>*\<^sup>* m m' \<and> sys_svc m' = u \<and> token att \<in> set (running m')"
    using m1(1) rtranclp_trans [of svc_step m m1 m2] by blast
qed

lemma follows_step:
  fixes s s' :: "('h, 'd) service"
  assumes "\<And>m. sys_svc m = s \<Longrightarrow> token att \<in> set (running m) \<Longrightarrow> svc_step m (m\<lparr>sys_svc := s'\<rparr>)"
  shows "follows att s s'"
  unfolding follows_def
proof (intro allI impI, elim conjE)
  fix m :: "('h, 'd) system"
  assume m: "sys_svc m = s" "token att \<in> set (running m)"
  from assms [OF this] have "svc_step\<^sup>*\<^sup>* m (m\<lparr>sys_svc := s'\<rparr>)"
    by (rule r_into_rtranclp)
  then show "\<exists>m'. svc_step\<^sup>*\<^sup>* m m' \<and> sys_svc m' = s' \<and> token att \<in> set (running m')"
    using m by (intro exI [of _ "m\<lparr>sys_svc := s'\<rparr>"]) simp
qed

lemma runtime_moves_mono:
  "runtime_moves R rt \<Longrightarrow> (\<And>s s'. R s s' \<Longrightarrow> S s s') \<Longrightarrow> runtime_moves S rt"
  by (simp add: runtime_moves_def client_moves_def moves_def)

lemma runtime_moves_if:
  "(P \<Longrightarrow> runtime_moves R rt) \<Longrightarrow> runtime_moves (\<lambda>s s'. P \<longrightarrow> R s s') rt"
  by (cases P) (simp_all add: runtime_moves_def client_moves_def moves_def)

interpretation sim: attempt_relation "\<lambda>s s'. runtime_moves (others att) rt \<longrightarrow> follows att s s'" rt att
  for rt :: "('h, 'd) runtime" and att
proof unfold_locales
  show "runtime_moves (\<lambda>s s'. runtime_moves (others att) rt \<longrightarrow> follows att s s') rt"
    by (rule runtime_moves_if, erule runtime_moves_mono) (rule others_follows)
  fix s :: "('h, 'd) service" and st and p :: activationPrompt and ch
  show "runtime_moves (others att) rt \<longrightarrow> follows att s (snd (setStateValue st s))"
    by (intro impI follows_step) (auto intro: step_state)
  show "runtime_moves (others att) rt \<longrightarrow> follows att s (snd (new_channel s))"
    by (intro impI follows_step) (auto intro: step_channel prod.collapse [symmetric])
  show "runtime_moves (others att) rt \<longrightarrow> follows att s (s\<lparr>delivered := (delivered s)(ch := None)\<rparr>)"
    by (intro impI follows_step) (auto intro: step_receive)
  assume "prompt_activationID p = attempt_id att"
  then show "runtime_moves (others att) rt \<longrightarrow> follows att s (snd (registerActivationPrompt p s))"
    by (intro impI follows_step) (auto simp: token_def intro: step_prompt)
qed (auto intro: follows_refl follows_trans)

subsection \<open>The path of an activation\<close>

lemma runs_others:
  assumes "reachable m" "runs_to att m tok g" "others att (snd g) (snd g')"
  shows "runs_to att m tok g'"
proof -
  obtain m1 where m1: "svc_step\<^sup>*\<^sup>* m m1" "sys_svc m1 = snd g" "attempt_ctx att \<in> contexts m1"
      "tok \<longrightarrow> token att \<in> set (running m1)"
    using assms(2) by (auto simp: runs_to_def)
  then obtain m2 where m2: "svc_step\<^sup>*\<^sup>* m1 m2" "sys_svc m2 = snd g'"
      "token att \<in> set (running m1) \<longrightarrow> token att \<in> set (running m2)"
    using assms(3) reachable_steps [OF assms(1) m1(1)] unfolding others_def by blast
  then show ?thesis
    using m1 steps_contexts_mono [OF m2(1)] rtranclp_trans [OF m1(1) m2(1)]
    unfolding runs_to_def by blast
qed

lemma runs_follows:
  assumes "reachable m" "runs_to att m True g" "follows att (snd g) (snd g')"
  shows "runs_to att m True g'"
proof -
  obtain m1 where m1: "svc_step\<^sup>*\<^sup>* m m1" "sys_svc m1 = snd g" "token att \<in> set (running m1)"
    using assms(2) by (auto simp: runs_to_def)
  then obtain m2 where "svc_step\<^sup>*\<^sup>* m1 m2" "sys_svc m2 = snd g'" "token att \<in> set (running m2)"
    using followsD [OF assms(3) reachable_steps [OF assms(1) m1(1)]] by blast
  then show ?thesis
    using m1(1) running_context [OF reachable_steps [OF assms(1)], of m2] rtranclp_trans [of svc_step m m1 m2]
    unfolding runs_to_def by blast
qed

lemma runs_step:
  assumes "runs_to att m tok g"
    and "\<And>m'. sys_svc m' = snd g \<Longrightarrow> attempt_ctx att \<in> contexts m' \<Longrightarrow>
           (tok \<longrightarrow> token att \<in> set (running m')) \<Longrightarrow> svc_step m' (m'\<lparr>sys_svc := s, running := T m'\<rparr>)"
    and "\<And>m'. (tok \<longrightarrow> token att \<in> set (running m')) \<Longrightarrow> tok' \<longrightarrow> token att \<in> set (T m')"
  shows "runs_to att m tok' (log, s)"
proof -
  obtain m1 where m1: "svc_step\<^sup>*\<^sup>* m m1" "sys_svc m1 = snd g" "attempt_ctx att \<in> contexts m1"
      "tok \<longrightarrow> token att \<in> set (running m1)"
    using assms(1) by (auto simp: runs_to_def)
  from rtranclp.rtrancl_into_rtrancl [OF m1(1) assms(2) [OF m1(2-4)]]
  show ?thesis
    using m1(3) assms(3) [OF m1(4)] unfolding runs_to_def
    by (intro exI [of _ "m1\<lparr>sys_svc := s, running := T m1\<rparr>"]) simp
qed

lemma runs_do:
  assumes m: "reachable m" and env: "runtime_moves (others att) rt" and "runs_to att m tok g"
    and step: "\<And>s m'. sys_svc m' = s \<Longrightarrow> attempt_ctx att \<in> contexts m' \<Longrightarrow>
           (tok \<longrightarrow> token att \<in> set (running m')) \<Longrightarrow> svc_step m' (m'\<lparr>sys_svc := k s, running := T m'\<rparr>)"
    and "\<And>m'. (tok \<longrightarrow> token att \<in> set (running m')) \<Longrightarrow> tok' \<longrightarrow> token att \<in> set (T m')"
  shows "runs_to att m tok' (locked_do rt k g)"
proof -
  have "runs_to att m tok (fst g, rt_meanwhile rt (snd g))"
    using env by (intro runs_others [OF m assms(3)]) (simp add: runtime_moves_def)
  then have "runs_to att m tok' (fst g, k (rt_meanwhile rt (snd g)))"
    by (rule runs_step [where T = T]) (simp_all add: step assms(5))
  then show ?thesis
    by (cases g) simp
qed

lemma runs_call:
  assumes m: "reachable m" and "runs_to att m tok g" and "moves (others att) f"
  shows "runs_to att m tok (snd (logged a f g))"
proof -
  have "others att (snd g) (snd (f (snd g)))"
    by (rule moves_result [OF assms(3)])
  then have "runs_to att m tok (fst g @ [a], snd (f (snd g)))"
    by (intro runs_others [OF m assms(2)]) simp
  then show ?thesis
    by (cases g) (simp add: logged_def case_prod_beta)
qed

lemma finish_runs:
  assumes m: "reachable m" and env: "runtime_moves (others att) rt" and g: "runs_to att m (\<not> success st) g"
  shows "runs_to att m False (finishActivationAttempt rt att st client g)"
proof -
  let ?g1 = "locked_do rt (clearPromptForActivation (attempt_id att)) g"
  define g2 where "g2 = (case client of
      Some h \<Rightarrow> if \<not> success st \<and> daemonUp st then snd (c_Down (api rt h) ?g1) else ?g1 | None \<Rightarrow> ?g1)"
  define g3 where "g3 = locked_do rt (cancel_ctx (attempt_ctx att)) g2"
  define g4 where "g4 = locked_do rt finishFailedActivation g3"
  have calls: "moves (others att) (c_Down (rt_api rt h))" "moves (others att) (c_Close (rt_api rt h))" for h
    using env by (simp_all add: runtime_moves_def client_moves_def)
  have 1: "runs_to att m (\<not> success st) ?g1"
    by (rule runs_do [OF m env g, where T = running]) (use step_clear_prompt in \<open>auto simp: token_def\<close>)
  then have 2: "runs_to att m (\<not> success st) g2"
    using runs_call [OF m 1 calls(1)]
    by (auto simp: g2_def api_def recording_def split: option.split)
  have 3: "runs_to att m (\<not> success st) g3"
    unfolding g3_def
    by (rule runs_do [OF m env 2, where T = running]) (use step_cancel in auto)
  have 4: "runs_to att m False g4" if "\<not> success st"
    unfolding g4_def
    by (rule runs_do [OF m env 3, where T = "\<lambda>m. remove1 (token att) (running m)"])
      (use that step_finish in \<open>auto simp: token_def\<close>)
  have "runs_to att m False (snd (c_Close (api rt h) g4))" if "\<not> success st" for h
    using runs_call [OF m 4 [OF that] calls(2)] by (simp add: api_def recording_def)
  moreover have "runs_to att m False g3" if "success st"
    using 3 by (auto simp: runs_to_def)
  moreover have "finishActivationAttempt rt att st client g =
      (if success st then g3 else (case client of Some h \<Rightarrow> snd (c_Close (api rt h) g4) | None \<Rightarrow> g4))"
    unfolding finishActivationAttempt_def g4_def g3_def g2_def Let_def by (rule refl)
  ultimately show ?thesis
    using 4 by (auto split: option.split)
qed

definition runs_on ::
  "activationAttempt \<Rightarrow> ('h, 'd) system \<Rightarrow> (activationStatus \<times> 'h option) \<times> ('h, 'd) go \<Rightarrow> bool" where
  "runs_on att m = (\<lambda>((st, client), g). runs_to att m (\<not> success st) g)"

text \<open>The program of the goroutine, as moves within \<open>follows\<close>.\<close>

lemmas sim_moves =
  sim.moves_new_client sim.moves_prepare sim.moves_authenticate sim.moves_update sim.moves_resolve
  sim.moves_ready sim.moves_config sim.moves_up

lemma runs_moves:
  assumes "reachable m" "runtime_moves (others att) rt" "runs_to att m True g"
    and "moves (behind (\<lambda>s s'. runtime_moves (others att) rt \<longrightarrow> follows att s s')) f" "f g = (r, g')"
  shows "runs_to att m True g'"
  using runs_follows [OF assms(1,3)] movesD [OF assms(4,5)] assms(2) by (simp add: behind_def)

lemma runs_fail:
  assumes "reachable m" "runtime_moves (others att) rt" "runs_to att m True g"
  shows "runs_to att m True (failActivation rt failure e g)"
  using runs_follows [OF assms(1,3)] sim.moves_fail [of att rt g failure e] assms(2)
  by (simp add: behind_def)

lemma runs_or_fail:
  assumes m: "reachable m" and env: "runtime_moves (others att) rt" and g: "runs_to att m True g"
    and f: "moves (behind (\<lambda>s s'. runtime_moves (others att) rt \<longrightarrow> follows att s s')) f"
    and st: "\<not> success (fst l)"
    and nxt: "\<And>x g'. runs_to att m True g' \<Longrightarrow> runs_on att m (nxt x g')"
  shows "runs_on att m (or_fail rt failure wrap l (f g) nxt)"
proof -
  obtain r g' where fg: "f g = (r, g')"
    by (metis prod.exhaust)
  then have "runs_to att m True g'"
    by (rule runs_moves [OF m env g f])
  then show ?thesis
    using st nxt runs_fail [OF m env]
    by (cases r; cases l) (simp_all add: or_fail_def fg runs_on_def)
qed

lemma runs_complete:
  fixes m :: "('h, 'd) system"
  assumes m: "reachable m" and env: "runtime_moves (others att) rt" and g: "runs_to att m True g"
    and st: "\<not> success st"
  shows "runs_on att m
     (case locked rt (completeActivation (attempt_ctx att) h resolved) g of
        (None, g) \<Rightarrow> ((st, Some h), g)
      | (Some sid, g) \<Rightarrow> ((st\<lparr>success := True\<rparr>, Some h),
           snd (setStateForActiveSession rt sid ServiceStateStarted g)))"
proof -
  define s where "s = rt_meanwhile rt (snd g)"
  have s: "runs_to att m True (fst g, s)"
    using env by (intro runs_others [OF m g]) (simp add: runtime_moves_def s_def)
  obtain r s' where c: "completeActivation (attempt_ctx att) h resolved s = (r, s')"
    by (metis prod.exhaust)
  then have l: "locked rt (completeActivation (attempt_ctx att) h resolved) g = (r, (fst g, s'))"
    by (cases g) (simp add: s_def)
  show ?thesis
  proof (cases r)
    case None
    then have "s' = s"
      using c by (auto simp: completeActivation_def Let_def split: if_splits)
    then show ?thesis
      using None l s st by (simp add: runs_on_def)
  next
    case (Some sid)
    have "runs_to att m False (fst g, s')"
      by (rule runs_step [OF s, where T = "\<lambda>m. remove1 (token att) (running m)"])
        (use c Some in \<open>auto simp: token_def intro: step_complete\<close>)
    from runs_others [OF m this, of "(fst g, rt_meanwhile rt s')"]
    have "runs_to att m False (fst g, rt_meanwhile rt s')"
      using env by (simp add: runtime_moves_def)
    then have "runs_to att m False (fst g, snd (setStateForActiveSessionLocked sid ServiceStateStarted (rt_meanwhile rt s')))"
    proof (rule runs_step [where T = running])
      fix m' :: "('h, 'd) system"
      assume "sys_svc m' = snd (fst g, rt_meanwhile rt s')"
      then show "svc_step m' (m'\<lparr>sys_svc := snd (setStateForActiveSessionLocked sid ServiceStateStarted
          (rt_meanwhile rt s')), running := running m'\<rparr>)"
        using step_session_state [of m' sid ServiceStateStarted] by simp
    qed simp
    moreover have "snd (snd (setStateForActiveSession rt sid ServiceStateStarted (fst g, s'))) =
        snd (setStateForActiveSessionLocked sid ServiceStateStarted (rt_meanwhile rt s'))"
      by (auto simp: setStateForActiveSession_def split: option.split)
    ultimately show ?thesis
      using Some l by (simp add: runs_on_def runs_to_def)
  qed
qed

lemma runs_bringUp:
  assumes m: "reachable m" and env: "runtime_moves (others att) rt" and g: "runs_to att m True g"
  shows "runs_on att m (bringUp rt att h resolved settings g)"
proof -
  have st: "\<not> success (fst (newStatus, Some h))" "\<not> success (fst (newStatus\<lparr>daemonUp := True\<rparr>, Some h))"
    "\<not> success (newStatus\<lparr>daemonUp := True\<rparr>)"
    by (simp_all add: newStatus_def)
  show ?thesis
    unfolding bringUp_def Let_def
    by (intro runs_or_fail [OF m env] g st sim_moves runs_complete [OF m env])
qed

lemma runs_activate:
  assumes m: "reachable m" and env: "runtime_moves (others att) rt" and g: "runs_to att m True g"
  shows "runs_on att m (activate rt att g)"
proof -
  have st: "\<not> success (fst (newStatus, c))" for c :: "'h option"
    by (simp add: newStatus_def)
  have "runs_on att m ((newStatus, None), failActivation rt PluginFailureLoginFailed e g)" for e
    using runs_fail [OF m env g] by (simp add: runs_on_def newStatus_def)
  moreover have "runs_on att m (or_fail rt f w (newStatus, None) (new_client rt g)
      (\<lambda>h g. or_fail rt (\<lambda>_. PluginFailureConnectFailed) (\<lambda>e. e) (newStatus, Some h)
         (prepareDaemonProfile rt h settings g)
         (\<lambda>settings g. or_fail rt (\<lambda>_. PluginFailureLoginFailed) (\<lambda>e. e) (newStatus, Some h)
            (authenticate rt att h settings g)
            (\<lambda>_ g. or_fail rt (\<lambda>_. PluginFailureConnectFailed) (\<lambda>e. e) (newStatus, Some h)
               (updateDaemonProfile rt h settings g)
               (\<lambda>_ g. or_fail rt (\<lambda>_. PluginFailureConnectFailed) (\<lambda>e. e) (newStatus, Some h)
                  (Resolve (api rt h) (s_Profile settings) g)
                  (\<lambda>resolved g. bringUp rt att h resolved settings g))))))" for f w settings
    by (intro runs_or_fail [OF m env] g st sim_moves runs_bringUp [OF m env])
  ultimately show ?thesis
    unfolding activate_def Let_def by simp
qed

subsection \<open>Undisturbed activations\<close>

text \<open>
  \<open>untouched\<close>: nothing but the outside changes. \<open>same_slot\<close>: the fields that say who holds the slot and
  which session is active are the same.
\<close>

definition untouched :: "('h, 'd) service \<Rightarrow> ('h, 'd) service \<Rightarrow> bool" where
  "untouched s s' \<longleftrightarrow> s' = s\<lparr>outside := outside s'\<rparr>"

definition same_slot :: "('h, 'd) service \<Rightarrow> ('h, 'd) service \<Rightarrow> bool" where
  "same_slot s s' \<longleftrightarrow>
     activating s' = activating s \<and> activationCancel s' = activationCancel s \<and>
     monitorCancel s' = monitorCancel s \<and> svc_client s' = svc_client s \<and>
     sessionID s' = sessionID s \<and> activationID s' = activationID s \<and> cancelled s' = cancelled s"

lemma untouched_fields:
  assumes "untouched s s'"
  shows "svc_state s' = svc_state s" "same_slot s s'"
proof -
  have s': "s' = s\<lparr>outside := outside s'\<rparr>"
    using assms by (simp add: untouched_def)
  show "svc_state s' = svc_state s"
    by (subst s') simp
  show "same_slot s s'"
    unfolding same_slot_def by (subst (1 2 3 4 5 6 7) s') simp
qed

lemma same_slot_refl: "same_slot s s"
  by (simp add: same_slot_def)

lemma same_slot_trans: "same_slot s t \<Longrightarrow> same_slot t u \<Longrightarrow> same_slot s u"
  by (simp add: same_slot_def)

interpretation calm: attempt_relation "\<lambda>s s'. runtime_moves untouched rt \<longrightarrow> same_slot s s'" rt att
  for rt :: "('h, 'd) runtime" and att
proof unfold_locales
  show "runtime_moves (\<lambda>s s'. runtime_moves untouched rt \<longrightarrow> same_slot s s') rt"
    by (rule runtime_moves_if, erule runtime_moves_mono) (rule untouched_fields)
qed (auto simp: same_slot_def setStateValue_def new_channel_def registerActivationPrompt_def)

definition settled :: "('h, 'd) service \<Rightarrow> (activationStatus \<times> 'h option) \<times> ('h, 'd) go \<Rightarrow> bool" where
  "settled s = (\<lambda>((st, client), g).
     if success st
     then svc_state (snd g) = ServiceStateStarted \<and> svc_client (snd g) \<noteq> None \<and>
          sessionID (snd g) = sessionID s + 1 \<and> \<not> activating (snd g) \<and> activationCancel (snd g) = None
     else same_slot s (snd g) \<and> svc_state (snd g) = ServiceStateStopped \<and>
          (\<exists>t c. key_trace g = t @ [EmitSignal (Failure c)]))"

lemmas calm_moves =
  calm.moves_new_client calm.moves_prepare calm.moves_authenticate calm.moves_update calm.moves_resolve
  calm.moves_ready calm.moves_config calm.moves_up

lemma setState_state: "svc_state (snd (setState rt st g)) = st"
  by (cases g) (auto simp: setState_def setStateValue_def)

lemma settled_fail:
  assumes "runtime_moves untouched rt" "same_slot s (snd g)" "\<not> success (fst l)"
  shows "settled s (l, failActivation rt failure e g)"
proof -
  have "same_slot s (snd (failActivation rt failure e g))"
    using calm.moves_fail [of rt g failure e] assms(1,2) same_slot_trans by (auto simp: behind_def)
  moreover have "svc_state (snd (failActivation rt failure e g)) = ServiceStateStopped"
    by (simp add: failActivation_def setState_state Let_def)
  ultimately show ?thesis
    using assms(3) by (cases l) (simp add: settled_def fail_key)
qed

lemma settled_or_fail:
  assumes rt: "runtime_moves untouched rt" and s: "same_slot s (snd g)"
    and f: "moves (behind (\<lambda>s s'. runtime_moves untouched rt \<longrightarrow> same_slot s s')) f"
    and st: "\<not> success (fst l)"
    and nxt: "\<And>x g'. same_slot s (snd g') \<Longrightarrow> settled s (nxt x g')"
  shows "settled s (or_fail rt failure wrap l (f g) nxt)"
proof -
  obtain r g' where fg: "f g = (r, g')"
    by (metis prod.exhaust)
  then have "same_slot s (snd g')"
    using movesD [OF f fg] rt s same_slot_trans by (auto simp: behind_def)
  then show ?thesis
    using nxt settled_fail [OF rt _ st] by (cases r) (simp_all add: or_fail_def fg)
qed

lemma settled_complete:
  assumes rt: "runtime_moves untouched rt" and s: "same_slot s (snd g)"
    and "activating s" "attempt_ctx att \<notin> cancelled s"
  shows "settled s
     (case locked rt (completeActivation (attempt_ctx att) h resolved) g of
        (None, g) \<Rightarrow> ((st, Some h), g)
      | (Some sid, g) \<Rightarrow> ((st\<lparr>success := True\<rparr>, Some h),
           snd (setStateForActiveSession rt sid ServiceStateStarted g)))"
proof -
  have calm: "same_slot t (rt_meanwhile rt t)" for t
    using rt by (auto simp: runtime_moves_def intro: untouched_fields)
  define s1 where "s1 = rt_meanwhile rt (snd g)"
  have "same_slot s s1"
    using same_slot_trans [OF s calm] by (simp add: s1_def)
  then have "activating s1" "attempt_ctx att \<notin> cancelled s1" "sessionID s1 = sessionID s"
    using assms(3,4) by (simp_all add: same_slot_def)
  then obtain s2 where c: "completeActivation (attempt_ctx att) h resolved s1 = (Some (sessionID s + 1), s2)"
    and s2: "svc_client s2 = Some h" "sessionID s2 = sessionID s + 1" "\<not> activating s2" "activationCancel s2 = None"
    by (auto simp: completeActivation_def startMonitorLocked_def cancel_if_def cancel_ctx_def Let_def
        split: option.split)
  let ?s3 = "rt_meanwhile rt s2"
  have "svc_client ?s3 = Some h" "sessionID ?s3 = sessionID s + 1" "\<not> activating ?s3" "activationCancel ?s3 = None"
    using calm [of s2] s2 by (simp_all add: same_slot_def)
  then have "settled s ((st\<lparr>success := True\<rparr>, Some h),
      snd (setStateForActiveSession rt (sessionID s + 1) ServiceStateStarted (fst g, s2)))"
    by (auto simp: settled_def setStateForActiveSession_def setStateForActiveSessionLocked_def setStateValue_def)
  moreover have "locked rt (completeActivation (attempt_ctx att) h resolved) g = (Some (sessionID s + 1), (fst g, s2))"
    using c by (cases g) (simp add: s1_def)
  ultimately show ?thesis
    by simp
qed

lemma settled_activate:
  assumes rt: "runtime_moves untouched rt" and g: "same_slot s (snd g)"
    and slot: "activating s" "attempt_ctx att \<notin> cancelled s"
  shows "settled s (activate rt att g)"
proof -
  have st: "\<not> success (fst (newStatus, c))" "\<not> success (fst (newStatus\<lparr>daemonUp := True\<rparr>, c))"
    for c :: "'h option"
    by (simp_all add: newStatus_def)
  have up: "settled s (bringUp rt att h resolved settings g1)" if "same_slot s (snd g1)" for h resolved settings g1
    unfolding bringUp_def Let_def
    by (intro settled_or_fail [OF rt] that st calm_moves settled_complete [OF rt _ slot])
  have "settled s (or_fail rt f w (newStatus, None) (new_client rt g)
      (\<lambda>h g. or_fail rt (\<lambda>_. PluginFailureConnectFailed) (\<lambda>e. e) (newStatus, Some h)
         (prepareDaemonProfile rt h settings g)
         (\<lambda>settings g. or_fail rt (\<lambda>_. PluginFailureLoginFailed) (\<lambda>e. e) (newStatus, Some h)
            (authenticate rt att h settings g)
            (\<lambda>_ g. or_fail rt (\<lambda>_. PluginFailureConnectFailed) (\<lambda>e. e) (newStatus, Some h)
               (updateDaemonProfile rt h settings g)
               (\<lambda>_ g. or_fail rt (\<lambda>_. PluginFailureConnectFailed) (\<lambda>e. e) (newStatus, Some h)
                  (Resolve (api rt h) (s_Profile settings) g)
                  (\<lambda>resolved g. bringUp rt att h resolved settings g))))))" for f w settings
    by (intro settled_or_fail [OF rt] g st calm_moves up)
  then show ?thesis
    unfolding activate_def Let_def using settled_fail [OF rt g st(1)] by simp
qed

text \<open>The clean-up keeps the state and the session.\<close>

definition same_session :: "('h, 'd) service \<Rightarrow> ('h, 'd) service \<Rightarrow> bool" where
  "same_session s s' \<longleftrightarrow> svc_state s' = svc_state s \<and> svc_client s' = svc_client s \<and>
     sessionID s' = sessionID s \<and> activating s' = activating s \<and> activationCancel s' = activationCancel s"

lemma same_session_trans: "same_session s t \<Longrightarrow> same_session t u \<Longrightarrow> same_session s u"
  by (simp add: same_session_def)

lemma untouched_session: "untouched s s' \<Longrightarrow> same_session s s'"
  using untouched_fields [of s s'] by (simp add: same_session_def same_slot_def)

lemma session_do:
  assumes "runtime_moves untouched rt" "\<And>s. same_session s (k s)"
  shows "same_session (snd g) (snd (locked_do rt k g))"
  using assms same_session_trans untouched_session by (cases g) (fastforce simp: runtime_moves_def)

lemma finish_session:
  assumes rt: "runtime_moves untouched rt"
  shows "if success st then same_session (snd g) (snd (finishActivationAttempt rt att st client g))
    else same_session ((snd g)\<lparr>activating := False, activationCancel := None\<rparr>)
           (snd (finishActivationAttempt rt att st client g))"
proof -
  let ?g1 = "locked_do rt (clearPromptForActivation (attempt_id att)) g"
  define g2 where "g2 = (case client of
      Some h \<Rightarrow> if \<not> success st \<and> daemonUp st then snd (c_Down (api rt h) ?g1) else ?g1 | None \<Rightarrow> ?g1)"
  define g3 where "g3 = locked_do rt (cancel_ctx (attempt_ctx att)) g2"
  define g4 where "g4 = locked_do rt finishFailedActivation g3"
  have call: "same_session (snd g') (snd (snd (logged a f g')))" if "moves untouched f" for a f g'
  proof -
    have "untouched (snd g') (snd (f (snd g')))"
      by (rule moves_result [OF that])
    then show ?thesis
      by (cases g') (simp add: logged_def case_prod_beta untouched_session)
  qed
  have down: "same_session (snd g') (snd (snd (c_Down (api rt h) g')))"
    and close: "same_session (snd g') (snd (snd (c_Close (api rt h) g')))" for h g'
    using rt by (auto simp: api_def recording_def runtime_moves_def client_moves_def intro: call)
  have "same_session (snd g) (snd ?g1)"
    by (intro session_do [OF rt]) (simp add: same_session_def clearPromptForActivation_def split: option.split)
  then have "same_session (snd g) (snd g2)"
    using same_session_trans [OF _ down] by (auto simp: g2_def split: option.split)
  moreover have "same_session (snd g2) (snd g3)"
    unfolding g3_def by (intro session_do [OF rt]) (simp add: same_session_def cancel_ctx_def)
  ultimately have 3: "same_session (snd g) (snd g3)"
    by (rule same_session_trans)
  have "same_session t (rt_meanwhile rt t)" for t
    using rt by (auto simp: runtime_moves_def intro: untouched_session)
  then have 4: "same_session ((snd g)\<lparr>activating := False, activationCancel := None\<rparr>) (snd g4)"
    using 3 by (cases g3) (simp add: g4_def same_session_def finishFailedActivation_def)
  have "finishActivationAttempt rt att st client g =
      (if success st then g3 else (case client of Some h \<Rightarrow> snd (c_Close (api rt h) g4) | None \<Rightarrow> g4))"
    unfolding finishActivationAttempt_def g4_def g3_def g2_def Let_def by (rule refl)
  then show ?thesis
    using 3 4 same_session_trans [OF 4 close] by (auto split: option.split)
qed

text \<open>The path of the whole goroutine.\<close>

lemma activation_path:
  assumes "reachable m" "token att \<in> set (running m)" "runtime_moves (others att) rt"
  shows "\<exists>m'. svc_step\<^sup>*\<^sup>* m m' \<and> sys_svc m' = snd (runActivation rt att (log, sys_svc m)) \<and> reachable m'"
proof -
  have "runs_to att m True (log, sys_svc m)"
    using assms(1,2) running_context by (auto simp: runs_to_def)
  from runs_activate [OF assms(1,3) this]
  have "runs_to att m False (runActivation rt att (log, sys_svc m))"
    using finish_runs [OF assms(1,3)]
    by (auto simp: runActivation_def runs_on_def split: prod.split)
  then show ?thesis
    using reachable_steps [OF assms(1)] unfolding runs_to_def by blast
qed

section \<open>Properties\<close>

text \<open>
  C3: an activation is a path of the step relation. If the other goroutines and the daemon act on the
  service only by its steps, and leave the activation its slot, then everything the activation's
  goroutine does to the service, from the first lock to the last, is a sequence of steps too. So all that
  holds in every reachable state holds during and after an activation.
\<close>

theorem runActivation_refines:
  assumes "reachable m" "token att \<in> set (running m)" "runtime_moves (others att) rt"
  shows "\<exists>m'. svc_step\<^sup>*\<^sup>* m m' \<and> sys_svc m' = snd (runActivation rt att (log, sys_svc m)) \<and> reachable m'"
  by (rule activation_path [OF assms])

lemma runActivation_refines_witness:
  "\<exists>m'. svc_step\<^sup>*\<^sup>* (first_attempt ()) m' \<and>
     sys_svc m' = snd (runActivation (steady_runtime ''Connected'') steady_attempt
       ([], sys_svc (first_attempt ()))) \<and> reachable m'"
proof (rule runActivation_refines [OF first_attempt_reachable])
  show "token steady_attempt \<in> set (running (first_attempt () :: (nat, unit) system))"
    by (simp add: token_def steady_attempt_def first_attempt_def)
  show "runtime_moves (others steady_attempt) (steady_runtime ''Connected'')"
    by (rule steady_moves) (auto simp: others_def)
qed

text \<open>
  C6: the outcome of an undisturbed activation. When no other goroutine touches the service, an
  activation that holds the slot either ends with the state STARTED, a new session with a client, and the
  trace of a success; or with the state STOPPED, the client and session of before, and a failure reported.
  Either way the slot is free again.
\<close>

theorem undisturbed_activation:
  assumes "runtime_moves untouched rt" "activating s" "attempt_ctx att \<notin> cancelled s"
  shows "case runActivation rt att ([], s) of (log, s') \<Rightarrow>
    \<not> activating s' \<and> activationCancel s' = None \<and>
    (if \<exists>p m. filter key_action log = [NewClient, Up p, EmitSignal (Config m)]
     then svc_state s' = ServiceStateStarted \<and> svc_client s' \<noteq> None \<and> sessionID s' = sessionID s + 1
     else svc_state s' = ServiceStateStopped \<and> svc_client s' = svc_client s \<and> sessionID s' = sessionID s \<and>
          (\<exists>c. EmitSignal (Failure c) \<in> set log))"
proof -
  obtain st client g where run: "activate rt att ([], s) = ((st, client), g)"
    by (metis prod.exhaust)
  let ?g = "finishActivationAttempt rt att st client g"
  have left: "left_after (key_trace g) (st, client)"
    using leaves_activate [of rt att s] by (simp add: leaves_def run)
  have settled: "settled s ((st, client), g)"
    using settled_activate [OF assms(1) _ assms(2,3), where g = "([], s)"] run by (simp add: same_slot_refl)
  have fin: "if success st then same_session (snd g) (snd ?g)
      else same_session ((snd g)\<lparr>activating := False, activationCancel := None\<rparr>) (snd ?g)"
    by (rule finish_session [OF assms(1)])
  show ?thesis
  proof (cases "success st")
    case True
    then have "\<exists>p m. key_trace ?g = [NewClient, Up p, EmitSignal (Config m)]"
      using left by (cases rule: left_afterE) (auto simp: finish_key newStatus_def)
    then show ?thesis
      using True settled fin
      by (cases ?g) (auto simp: runActivation_def run settled_def same_session_def)
  next
    case False
    then obtain t c where t: "key_trace g = t @ [EmitSignal (Failure c)]"
      using settled by (auto simp: settled_def)
    then have fails: "EmitSignal (Failure c) \<in> set (key_trace ?g)"
      by (simp add: finish_key)
    then have "EmitSignal (Failure c) \<in> set (fst ?g)"
      by (auto simp: key_trace_def)
    moreover have "\<not> (\<exists>p m. key_trace ?g = [NewClient, Up p, EmitSignal (Config m)])"
      using fails by force
    ultimately have "EmitSignal (Failure c) \<in> set (fst ?g)" "\<not> (\<exists>p m. key_trace ?g = [NewClient, Up p, EmitSignal (Config m)])"
      by blast+
    then show ?thesis
      using False settled fin
      by (cases ?g) (auto simp: runActivation_def run settled_def same_session_def same_slot_def)
  qed
qed

lemma undisturbed_activation_witness:
  "svc_state (snd (runActivation (steady_runtime ''Connected'') steady_attempt
     ([], sys_svc (first_attempt ())))) = ServiceStateStarted"
proof -
  let ?g = "runActivation (steady_runtime ''Connected'') steady_attempt ([], sys_svc (first_attempt ()))"
  have "filter key_action (fst ?g) =
      [NewClient, Up no_profile_ref, EmitSignal (Config (networkManagerConfig [] (VUint32 0x0A000001)))]"
    by code_simp
  moreover have "runtime_moves untouched (steady_runtime ''Connected'')"
    by (rule steady_moves) (simp add: untouched_def)
  ultimately show ?thesis
    using undisturbed_activation [of "steady_runtime ''Connected''" "sys_svc (first_attempt ())" steady_attempt]
    by (auto simp: first_attempt_def NewService_def steady_attempt_def split: prod.splits)
qed

end
