(* ===== verification/Handlers.thy ===== *)
theory Handlers
  imports Interleaving
begin

text \<open>
  The D-Bus methods of the plugin and its properties (\<open>internal/nmplugin/service.go\<close>, \<open>properties.go\<close>) and the
  options of the service (\<open>helpers.go\<close>). A method is run by a goroutine of its own; it threads
  the log and the service as the activation does. The lemmas say what a method answers, what it
  does to the service, and how the answer of one method bears on another.
\<close>

section \<open>Definitions\<close>

subsection \<open>Starting an activation\<close>

text \<open>
  \<open>startActivation\<close> returns its D-Bus error, if any, and the attempt for which it starts the goroutine
  \<open>runActivation\<close>.
\<close>

definition startActivation ::
  "('h, 'd) runtime \<Rightarrow> connection_settings \<Rightarrow> variant_map \<Rightarrow> bool \<Rightarrow> ('h, 'd) go
     \<Rightarrow> (dbus_error option \<times> activationAttempt option) \<times> ('h, 'd) go" where
  "startActivation rt connection details interactive g =
     (case locked rt reserveActivation g of
        (Inl dbusErr, g) \<Rightarrow> ((Some dbusErr, None), g)
      | (Inr (ctx, idn), g) \<Rightarrow>
          ((None, Some \<lparr>attempt_ctx = ctx, attempt_id = idn, attempt_connection = connection,
                        attempt_details = details, attempt_interactive = interactive\<rparr>),
           setState rt ServiceStateStarting g))"

definition Connect ::
  "('h, 'd) runtime \<Rightarrow> connection_settings \<Rightarrow> ('h, 'd) go
     \<Rightarrow> (dbus_error option \<times> activationAttempt option) \<times> ('h, 'd) go" where
  "Connect rt connection g = startActivation rt connection [] False g"

definition ConnectInteractive ::
  "('h, 'd) runtime \<Rightarrow> connection_settings \<Rightarrow> variant_map \<Rightarrow> ('h, 'd) go
     \<Rightarrow> (dbus_error option \<times> activationAttempt option) \<times> ('h, 'd) go" where
  "ConnectInteractive rt connection details g = startActivation rt connection details True g"

definition vpnSettingName :: string where
  "vpnSettingName = ''vpn''"

definition NeedSecrets :: "connection_settings \<Rightarrow> string" where
  "NeedSecrets settings =
     (if needsSetupKeySecret (parseActivationSettings settings) then vpnSettingName else [])"

subsection \<open>Stopping\<close>

definition Disconnect :: "('h, 'd) runtime \<Rightarrow> ('h, 'd) go \<Rightarrow> dbus_error option \<times> ('h, 'd) go" where
  "Disconnect rt g0 =
     (case locked rt disconnectLocked g0 of
        (client, g1) \<Rightarrow>
          (let g2 = setState rt ServiceStateStopping g1
           in case client of
                None \<Rightarrow> (None, setState rt ServiceStateStopped g2)
              | Some h \<Rightarrow>
                  (case c_Down (api rt h) g2 of
                     (err, g3) \<Rightarrow>
                       (let g4 = snd (c_Close (api rt h) g3)
                        in case err of
                             Some e \<Rightarrow>
                               (Some (newDBusError dbusErrorVPNFailed ''netbird down failed''),
                                setState rt ServiceStateStopped
                                  (snd (EmitFailure rt PluginFailureConnectFailed g4)))
                           | None \<Rightarrow> (None, setState rt ServiceStateStopped g4)))))"

definition SetFailure :: "('h, 'd) runtime \<Rightarrow> string \<Rightarrow> ('h, 'd) go \<Rightarrow> ('h, 'd) go" where
  "SetFailure rt reason g = locked_do rt setFailureLocked g"

subsection \<open>Properties of the D-Bus object\<close>

definition service_State :: "('h, 'd) service \<Rightarrow> service_state" where
  "service_State s = svc_state s"

definition Properties_Get :: "('h, 'd) service \<Rightarrow> string \<Rightarrow> string \<Rightarrow> dbus_error + gval" where
  "Properties_Get s interfaceName propertyName =
     (if interfaceName \<noteq> Interface
      then Inl (newDBusError dbusErrorUnknownInterface (''unknown interface '' @ go_quote interfaceName))
      else if propertyName = ''State'' then Inr (VUint32 (state_code (service_State s)))
      else Inl (newDBusError dbusErrorUnknownProperty (''unknown property '' @ go_quote propertyName)))"

definition Properties_GetAll :: "('h, 'd) service \<Rightarrow> string \<Rightarrow> dbus_error + variant_map" where
  "Properties_GetAll s interfaceName =
     (if interfaceName \<noteq> Interface
      then Inl (newDBusError dbusErrorUnknownInterface (''unknown interface '' @ go_quote interfaceName))
      else Inr [(''State'', VUint32 (state_code (service_State s)))])"

definition Properties_Set :: "string \<Rightarrow> string \<Rightarrow> gval \<Rightarrow> dbus_error" where
  "Properties_Set interfaceName propertyName v =
     (if interfaceName \<noteq> Interface
      then newDBusError dbusErrorUnknownInterface (''unknown interface '' @ go_quote interfaceName)
      else if propertyName \<noteq> ''State''
      then newDBusError dbusErrorUnknownProperty (''unknown property '' @ go_quote propertyName)
      else newDBusError dbusErrorPropertyReadOnly (''property '' @ go_quote propertyName @ '' is read-only''))"

subsection \<open>The rest of the plugin interface\<close>

text \<open>
  \<open>EmitIp4Config\<close> and \<open>EmitIp6Config\<close> are called by nobody; \<open>SetConfig\<close>, \<open>SetIp4Config\<close> and \<open>SetIp6Config\<close>
  take the configuration without using it.
\<close>

definition EmitIp4Config :: "('h, 'd) runtime \<Rightarrow> variant_map \<Rightarrow> ('h, 'd) go \<Rightarrow> gerr option \<times> ('h, 'd) go" where
  "EmitIp4Config rt config = emit rt (Ip4Config config)"

definition EmitIp6Config :: "('h, 'd) runtime \<Rightarrow> variant_map \<Rightarrow> ('h, 'd) go \<Rightarrow> gerr option \<times> ('h, 'd) go" where
  "EmitIp6Config rt config = emit rt (Ip6Config config)"

definition SetConfig :: "variant_map \<Rightarrow> ('h, 'd) go \<Rightarrow> dbus_error option \<times> ('h, 'd) go" where
  "SetConfig config g = (None, g)"

definition SetIp4Config :: "variant_map \<Rightarrow> ('h, 'd) go \<Rightarrow> dbus_error option \<times> ('h, 'd) go" where
  "SetIp4Config config g = (None, g)"

definition SetIp6Config :: "variant_map \<Rightarrow> ('h, 'd) go \<Rightarrow> dbus_error option \<times> ('h, 'd) go" where
  "SetIp6Config config g = (None, g)"

text \<open>
  \<open>Export\<close> on a connection: \<open>None\<close> for a nil connection, otherwise what the bus answers to the
  export of an interface.
\<close>

definition Export :: "(string \<Rightarrow> gerr option) option \<Rightarrow> gerr option" where
  "Export conn =
     (case conn of
        None \<Rightarrow> Some (Errorf ''dbus connection is nil'' [])
      | Some export \<Rightarrow>
          (case export Interface of
             Some e \<Rightarrow> Some (Errorf (''export '' @ Interface) [e])
           | None \<Rightarrow>
               (case export PropertiesInterface of
                  Some e \<Rightarrow> Some (Errorf (''export '' @ PropertiesInterface) [e])
                | None \<Rightarrow>
                    (case export ''org.freedesktop.DBus.Introspectable'' of
                       Some e \<Rightarrow> Some (Errorf ''export introspection'' [e])
                     | None \<Rightarrow> None))))"

subsection \<open>Options and log lines\<close>

text \<open>A \<open>time.Duration\<close>: a signed 64-bit number of nanoseconds.\<close>

type_synonym duration = "64 word"

definition seconds :: "nat \<Rightarrow> duration" where
  "seconds n = of_nat n * 1000000000"

definition positiveDuration :: "duration \<Rightarrow> duration \<Rightarrow> duration" where
  "positiveDuration v fallback = (if sint v \<le> 0 then fallback else v)"

record service_options =
  ActivationTimeout :: duration
  SSOWaitTimeout :: duration
  OperationTimeout :: duration
  ReadyPollInterval :: duration
  StatusPollInterval :: duration
  StatusCallTimeout :: duration

definition defaultServiceOptions :: service_options where
  "defaultServiceOptions =
     \<lparr>ActivationTimeout = seconds 90, SSOWaitTimeout = seconds 600, OperationTimeout = seconds 20,
      ReadyPollInterval = 500000000, StatusPollInterval = seconds 5, StatusCallTimeout = seconds 5\<rparr>"

definition normalizeServiceOptions :: "service_options \<Rightarrow> service_options" where
  "normalizeServiceOptions opts =
     (let d = defaultServiceOptions
      in \<lparr>ActivationTimeout = positiveDuration (ActivationTimeout opts) (ActivationTimeout d),
          SSOWaitTimeout = positiveDuration (SSOWaitTimeout opts) (SSOWaitTimeout d),
          OperationTimeout = positiveDuration (OperationTimeout opts) (OperationTimeout d),
          ReadyPollInterval = positiveDuration (ReadyPollInterval opts) (ReadyPollInterval d),
          StatusPollInterval = positiveDuration (StatusPollInterval opts) (StatusPollInterval d),
          StatusCallTimeout = positiveDuration (StatusCallTimeout opts) (StatusCallTimeout d)\<rparr>)"

text \<open>What the log says of settings: section and key names, never values.\<close>

definition summarizeSettings :: "connection_settings \<Rightarrow> string" where
  "summarizeSettings settings =
     (if settings = [] then ''{}''
      else
        join ''; ''
          (sort (map (\<lambda>(section, vs). section @ ''['' @ join '','' (sort (map fst vs)) @ '']'') settings)))"

definition summarizeVariantMap :: "variant_map \<Rightarrow> string" where
  "summarizeVariantMap vs =
     (if vs = [] then ''{}'' else ''{'' @ join '','' (sort (map fst vs)) @ ''}'')"

section \<open>Lemmas\<close>

lemma setState_key_nil: "filter key_action (fst (setState rt st g)) = filter key_action (fst g)"
  using quiet_state [of rt st g] by (simp add: key_trace_def)

lemma untouched_calm:
  assumes "runtime_moves untouched rt"
  shows "untouched s (rt_meanwhile rt s)"
    and "untouched (snd g) (snd (snd (c_Down (api rt h) g)))"
    and "untouched (snd g) (snd (snd (c_Close (api rt h) g)))"
  using assms moves_result [of untouched "c_Down (rt_api rt h)" "snd g"]
    moves_result [of untouched "c_Close (rt_api rt h)" "snd g"]
  by (cases g; simp add: runtime_moves_def client_moves_def api_def recording_def logged_def case_prod_beta)+

text \<open>What a disconnect leaves behind: the service without session, client, prompt or monitor.\<close>

definition stopped :: "('h, 'd) service \<Rightarrow> ('h, 'd) service \<Rightarrow> bool" where
  "stopped s s' \<longleftrightarrow>
     svc_client s' = None \<and> monitorCancel s' = None \<and> svc_prompt s' = None \<and> activeProfile s' = no_profile_ref \<and>
     sessionID s' = sessionID s + 1 \<and> activating s' = activating s \<and>
     set_option (monitorCancel s) \<union> set_option (activationCancel s) \<subseteq> cancelled s'"

lemma stopped_disconnectLocked: "stopped s (snd (disconnectLocked s))"
  by (auto simp: stopped_def disconnectLocked_def Let_def cancel_if_def cancel_ctx_def split: option.splits)

lemma untouchedE:
  assumes "untouched s t"
  obtains d where "t = s\<lparr>outside := d\<rparr>"
  using assms unfolding untouched_def by blast

lemma stopped_untouched: "stopped s t \<Longrightarrow> untouched t u \<Longrightarrow> stopped s u"
  by (erule untouchedE) (simp add: stopped_def)

lemma stopped_before: "untouched s s1 \<Longrightarrow> stopped s1 t \<Longrightarrow> stopped s t"
  by (erule untouchedE) (simp add: stopped_def)

lemma stopped_setState:
  assumes "runtime_moves untouched rt" "stopped s (snd g)"
  shows "stopped s (snd (setState rt st g))"
proof -
  have "stopped s (rt_meanwhile rt (snd g))"
    by (rule stopped_untouched [OF assms(2) untouched_calm(1) [OF assms(1)]])
  then have "stopped s (snd (setStateValue st (rt_meanwhile rt (snd g))))"
    by (simp add: setStateValue_def stopped_def)
  then show ?thesis
    using setState_log [of rt st "fst g" "snd g"] by auto
qed

lemma Disconnect_outcome:
  assumes "runtime_moves untouched rt"
  shows "svc_state (snd (snd (Disconnect rt (log, s)))) = ServiceStateStopped \<and>
    stopped s (snd (snd (Disconnect rt (log, s))))"
proof -
  let ?g1 = "(log, snd (disconnectLocked (rt_meanwhile rt s)))"
  let ?g2 = "setState rt ServiceStateStopping ?g1"
  have "stopped s (snd ?g1)"
    using stopped_before [OF untouched_calm(1) [OF assms] stopped_disconnectLocked] by simp
  then have 2: "stopped s (snd ?g2)"
    by (rule stopped_setState [OF assms])
  have end_stopped: "svc_state (snd (setState rt ServiceStateStopped g)) = ServiceStateStopped \<and>
      stopped s (snd (setState rt ServiceStateStopped g))" if "stopped s (snd g)" for g
    using stopped_setState [OF assms that] by (simp add: setState_state)
  show ?thesis
  proof (cases "fst (disconnectLocked (rt_meanwhile rt s))")
    case None
    then show ?thesis
      using end_stopped [OF 2] by (auto simp: Disconnect_def split: prod.split)
  next
    case (Some h)
    obtain err g3 where down: "c_Down (api rt h) ?g2 = (err, g3)"
      by (metis prod.exhaust)
    let ?g4 = "snd (c_Close (api rt h) g3)"
    have "untouched (snd ?g2) (snd g3)"
      using untouched_calm(2) [OF assms, of ?g2 h] by (simp add: down)
    then have "stopped s (snd ?g4)"
      using stopped_untouched [OF stopped_untouched [OF 2] untouched_calm(3) [OF assms]] by blast
    moreover from this have "stopped s (snd (snd (EmitFailure rt PluginFailureConnectFailed ?g4)))"
      by (cases ?g4) (simp add: EmitFailure_def)
    ultimately show ?thesis
      using end_stopped [of ?g4] end_stopped [of "snd (EmitFailure rt PluginFailureConnectFailed ?g4)"]
      by (cases err) (auto simp: Disconnect_def Some down Let_def split: prod.split)
  qed
qed

section \<open>Properties\<close>

text \<open>
  what a disconnect does. Without an active session it calls nothing; with one it takes the daemon down
  once and closes the client once, and it reports a failure, on the bus and to the caller, exactly when
  the daemon refused to go down.
\<close>

theorem Disconnect_trace:
  "case Disconnect rt ([], s) of (r, log, s') \<Rightarrow>
     filter key_action log =
       (if svc_client (rt_meanwhile rt s) = None then []
        else [Down, Close] @ (if r = None then [] else [EmitSignal (Failure 1)])) \<and>
     (svc_client (rt_meanwhile rt s) = None \<longrightarrow> r = None)"
proof -
  let ?g1 = "([], snd (disconnectLocked (rt_meanwhile rt s)))"
  let ?g2 = "setState rt ServiceStateStopping ?g1"
  have client: "fst (disconnectLocked (rt_meanwhile rt s)) = svc_client (rt_meanwhile rt s)"
    by (simp add: disconnectLocked_def Let_def cancel_if_def cancel_ctx_def split: option.split)
  have quiet: "key_trace ?g2 = []"
    by (simp add: quiet_state)
  show ?thesis
  proof (cases "svc_client (rt_meanwhile rt s)")
    case None
    then show ?thesis
      using quiet quiet_state [of rt ServiceStateStopped ?g2]
      by (auto simp: Disconnect_def client key_trace_def split: prod.split)
  next
    case (Some h)
    obtain err g3 where down: "c_Down (api rt h) ?g2 = (err, g3)"
      by (metis prod.exhaust)
    let ?g4 = "snd (c_Close (api rt h) g3)"
    have "key_trace ?g4 = [Down, Close]"
      using api_key(2) [of rt h ?g2] api_key(3) [of rt h g3] quiet by (simp add: down)
    moreover from this have "key_trace (snd (EmitFailure rt PluginFailureConnectFailed ?g4)) =
        [Down, Close, EmitSignal (Failure 1)]"
      by (cases ?g4) (simp add: EmitFailure_def)
    ultimately have
      "key_trace (setState rt ServiceStateStopped ?g4) = [Down, Close]"
      "key_trace (setState rt ServiceStateStopped (snd (EmitFailure rt PluginFailureConnectFailed ?g4))) =
        [Down, Close, EmitSignal (Failure 1)]"
      by (simp_all only: quiet_state)
    then show ?thesis
      by (cases err) (auto simp: Disconnect_def client Some down key_trace_def Let_def split: prod.split)
  qed
qed

text \<open>
  C30: an undisturbed disconnect ends the session and stops the plugin, whether or not the daemon could be
  taken down: the state is STOPPED, there is no client, monitor, prompt or active profile, the monitor
  and the activation in flight are cancelled, and the session has a new number.
\<close>

theorem Disconnect_stops:
  assumes "runtime_moves untouched rt"
  shows "case Disconnect rt (log, s) of (r, log', s') \<Rightarrow>
    svc_state s' = ServiceStateStopped \<and> stopped s s'"
  using Disconnect_outcome [OF assms, of log s] by (simp add: case_prod_beta)

lemma Disconnect_stops_witness:
  "svc_state (snd (snd (Disconnect (steady_runtime ''Connected'') ([], sys_svc (first_attempt ()))))) =
     ServiceStateStopped"
proof -
  have "runtime_moves untouched (steady_runtime ''Connected'')"
    by (rule steady_moves) (simp add: untouched_def)
  from Disconnect_stops [OF this, where s = "sys_svc (first_attempt ())" and log = "[]"] show ?thesis
    by (auto split: prod.splits)
qed

text \<open>
  NeedSecrets foretells what a non-interactive login lacks. NetworkManager is told to ask for vpn secrets exactly for
  those connections whose login would be refused, without any call to the daemon, for want of a
  setup key.
\<close>

theorem NeedSecrets_iff_login_refused:
  assumes "\<not> attempt_interactive att"
  shows "NeedSecrets connection = vpnSettingName \<longleftrightarrow>
    authenticate rt att h (parseActivationSettings connection) g = (Inl (Sentinel ErrMissingSetupKey), g)"
proof -
  let ?s = "parseActivationSettings connection"
  have needs: "NeedSecrets connection = vpnSettingName \<longleftrightarrow> needsSetupKeySecret ?s"
    by (simp add: NeedSecrets_def vpnSettingName_def)
  have "fst (snd (loginAndWait rt att h ?s g)) = fst g @ [Login (daemonLoginRequest (rt_os rt) ?s)]"
    using assms by (cases g) (auto simp: loginAndWait_def api_def recording_def logged_def on_ok_def Let_def
        split: prod.splits sum.splits)
  then have "loginAndWait rt att h ?s g \<noteq> (r, g)" for r
    by auto
  then show ?thesis
    unfolding needs using assms
    by (auto simp: authenticate_def needsSetupKeySecret_def shouldLogin_def)
qed

lemma NeedSecrets_iff_login_refused_witness:
  "NeedSecrets [(''vpn'', [(''auth-mode'', VString ''setup-key'')])] = ''vpn''"
proof -
  have "authenticate (steady_runtime ''Connected'') steady_attempt 7
      (parseActivationSettings [(''vpn'', [(''auth-mode'', VString ''setup-key'')])]) ([], sys_svc (first_attempt ())) =
    (Inl (Sentinel ErrMissingSetupKey), ([], sys_svc (first_attempt ())))"
  proof -
    have "s_AuthMode (parseActivationSettings [(''vpn'', [(''auth-mode'', VString ''setup-key'')])]) = ''setup-key''"
      "trim_space (s_SetupKey (parseActivationSettings [(''vpn'', [(''auth-mode'', VString ''setup-key'')])])) = []"
      by code_simp+
    then show ?thesis
      by (simp add: authenticate_def shouldLogin_def steady_attempt_def)
  qed
  then show ?thesis
    using NeedSecrets_iff_login_refused [of steady_attempt "[(''vpn'', [(''auth-mode'', VString ''setup-key'')])]"
        "steady_runtime ''Connected''" 7 "([], sys_svc (first_attempt ()))"]
    by (simp add: steady_attempt_def vpnSettingName_def)
qed

text \<open>
  a second Connect is refused. While an undisturbed plugin carries out the activation of one Connect, another, interactive or not,
  is answered with the AlreadyStarted error; it emits nothing and starts nothing.
\<close>

theorem second_connect_refused:
  assumes "runtime_moves untouched rt"
    and "startActivation rt c1 d1 i1 g = ((None, Some att), g1)"
  shows "case startActivation rt c2 d2 i2 g1 of ((err, att2), g2) \<Rightarrow>
    map_option dbus_name err = Some dbusErrorVPNAlreadyActive \<and> att2 = None \<and> fst g2 = fst g1 \<and>
    activationID (snd g2) = attempt_id att"
proof -
  have calm: "untouched s (rt_meanwhile rt s)" for s
    by (rule untouched_calm(1) [OF assms(1)])
  define s0 where "s0 = rt_meanwhile rt (snd g)"
  define s1 where "s1 = s0\<lparr>next_ref := next_ref s0 + 1, activationID := activationID s0 + 1, activating := True,
      activationCancel := Some (next_ref s0), svc_prompt := None\<rparr>"
  have g1: "g1 = setState rt ServiceStateStarting (fst g, s1)" and s1: "activating s1" "activationID s1 = attempt_id att"
    using assms(2)
    by (cases g; auto simp: startActivation_def reserveActivation_def Let_def s0_def s1_def split: if_splits)+
  have "activating (snd g1)" "activationID (snd g1) = attempt_id att"
    using s1 setState_log [of rt ServiceStateStarting "fst g" s1] calm [of s1]
    by (auto simp: g1 setStateValue_def elim!: untouchedE)
  then have "activating (rt_meanwhile rt (snd g1))" "activationID (rt_meanwhile rt (snd g1)) = attempt_id att"
    using calm [of "snd g1"] by (auto elim!: untouchedE)
  then show ?thesis
    by (cases g1) (simp add: startActivation_def reserveActivation_def newDBusError_def)
qed

lemma second_connect_refused_witness:
  "\<exists>g1. fst (startActivation (steady_runtime ''Connected'') [] [] True g1) \<noteq> (None, None) \<and>
     snd (fst (startActivation (steady_runtime ''Connected'') [] [] True g1)) = None"
proof -
  have rt: "runtime_moves untouched (steady_runtime ''Connected'')"
    by (rule steady_moves) (simp add: untouched_def)
  let ?first = "startActivation (steady_runtime ''Connected'') [] [] False ([], NewService ())"
  have "\<exists>att g1. ?first = ((None, Some att), g1)"
    by (auto simp: startActivation_def steady_runtime_def reserveActivation_def NewService_def Let_def)
  then obtain att g1 where "?first = ((None, Some att), g1)"
    by blast
  from second_connect_refused [OF rt this, of "[]" "[]" True] show ?thesis
    by (intro exI [of _ g1]) (auto split: prod.splits)
qed

text \<open>
  the log of a connection holds names only. The summary written for settings is determined by the
  names of their sections and keys: no value, so no setup key or pre-shared key, has an influence on it.
\<close>

theorem summary_hides_values:
  assumes "map (\<lambda>(section, vs). (section, map fst vs)) s = map (\<lambda>(section, vs). (section, map fst vs)) t"
  shows "summarizeSettings s = summarizeSettings t"
proof -
  define line where "line = (\<lambda>(section :: string, ks :: string list). section @ ''['' @ join '','' (sort ks) @ '']'')"
  have "summarizeSettings u = (if u = [] then ''{}''
      else join ''; '' (sort (map line (map (\<lambda>(section, vs). (section, map fst vs)) u))))" for u
    by (simp add: summarizeSettings_def line_def case_prod_unfold comp_def)
  moreover have "s = [] \<longleftrightarrow> t = []"
    using assms by (cases s; cases t) auto
  ultimately show ?thesis
    using assms by simp
qed

lemma summary_hides_values_witness:
  "summarizeSettings [(''vpn'', [(''setup-key'', VString ''secret'')])] =
   summarizeSettings [(''vpn'', [(''setup-key'', VString ''other'')])]"
  by (rule summary_hides_values) simp

text \<open>
  no timeout can be disabled. Every duration of the normalised options is positive, as a signed number of
  nanoseconds, and normalising again changes nothing.
\<close>

theorem normalized_options_positive:
  "normalizeServiceOptions (normalizeServiceOptions opts) = normalizeServiceOptions opts \<and>
   (\<forall>f \<in> {ActivationTimeout, SSOWaitTimeout, OperationTimeout, ReadyPollInterval, StatusPollInterval,
          StatusCallTimeout}. 0 < sint (f (normalizeServiceOptions opts)))"
proof -
  have pos: "0 < sint (positiveDuration v d)" if "0 < sint d" for v d
    using that by (simp add: positiveDuration_def)
  have "positiveDuration (positiveDuration v d) d = positiveDuration v d" if "0 < sint d" for v d
    using pos [OF that] by (simp add: positiveDuration_def)
  moreover have "0 < sint (seconds 90)" "0 < sint (seconds 600)" "0 < sint (seconds 20)" "0 < sint (seconds 5)"
    "0 < sint (500000000 :: 64 word)"
    by (simp_all add: seconds_def)
  ultimately show ?thesis
    using pos by (simp add: normalizeServiceOptions_def defaultServiceOptions_def Let_def)
qed

end
