(* ===== verification/GoFlags.thy ===== *)
theory GoFlags
  imports Prelude
begin

text \<open>
  Go's \<open>flag\<close> package as far as the two programs use it: \<open>FlagSet.Parse\<close> over a table of flags, each with
  its \<open>Set\<close> method on a record of options. Parsing is shown to be a list of assignments that depends on the
  command line alone, applied in order; what that means for the options is proved once, for any set of flags.
\<close>

section \<open>Definitions\<close>

text \<open>\<open>strconv.ParseBool\<close>.\<close>

definition parse_bool :: "string \<Rightarrow> bool option" where
  "parse_bool s =
     (if List.member [''1'', ''t'', ''T'', ''TRUE'', ''true'', ''True''] s then Some True
      else if List.member [''0'', ''f'', ''F'', ''FALSE'', ''false'', ''False''] s then Some False
      else None)"

datatype flag_error =
    BadFlagSyntax string
  | FlagNotDefined string
  | HelpRequested
  | FlagNeedsArgument string
  | InvalidFlagValue string string

text \<open>
  The next word of a command line: it ends the flags, is refused, or gives a flag its value. Flags have one or two
  dashes; the value of a flag follows \<open>=\<close> or, unless the flag is boolean, is the next argument. The
  arguments that are left are the last component.
\<close>

datatype 'f flag_word =
    EndOfFlags "string list"
  | Refused flag_error
  | Gives 'f string string "string list"

definition read_flag ::
  "(string \<Rightarrow> 'f option) \<Rightarrow> ('f \<Rightarrow> bool) \<Rightarrow> string \<Rightarrow> string list \<Rightarrow> 'f flag_word" where
  "read_flag lookup isb s args =
     (if length s < 2 \<or> hd s \<noteq> CHR ''-'' then EndOfFlags (s # args)
      else if s = ''--'' then EndOfFlags args
      else
        (let body = drop (if s ! 1 = CHR ''-'' then 2 else 1) s;
             (name, val, hasValue) = cut_at (CHR ''='') body
         in if body = [] \<or> hd body = CHR ''-'' \<or> hd body = CHR ''='' then Refused (BadFlagSyntax s)
            else
              (case lookup name of
                 None \<Rightarrow> Refused (if name = ''help'' \<or> name = ''h'' then HelpRequested else FlagNotDefined name)
               | Some f \<Rightarrow>
                   if isb f then Gives f name (if hasValue then val else ''true'') args
                   else if hasValue then Gives f name val args
                   else (case args of
                           [] \<Rightarrow> Refused (FlagNeedsArgument name)
                         | v # rest \<Rightarrow> Gives f name v rest))))"

lemma read_flag_shorter: "read_flag lookup isb s args = Gives f name v rest \<Longrightarrow> length rest \<le> length args"
  by (auto simp: read_flag_def Let_def split: if_splits prod.splits option.splits list.splits)

text \<open>\<open>setf\<close> gives \<open>None\<close> for a value that is refused. The result has the arguments that are left.\<close>

function (sequential) parse_flags ::
  "(string \<Rightarrow> 'f option) \<Rightarrow> ('f \<Rightarrow> bool) \<Rightarrow> ('f \<Rightarrow> string \<Rightarrow> 'o \<Rightarrow> 'o option) \<Rightarrow> string list \<Rightarrow> 'o
     \<Rightarrow> flag_error + 'o \<times> string list" where
  "parse_flags lookup isb setf [] o1 = Inr (o1, [])"
| "parse_flags lookup isb setf (s # args) o1 =
     (case read_flag lookup isb s args of
        EndOfFlags rest \<Rightarrow> Inr (o1, rest)
      | Refused e \<Rightarrow> Inl e
      | Gives f name v rest \<Rightarrow>
          (case setf f v o1 of
             None \<Rightarrow> Inl (InvalidFlagValue name v)
           | Some o2 \<Rightarrow> parse_flags lookup isb setf rest o2))"
  by pat_completeness auto
termination
  by (relation "measure (\<lambda>(lookup, isb, setf, args, o1). length args)") (auto dest: read_flag_shorter)

section \<open>Assignments\<close>

text \<open>What a command line assigns, in order, and what it leaves; \<open>None\<close> when it is not well formed.\<close>

function (sequential) flag_assignments ::
  "(string \<Rightarrow> 'f option) \<Rightarrow> ('f \<Rightarrow> bool) \<Rightarrow> string list \<Rightarrow> (('f \<times> string) list \<times> string list) option" where
  "flag_assignments lookup isb [] = Some ([], [])"
| "flag_assignments lookup isb (s # args) =
     (case read_flag lookup isb s args of
        EndOfFlags rest \<Rightarrow> Some ([], rest)
      | Refused e \<Rightarrow> None
      | Gives f name v rest \<Rightarrow> map_option (apfst (Cons (f, v))) (flag_assignments lookup isb rest))"
  by pat_completeness auto
termination
  by (relation "measure (\<lambda>(lookup, isb, args). length args)") (auto dest: read_flag_shorter)

fun assign :: "('f \<Rightarrow> string \<Rightarrow> 'o \<Rightarrow> 'o option) \<Rightarrow> ('f \<times> string) list \<Rightarrow> 'o \<Rightarrow> 'o option" where
  "assign setf [] o1 = Some o1"
| "assign setf ((f, v) # as) o1 = (case setf f v o1 of None \<Rightarrow> None | Some o2 \<Rightarrow> assign setf as o2)"

definition given_flags :: "(string \<Rightarrow> 'f option) \<Rightarrow> ('f \<Rightarrow> bool) \<Rightarrow> string list \<Rightarrow> 'f list" where
  "given_flags lookup isb args = (case flag_assignments lookup isb args of None \<Rightarrow> [] | Some (as, rest) \<Rightarrow> map fst as)"

lemma parse_flags_assign:
  "parse_flags lookup isb setf args o1 = Inr (o2, rest) \<longleftrightarrow>
     (\<exists>as. flag_assignments lookup isb args = Some (as, rest) \<and> assign setf as o1 = Some o2)"
proof (induction lookup isb setf args o1 rule: parse_flags.induct)
  case (2 lookup isb setf s args o1)
  show ?case
  proof (cases "read_flag lookup isb s args")
    case (Gives f name v rest')
    then show ?thesis
      using 2 [OF Gives] by (cases "setf f v o1") (auto simp: apfst_def map_prod_def split: prod.splits)
  qed auto
qed auto

section \<open>Sets of flags\<close>

text \<open>
  What the flags of a program promise: setting a flag changes no other one, and whether a value is
  accepted does not depend on the options. Every command line of such a set is a list of assignments
  that touches exactly the flags it gives.
\<close>

locale flag_set =
  fixes lookup :: "string \<Rightarrow> 'f option" and isb :: "'f \<Rightarrow> bool"
    and setf :: "'f \<Rightarrow> string \<Rightarrow> 'o \<Rightarrow> 'o option" and field :: "'f \<Rightarrow> 'o \<Rightarrow> 'v"
  assumes set_frame: "setf f v o1 = Some o2 \<Longrightarrow> g \<noteq> f \<Longrightarrow> field g o2 = field g o1"
    and set_refused: "setf f v o1 = None \<Longrightarrow> setf f v o2 = None"
begin

lemma with_value:
  assumes "lookup [c] = Some f" "\<not> isb f" "c \<notin> {CHR ''-'', CHR ''=''}"
  shows "parse_flags lookup isb setf ([CHR ''-'', c] # v # args) o1 =
    (case setf f v o1 of None \<Rightarrow> Inl (InvalidFlagValue [c] v) | Some o2 \<Rightarrow> parse_flags lookup isb setf args o2)"
  using assms by (auto simp: read_flag_def Let_def cut_at_def)

lemma without_value:
  assumes "lookup [c] = Some f" "isb f" "c \<notin> {CHR ''-'', CHR ''=''}"
  shows "parse_flags lookup isb setf ([CHR ''-'', c] # args) o1 =
    (case setf f ''true'' o1 of None \<Rightarrow> Inl (InvalidFlagValue [c] ''true'') | Some o2 \<Rightarrow> parse_flags lookup isb setf args o2)"
  using assms by (auto simp: read_flag_def Let_def cut_at_def)

lemma assign_frame: "assign setf as o1 = Some o2 \<Longrightarrow> g \<notin> fst ` set as \<Longrightarrow> field g o2 = field g o1"
  by (induction as arbitrary: o1) (auto simp: set_frame split: option.splits)

lemma assign_accepted: "assign setf as o1 = Some o2 \<Longrightarrow> assign setf as p1 \<noteq> None"
proof (induction as arbitrary: o1 p1)
  case (Cons a as)
  then show ?case
    using set_refused [of "fst a" "snd a" p1 o1] by (cases a) (auto split: option.splits)
qed simp

lemma parse_frame:
  assumes "parse_flags lookup isb setf args o1 = Inr (o2, rest)" "g \<notin> set (given_flags lookup isb args)"
  shows "field g o2 = field g o1"
  using assms assign_frame by (auto simp: parse_flags_assign given_flags_def)

lemma parse_accepted:
  assumes "parse_flags lookup isb setf args o1 = Inr (o2, rest)"
  shows "\<exists>p2. parse_flags lookup isb setf args p1 = Inr (p2, rest)"
  using assms assign_accepted [of _ o1 o2 p1] by (auto simp: parse_flags_assign)

end

text \<open>Flags that are variables: the value of a flag that is set is that of its argument, whatever it was before.\<close>

locale flag_variables = flag_set lookup isb setf field
  for lookup :: "string \<Rightarrow> 'f option" and isb and setf :: "'f \<Rightarrow> string \<Rightarrow> 'o \<Rightarrow> 'o option" and field :: "'f \<Rightarrow> 'o \<Rightarrow> 'v" +
  assumes set_field: "setf f v o1 = Some o2 \<Longrightarrow> setf f v p1 = Some p2 \<Longrightarrow> field f o2 = field f p2"
begin

lemma assign_field:
  "assign setf as o1 = Some o2 \<Longrightarrow> assign setf as p1 = Some p2 \<Longrightarrow>
   f \<in> fst ` set as \<or> field f o1 = field f p1 \<Longrightarrow> field f o2 = field f p2"
proof (induction as arbitrary: o1 p1)
  case (Cons a as)
  obtain g v where a: "a = (g, v)"
    by force
  from Cons.prems a obtain o1' p1' where s: "setf g v o1 = Some o1'" "setf g v p1 = Some p1'"
    and r: "assign setf as o1' = Some o2" "assign setf as p1' = Some p2"
    by (auto split: option.splits)
  have "field f o1' = field f p1'" if "f = g \<or> field f o1 = field f p1"
    using that set_field [OF s] set_frame [OF s(1), of f] set_frame [OF s(2), of f] by (cases "f = g") auto
  then show ?case
    using Cons.IH [OF r] Cons.prems(3) a by auto
qed auto

lemma parse_field:
  assumes "parse_flags lookup isb setf args o1 = Inr (o2, rest)"
  shows "\<exists>p2. parse_flags lookup isb setf args p1 = Inr (p2, rest) \<and>
    (\<forall>f. field f p2 = (if f \<in> set (given_flags lookup isb args) then field f o2 else field f p1))"
proof -
  from assms obtain as where as: "flag_assignments lookup isb args = Some (as, rest)" "assign setf as o1 = Some o2"
    by (auto simp: parse_flags_assign)
  obtain p2 where p2: "assign setf as p1 = Some p2"
    using assign_accepted [OF as(2)] by blast
  have "field f p2 = (if f \<in> fst ` set as then field f o2 else field f p1)" for f
    using assign_field [OF as(2) p2] assign_frame [OF p2] by auto
  then show ?thesis
    using as p2 by (auto simp: parse_flags_assign given_flags_def)
qed

end

end
