(* ===== verification/Flags.thy ===== *)
theory Flags
  imports Handlers GoFlags
begin

text \<open>
  The command line of the auth dialog (\<open>internal/nmauthdialog/dialog.go\<close>, \<open>Options\<close> and \<open>ParseArgs\<close>): Go's
  \<open>flag\<close> package on the flags the dialog defines, and the checks that follow. \<open>time.ParseDuration\<close>
  is a parameter. The lemmas show that the command line NetworkManager builds is read as the request it stands for.
\<close>

section \<open>Definitions\<close>

record dialog_options =
  opt_UUID :: string
  opt_Name :: string
  opt_Service :: string
  opt_AllowInteraction :: bool
  opt_ExternalUIMode :: bool
  opt_Reprompt :: bool
  opt_Hints :: "string list"
  opt_TestBrowserURL :: string
  opt_TestBrowserTimeout :: duration
  opt_TestBrowserForce :: bool

definition ServiceName :: string where
  "ServiceName = ''org.freedesktop.NetworkManager.netbird''"

datatype dialog_flag =
    UUIDFlag
  | NameFlag
  | ServiceFlag
  | AllowInteractionFlag
  | ExternalUIModeFlag
  | RepromptFlag
  | HintFlag
  | TestBrowserFlag
  | TestBrowserTimeoutFlag
  | TestBrowserForceFlag

text \<open>The flags by name, and the values they start with.\<close>

definition dialog_flags :: "(string \<times> dialog_flag) list" where
  "dialog_flags =
     [(''uuid'', UUIDFlag), (''u'', UUIDFlag),
      (''name'', NameFlag), (''n'', NameFlag),
      (''service'', ServiceFlag), (''s'', ServiceFlag),
      (''allow-interaction'', AllowInteractionFlag), (''i'', AllowInteractionFlag),
      (''external-ui-mode'', ExternalUIModeFlag),
      (''reprompt'', RepromptFlag), (''r'', RepromptFlag),
      (''hint'', HintFlag), (''t'', HintFlag),
      (''test-browser'', TestBrowserFlag),
      (''test-browser-timeout'', TestBrowserTimeoutFlag),
      (''test-browser-force'', TestBrowserForceFlag)]"

definition default_dialog_options :: dialog_options where
  "default_dialog_options =
     \<lparr>opt_UUID = [], opt_Name = [], opt_Service = [], opt_AllowInteraction = False,
      opt_ExternalUIMode = False, opt_Reprompt = False, opt_Hints = [], opt_TestBrowserURL = [],
      opt_TestBrowserTimeout = seconds 5, opt_TestBrowserForce = False\<rparr>"

fun is_bool_flag :: "dialog_flag \<Rightarrow> bool" where
  "is_bool_flag AllowInteractionFlag = True"
| "is_bool_flag ExternalUIModeFlag = True"
| "is_bool_flag RepromptFlag = True"
| "is_bool_flag TestBrowserForceFlag = True"
| "is_bool_flag _ = False"

text \<open>The list of strings a flag can be repeated for.\<close>

definition stringList_Set :: "string \<Rightarrow> string list \<Rightarrow> string list" where
  "stringList_Set v s = s @ [v]"

definition stringList_String :: "string list \<Rightarrow> string" where
  "stringList_String s = join '','' s"

text \<open>\<open>Set\<close> of a flag: \<open>None\<close> when the value is refused.\<close>

fun set_flag ::
  "(string \<Rightarrow> duration option) \<Rightarrow> dialog_flag \<Rightarrow> string \<Rightarrow> dialog_options \<Rightarrow> dialog_options option" where
  "set_flag pd UUIDFlag v o1 = Some (o1\<lparr>opt_UUID := v\<rparr>)"
| "set_flag pd NameFlag v o1 = Some (o1\<lparr>opt_Name := v\<rparr>)"
| "set_flag pd ServiceFlag v o1 = Some (o1\<lparr>opt_Service := v\<rparr>)"
| "set_flag pd AllowInteractionFlag v o1 = map_option (\<lambda>b. o1\<lparr>opt_AllowInteraction := b\<rparr>) (parse_bool v)"
| "set_flag pd ExternalUIModeFlag v o1 = map_option (\<lambda>b. o1\<lparr>opt_ExternalUIMode := b\<rparr>) (parse_bool v)"
| "set_flag pd RepromptFlag v o1 = map_option (\<lambda>b. o1\<lparr>opt_Reprompt := b\<rparr>) (parse_bool v)"
| "set_flag pd HintFlag v o1 = Some (o1\<lparr>opt_Hints := stringList_Set v (opt_Hints o1)\<rparr>)"
| "set_flag pd TestBrowserFlag v o1 = Some (o1\<lparr>opt_TestBrowserURL := v\<rparr>)"
| "set_flag pd TestBrowserTimeoutFlag v o1 = map_option (\<lambda>t. o1\<lparr>opt_TestBrowserTimeout := t\<rparr>) (pd v)"
| "set_flag pd TestBrowserForceFlag v o1 = map_option (\<lambda>b. o1\<lparr>opt_TestBrowserForce := b\<rparr>) (parse_bool v)"

datatype args_error =
    FlagError flag_error
  | UnexpectedArguments "string list"
  | MissingUUID
  | MissingName
  | MissingService
  | WrongService

abbreviation parse_dialog_flags ::
  "(string \<Rightarrow> duration option) \<Rightarrow> string list \<Rightarrow> dialog_options \<Rightarrow> flag_error + dialog_options \<times> string list" where
  "parse_dialog_flags pd \<equiv> parse_flags (map_of dialog_flags) is_bool_flag (set_flag pd)"

definition ParseArgs :: "(string \<Rightarrow> duration option) \<Rightarrow> string list \<Rightarrow> args_error + dialog_options" where
  "ParseArgs pd args =
     (case parse_dialog_flags pd args default_dialog_options of
        Inl e \<Rightarrow> Inl (FlagError e)
      | Inr (opts, rest) \<Rightarrow>
          if rest \<noteq> [] then Inl (UnexpectedArguments rest)
          else if trim_space (opt_TestBrowserURL opts) \<noteq> [] then Inr opts
          else if trim_space (opt_UUID opts) = [] then Inl MissingUUID
          else if trim_space (opt_Name opts) = [] then Inl MissingName
          else if trim_space (opt_Service opts) = [] then Inl MissingService
          else if opt_Service opts \<noteq> ServiceName then Inl WrongService
          else Inr opts)"

section \<open>Command lines\<close>

text \<open>The command line with which NetworkManager runs the dialog for a request.\<close>

definition command_line :: "dialog_options \<Rightarrow> string list" where
  "command_line o1 =
     [''-u'', opt_UUID o1, ''-n'', opt_Name o1, ''-s'', opt_Service o1]
     @ (if opt_AllowInteraction o1 then [''-i''] else [])
     @ (if opt_Reprompt o1 then [''-r''] else [])
     @ concat (map (\<lambda>h. [''-t'', h]) (opt_Hints o1))
     @ (if opt_ExternalUIMode o1 then [''--external-ui-mode''] else [])"

text \<open>The flags as a set of flags: what each of them holds.\<close>

datatype flag_value = TextValue string | BoolValue bool | DurationValue duration | TextsValue "string list"

fun dialog_field :: "dialog_flag \<Rightarrow> dialog_options \<Rightarrow> flag_value" where
  "dialog_field UUIDFlag o1 = TextValue (opt_UUID o1)"
| "dialog_field NameFlag o1 = TextValue (opt_Name o1)"
| "dialog_field ServiceFlag o1 = TextValue (opt_Service o1)"
| "dialog_field AllowInteractionFlag o1 = BoolValue (opt_AllowInteraction o1)"
| "dialog_field ExternalUIModeFlag o1 = BoolValue (opt_ExternalUIMode o1)"
| "dialog_field RepromptFlag o1 = BoolValue (opt_Reprompt o1)"
| "dialog_field HintFlag o1 = TextsValue (opt_Hints o1)"
| "dialog_field TestBrowserFlag o1 = TextValue (opt_TestBrowserURL o1)"
| "dialog_field TestBrowserTimeoutFlag o1 = DurationValue (opt_TestBrowserTimeout o1)"
| "dialog_field TestBrowserForceFlag o1 = BoolValue (opt_TestBrowserForce o1)"

interpretation dialog: flag_set "map_of dialog_flags" is_bool_flag "set_flag pd" dialog_field
  for pd :: "string \<Rightarrow> duration option"
proof
  fix f g v and o1 o2 :: dialog_options
  show "set_flag pd f v o1 = Some o2 \<Longrightarrow> g \<noteq> f \<Longrightarrow> dialog_field g o2 = dialog_field g o1"
    by (cases f; cases g) auto
  show "set_flag pd f v o1 = None \<Longrightarrow> set_flag pd f v o2 = None"
    by (cases f) auto
qed

lemma flag_external:
  "parse_dialog_flags pd (''--external-ui-mode'' # args) o1 = parse_dialog_flags pd args (o1\<lparr>opt_ExternalUIMode := True\<rparr>)"
  by (simp add: read_flag_def Let_def cut_at_def dialog_flags_def parse_bool_def)

lemma short_flags:
  "map_of dialog_flags ''u'' = Some UUIDFlag" "map_of dialog_flags ''n'' = Some NameFlag"
  "map_of dialog_flags ''s'' = Some ServiceFlag" "map_of dialog_flags ''i'' = Some AllowInteractionFlag"
  "map_of dialog_flags ''r'' = Some RepromptFlag" "map_of dialog_flags ''t'' = Some HintFlag"
  by (simp_all add: dialog_flags_def)

lemma parse_bool_true: "parse_bool ''true'' = Some True"
  by (simp add: parse_bool_def)

lemmas command_line_flags = dialog.with_value dialog.without_value flag_external short_flags parse_bool_true

lemma parse_hints:
  "parse_dialog_flags pd (concat (map (\<lambda>h. [''-t'', h]) hs) @ args) o1 =
    parse_dialog_flags pd args (o1\<lparr>opt_Hints := opt_Hints o1 @ hs\<rparr>)"
  by (induction hs arbitrary: o1) (simp_all add: command_line_flags stringList_Set_def del: parse_flags.simps)

lemma ParseArgs_request:
  assumes "opt_Service o1 = ServiceName" "\<not> blank (opt_UUID o1)" "\<not> blank (opt_Name o1)"
    and "opt_TestBrowserURL o1 = []" "opt_TestBrowserTimeout o1 = seconds 5" "\<not> opt_TestBrowserForce o1"
  shows "ParseArgs pd (command_line o1) = Inr o1"
proof -
  have "parse_dialog_flags pd (command_line o1) default_dialog_options = Inr (o1, [])"
    using assms(4-6)
    by (cases o1)
      (auto simp: command_line_def default_dialog_options_def command_line_flags parse_hints
        simp del: parse_flags.simps(2))
  moreover have "trim_space ServiceName = ServiceName"
    by (rule trim_space_solid) (simp_all add: ServiceName_def solid_def)
  moreover have "ServiceName \<noteq> []"
    by (simp add: ServiceName_def)
  ultimately show ?thesis
    using assms by (simp add: ParseArgs_def blank_def)
qed

text \<open>
  C40: the dialog reads the command line it is run with. For any request for this service with a UUID and
  a name that are not blank, the options read from NetworkManager's command line are those of the request: every
  hint in its order, whatever its text (also one that looks like a flag), and the interaction flags.
\<close>

theorem ParseArgs_command_line:
  assumes "opt_Service o1 = ServiceName" "\<not> blank (opt_UUID o1)" "\<not> blank (opt_Name o1)"
    and "opt_TestBrowserURL o1 = []" "opt_TestBrowserTimeout o1 = seconds 5" "\<not> opt_TestBrowserForce o1"
  shows "ParseArgs pd (command_line o1) = Inr o1"
  by (rule ParseArgs_request [OF assms])

lemma ParseArgs_command_line_witness:
  "ParseArgs (\<lambda>_. None)
      [''-u'', ''1'', ''-n'', ''vpn'', ''-s'', ''org.freedesktop.NetworkManager.netbird'', ''-i'', ''-t'', ''-s''] =
    Inr (default_dialog_options\<lparr>opt_UUID := ''1'', opt_Name := ''vpn'', opt_Service := ServiceName,
           opt_AllowInteraction := True, opt_Hints := [''-s'']\<rparr>)"
proof -
  have "\<not> blank ''1''" "\<not> blank ''vpn''"
    by code_simp+
  then show ?thesis
    using ParseArgs_command_line [where pd = "\<lambda>_. None" and
        ?o1.0 = "default_dialog_options\<lparr>opt_UUID := ''1'', opt_Name := ''vpn'', opt_Service := ServiceName,
           opt_AllowInteraction := True, opt_Hints := [''-s'']\<rparr>"]
    by (simp add: command_line_def default_dialog_options_def ServiceName_def)
qed

end
