(* ===== verification/Protocol.thy ===== *)
theory Protocol
  imports Prelude
begin

text \<open>
  The protocol in which NetworkManager hands a connection to the auth dialog
  (\<open>internal/nmauthdialog/dialog.go\<close>, \<open>readVPNDetails\<close> to \<open>flush\<close>): the byte stream is read in chunks of the
  buffered reader, the chunks are put together to lines, and the lines drive the parser of key and
  value pairs. The lemmas show which line comes out of the chunks, the invariant of the parser, and that what is
  written in the protocol is read back.
\<close>

section \<open>Definitions\<close>

abbreviation nl :: char where
  "nl \<equiv> CHR 0x0A"

abbreviation cr :: char where
  "cr \<equiv> CHR 0x0D"

abbreviation nul :: char where
  "nul \<equiv> CHR 0x00"

subsection \<open>The buffered reader\<close>

text \<open>
  What is left to read from standard input: its bytes, then the end of the file or, if \<open>in_broken\<close> is set,
  an error that every further read returns. The underlying reader reports the end by a read of its own, as a file
  does.
\<close>

record input =
  in_bytes :: string
  in_broken :: "string option"

definition bufio_size :: nat where
  "bufio_size = 4096"

text \<open>
  \<open>bufio.Reader.ReadLine\<close> with the default buffer: a line that fits the buffer without its end (\<open>\n\<close> or
  \<open>\r\n\<close>), or a full buffer as a prefix of the line, where a last \<open>\r\<close> stays unread; \<open>Inl None\<close> is \<open>io.EOF\<close>.
\<close>

definition ReadLine :: "input \<Rightarrow> (string option + string \<times> bool) \<times> input" where
  "ReadLine inp =
     (let s = in_bytes inp;
          buffer = take bufio_size s
      in if s = [] then (Inl (in_broken inp), inp)
         else if nl \<in> set buffer
         then (let l = takeWhile (\<lambda>c. c \<noteq> nl) s
               in (Inr (trim_suffix l [cr], False), inp\<lparr>in_bytes := drop (Suc (length l)) s\<rparr>))
         else if bufio_size \<le> length s
         then (if last buffer = cr
               then (Inr (butlast buffer, True), inp\<lparr>in_bytes := drop (bufio_size - 1) s\<rparr>)
               else (Inr (buffer, True), inp\<lparr>in_bytes := drop bufio_size s\<rparr>))
         else (Inr (s, False), inp\<lparr>in_bytes := []\<rparr>))"

lemma ReadLine_consumes:
  assumes "ReadLine inp = (Inr x, inp')"
  shows "length (in_bytes inp') < length (in_bytes inp)"
  using assms by (auto simp: ReadLine_def bufio_size_def Let_def split: if_splits)

subsection \<open>Errors\<close>

text \<open>The errors of the parser, and those of reading; \<open>AtLine\<close> is the wrapping \<open>line %d: %w\<close>.\<close>

datatype line_error =
    NoItemsProvided
  | UnknownProtocolLine "string option"
  | StrayContinuation
  | KeyBeforePairComplete
  | ValueWithoutKey
  | IncompletePair
  | InvalidPendingTarget

datatype protocol_error =
    StdinNil
  | MissingDone
  | ReadFailed string
  | LineTooLong
  | LineContainsNUL
  | AtLine nat line_error
  | TooManyLines

subsection \<open>Lines\<close>

definition maxProtocolLineLen :: nat where
  "maxProtocolLineLen = 512 * 1024"

definition maxProtocolLines :: nat where
  "maxProtocolLines = 4096"

text \<open>The loop of \<open>readProtocolLine\<close>; \<open>line\<close> is what it has put together.\<close>

function read_chunks :: "string \<Rightarrow> input \<Rightarrow> (protocol_error + string) \<times> input" where
  "read_chunks line inp =
     (case ReadLine inp of
        (Inl None, inp') \<Rightarrow> (Inl MissingDone, inp')
      | (Inl (Some e), inp') \<Rightarrow> (Inl (ReadFailed e), inp')
      | (Inr (chunk, isPrefix), inp') \<Rightarrow>
          if length (line @ chunk) > maxProtocolLineLen then (Inl LineTooLong, inp')
          else if isPrefix then read_chunks (line @ chunk) inp'
          else (Inr (line @ chunk), inp'))"
  by pat_completeness auto
termination
  by (relation "measure (\<lambda>(line, inp). length (in_bytes inp))") (auto dest: ReadLine_consumes [OF sym])

declare read_chunks.simps [simp del]

definition readProtocolLine :: "input \<Rightarrow> (protocol_error + string) \<times> input" where
  "readProtocolLine inp =
     on_ok (read_chunks [] inp) (\<lambda>e. e)
       (\<lambda>line inp. if nul \<in> set line then (Inl LineContainsNUL, inp)
                   else (Inr (trim_suffix line [cr]), inp))"

subsection \<open>The parser\<close>

record vpnDetails =
  details_data :: "string go_map"
  details_secrets :: "string go_map"

record protocolParser =
  p_details :: vpnDetails
  p_done :: bool
  p_gotItem :: bool
  pendingTarget :: string
  pendingKey :: string
  pendingValue :: string
  p_hasKey :: bool
  p_hasValue :: bool
  currentField :: string

definition new_parser :: protocolParser where
  "new_parser =
     \<lparr>p_details = \<lparr>details_data = [], details_secrets = []\<rparr>, p_done = False, p_gotItem = False,
      pendingTarget = [], pendingKey = [], pendingValue = [], p_hasKey = False, p_hasValue = False,
      currentField = []\<rparr>"

definition dataKeyTag :: string where
  "dataKeyTag = ''DATA_KEY=''"

definition dataValTag :: string where
  "dataValTag = ''DATA_VAL=''"

definition secretKeyTag :: string where
  "secretKeyTag = ''SECRET_KEY=''"

definition secretValTag :: string where
  "secretValTag = ''SECRET_VAL=''"

text \<open>The methods of the parser return their error, if any, and the parser they leave.\<close>

definition flush :: "protocolParser \<Rightarrow> line_error option \<times> protocolParser" where
  "flush p =
     (if \<not> p_hasKey p \<and> \<not> p_hasValue p then (None, p)
      else if \<not> p_hasKey p \<or> \<not> p_hasValue p then (Some IncompletePair, p)
      else
        (let d = p_details p;
             reset = (\<lambda>d. (None, p\<lparr>p_details := d, pendingTarget := [], pendingKey := [], pendingValue := [],
                                   p_hasKey := False, p_hasValue := False, currentField := [],
                                   p_gotItem := True\<rparr>))
         in if pendingTarget p = ''data''
            then reset (d\<lparr>details_data := AList.update (pendingKey p) (pendingValue p) (details_data d)\<rparr>)
            else if pendingTarget p = ''secrets''
            then reset (d\<lparr>details_secrets := AList.update (pendingKey p) (pendingValue p) (details_secrets d)\<rparr>)
            else (Some InvalidPendingTarget, p)))"

definition setValue :: "string \<Rightarrow> string \<Rightarrow> protocolParser \<Rightarrow> line_error option \<times> protocolParser" where
  "setValue target v p =
     (if \<not> p_hasKey p \<or> p_hasValue p \<or> pendingTarget p \<noteq> target then (Some ValueWithoutKey, p)
      else (None, p\<lparr>pendingValue := v, p_hasValue := True, currentField := ''value''\<rparr>))"

definition startKey :: "string \<Rightarrow> string \<Rightarrow> protocolParser \<Rightarrow> line_error option \<times> protocolParser" where
  "startKey target key p =
     (if p_hasKey p \<or> p_hasValue p then (Some KeyBeforePairComplete, p)
      else (None, p\<lparr>pendingTarget := target, pendingKey := key, p_hasKey := True, currentField := ''key''\<rparr>))"

definition continuePrevious :: "string \<Rightarrow> protocolParser \<Rightarrow> line_error option \<times> protocolParser" where
  "continuePrevious v p =
     (if currentField p = ''key'' then (None, p\<lparr>pendingKey := pendingKey p @ nl # v\<rparr>)
      else if currentField p = ''value'' then (None, p\<lparr>pendingValue := pendingValue p @ nl # v\<rparr>)
      else (Some StrayContinuation, p))"

text \<open>The tag named in the message about an unknown line; \<open>None\<close> stands for \<open>unrecognized tag\<close>.\<close>

definition describeProtocolLine :: "string \<Rightarrow> string option" where
  "describeProtocolLine line =
     (case cut_at (CHR ''='') line of
        (tag, _, ok) \<Rightarrow>
          if ok \<and> trim_space tag \<noteq> [] then Some (trim_space tag) else None)"

text \<open>The tagged lines of \<open>consume\<close>.\<close>

definition consume_tagged :: "string \<Rightarrow> protocolParser \<Rightarrow> line_error option \<times> protocolParser" where
  "consume_tagged line p =
     (if prefix dataKeyTag line then startKey ''data'' (trim_prefix line dataKeyTag) p
      else if prefix dataValTag line then setValue ''data'' (trim_prefix line dataValTag) p
      else if prefix secretKeyTag line then startKey ''secrets'' (trim_prefix line secretKeyTag) p
      else if prefix secretValTag line then setValue ''secrets'' (trim_prefix line secretValTag) p
      else (Some (UnknownProtocolLine (describeProtocolLine line)), p))"

definition consume :: "string \<Rightarrow> protocolParser \<Rightarrow> line_error option \<times> protocolParser" where
  "consume line p =
     (if line = [] then (None, p)
      else if line = ''DONE''
      then (case flush p of
              (Some e, p) \<Rightarrow> (Some e, p)
            | (None, p) \<Rightarrow>
                if \<not> p_gotItem p then (Some NoItemsProvided, p) else (None, p\<lparr>p_done := True\<rparr>))
      else if hd line = CHR ''='' then continuePrevious (tl line) p
      else if p_hasKey p \<and> p_hasValue p
      then (case flush p of
              (Some e, p) \<Rightarrow> (Some e, p)
            | (None, p) \<Rightarrow> consume_tagged line p)
      else consume_tagged line p)"

subsection \<open>Reading the connection\<close>

text \<open>The loop of \<open>readVPNDetails\<close>, with the number of lines it may still read.\<close>

fun read_lines :: "nat \<Rightarrow> nat \<Rightarrow> protocolParser \<Rightarrow> input \<Rightarrow> protocol_error + vpnDetails" where
  "read_lines 0 lineNumber p inp = Inl TooManyLines"
| "read_lines (Suc left) lineNumber p inp =
     (case readProtocolLine inp of
        (Inl e, _) \<Rightarrow> Inl e
      | (Inr line, inp) \<Rightarrow>
          (case consume line p of
             (Some e, _) \<Rightarrow> Inl (AtLine lineNumber e)
           | (None, p) \<Rightarrow>
               if p_done p then Inr (p_details p) else read_lines left (Suc lineNumber) p inp))"

definition readVPNDetails :: "input option \<Rightarrow> protocol_error + vpnDetails" where
  "readVPNDetails r =
     (case r of
        None \<Rightarrow> Inl StdinNil
      | Some inp \<Rightarrow> read_lines maxProtocolLines 1 new_parser inp)"

section \<open>Lines out of chunks\<close>

lemma trim_suffix_append: "b \<noteq> [] \<Longrightarrow> trim_suffix (a @ b) [c] = a @ trim_suffix b [c]"
  by (cases b rule: rev_cases) (auto simp: trim_suffix_def suffix_def)

lemma trim_suffix_last: "a = [] \<or> last a \<noteq> c \<Longrightarrow> trim_suffix a [c] = a"
  by (cases a rule: rev_cases) (auto simp: trim_suffix_def)

lemma length_trim_suffix: "length (trim_suffix a b) \<le> length a"
  by (simp add: trim_suffix_def)

text \<open>One chunk of a line that ends: the line without its end, or a part of it with the line still to be read.\<close>

lemma ReadLine_line:
  assumes "in_bytes inp = l @ nl # rest" "nl \<notin> set l"
  shows "ReadLine inp = (Inr (trim_suffix l [cr], False), inp\<lparr>in_bytes := rest\<rparr>) \<or>
    (\<exists>a b. l = a @ b \<and> a \<noteq> [] \<and> trim_suffix l [cr] = a @ trim_suffix b [cr]
       \<and> ReadLine inp = (Inr (a, True), inp\<lparr>in_bytes := b @ nl # rest\<rparr>))"
proof (cases "length l < bufio_size")
  case True
  then have "nl \<in> set (take bufio_size (in_bytes inp))"
    using assms by (cases "bufio_size - length l") auto
  moreover have "takeWhile (\<lambda>c. c \<noteq> nl) (in_bytes inp) = l"
    using assms by (auto simp: takeWhile_append)
  ultimately show ?thesis
    using assms by (simp add: ReadLine_def Let_def)
next
  case False
  define w where "w = take bufio_size l"
  have buffer: "take bufio_size (in_bytes inp) = w" "nl \<notin> set w" "w \<noteq> []" "length w = bufio_size"
    using assms False by (auto simp: w_def bufio_size_def dest: in_set_takeD)
  have l: "l = w @ drop bufio_size l" "l = butlast w @ drop (bufio_size - 1) l"
    using False by (simp_all add: w_def bufio_size_def butlast_take)
  show ?thesis
  proof (cases "last w = cr")
    case True
    have "drop (bufio_size - 1) l \<noteq> []" "butlast w \<noteq> []"
      using False buffer(4) length_butlast [of w] by (auto simp: bufio_size_def simp del: length_butlast)
    moreover from this have "trim_suffix l [cr] = butlast w @ trim_suffix (drop (bufio_size - 1) l) [cr]"
      using trim_suffix_append l(2) by metis
    ultimately show ?thesis
      using True False assms buffer l(2) by (simp add: ReadLine_def Let_def bufio_size_def) blast
  next
    case no_cr: False
    have "trim_suffix l [cr] = w @ trim_suffix (drop bufio_size l) [cr]"
      by (metis append_Nil2 buffer(3) l(1) no_cr trim_suffix_append trim_suffix_last)
    with no_cr False assms buffer l(1) show ?thesis
      by (simp add: ReadLine_def Let_def bufio_size_def) blast
  qed
qed

lemma read_chunks_line:
  assumes "in_bytes inp = l @ nl # rest" "nl \<notin> set l"
  shows "if maxProtocolLineLen < length (line @ trim_suffix l [cr])
    then fst (read_chunks line inp) = Inl LineTooLong
    else read_chunks line inp = (Inr (line @ trim_suffix l [cr]), inp\<lparr>in_bytes := rest\<rparr>)"
  using assms
proof (induction "length l" arbitrary: l line inp rule: less_induct)
  case less
  from ReadLine_line [OF less.prems] show ?case
  proof (elim disjE exE conjE)
    assume "ReadLine inp = (Inr (trim_suffix l [cr], False), inp\<lparr>in_bytes := rest\<rparr>)"
    then show ?thesis
      by (subst (1 2) read_chunks.simps) simp
  next
    fix a b
    assume ab: "l = a @ b" "a \<noteq> []" "trim_suffix l [cr] = a @ trim_suffix b [cr]"
      "ReadLine inp = (Inr (a, True), inp\<lparr>in_bytes := b @ nl # rest\<rparr>)"
    then show ?thesis
      using less.hyps [of b "inp\<lparr>in_bytes := b @ nl # rest\<rparr>" "line @ a"] less.prems
      by (subst (1 2) read_chunks.simps) auto
  qed
qed

text \<open>
  C35: reading in chunks is reading lines. Whatever the length of a line and wherever the buffer of the reader ends
  in it, a line that ends with a newline is returned whole, without its line end and without one
  more carriage return, and what follows it is left to read. It is refused exactly when it is longer than 512 KiB or
  contains a NUL byte.
\<close>

theorem readProtocolLine_line:
  assumes "in_bytes inp = l @ nl # rest" "nl \<notin> set l"
  shows "let body = trim_suffix l [cr]; rest_inp = inp\<lparr>in_bytes := rest\<rparr>
    in fst (readProtocolLine inp) =
         (if 524288 < length body then Inl LineTooLong
          else if nul \<in> set body then Inl LineContainsNUL
          else Inr (trim_suffix body [cr]))
       \<and> (length body \<le> 524288 \<longrightarrow> snd (readProtocolLine inp) = rest_inp)"
  using read_chunks_line [OF assms, of "[]"]
  by (cases "read_chunks [] inp") (auto simp: readProtocolLine_def maxProtocolLineLen_def Let_def split: if_splits)

lemma readProtocolLine_line_witness:
  "fst (readProtocolLine \<lparr>in_bytes = ''DONE'' @ [cr, cr, nl] @ ''next'', in_broken = None\<rparr>) = Inr ''DONE''"
  using readProtocolLine_line [of "\<lparr>in_bytes = ''DONE'' @ [cr, cr, nl] @ ''next'', in_broken = None\<rparr>"
      "''DONE'' @ [cr, cr]" "''next''"]
  by (simp add: trim_suffix_def suffix_def Let_def)

section \<open>The states of the parser\<close>

text \<open>The parser steps from line to line until \<open>DONE\<close>.\<close>

definition parser_start :: "protocolParser \<Rightarrow> bool" where
  "parser_start p \<longleftrightarrow> p = new_parser"

inductive parser_step :: "protocolParser \<Rightarrow> protocolParser \<Rightarrow> bool" where
  "\<not> p_done p \<Longrightarrow> consume line p = (None, q) \<Longrightarrow> parser_step p q"

inductive_cases parser_stepE: "parser_step p q"

definition parser_inv :: "protocolParser \<Rightarrow> bool" where
  "parser_inv p \<longleftrightarrow>
     (p_hasValue p \<longrightarrow> p_hasKey p)
     \<and> (if p_hasKey p then pendingTarget p \<in> {''data'', ''secrets''}
        else pendingTarget p = [] \<and> pendingKey p = [])
     \<and> (\<not> p_hasValue p \<longrightarrow> pendingValue p = [])
     \<and> currentField p = (if p_hasValue p then ''value'' else if p_hasKey p then ''key'' else [])
     \<and> distinct (map fst (details_data (p_details p)))
     \<and> distinct (map fst (details_secrets (p_details p)))
     \<and> (p_gotItem p \<longleftrightarrow> details_data (p_details p) \<noteq> [] \<or> details_secrets (p_details p) \<noteq> [])
     \<and> (p_done p \<longrightarrow> \<not> p_hasKey p \<and> p_gotItem p)"

lemma update_nonempty [simp]: "AList.update k v m \<noteq> []"
  by (cases m) auto

lemma flush_inv:
  assumes "parser_inv p" "\<not> p_done p" "flush p = (r, q)"
  shows "parser_inv q \<and> p_done q = p_done p"
    and "r = None \<longleftrightarrow> (p_hasKey p \<longrightarrow> p_hasValue p)"
    and "r = None \<Longrightarrow> \<not> p_hasKey q \<and> (p_gotItem q \<longleftrightarrow> p_gotItem p \<or> p_hasKey p)"
    and "r = None \<or> r = Some IncompletePair"
  using assms
  by (auto simp: flush_def parser_inv_def Let_def distinct_update split: if_splits)

lemma continuePrevious_inv:
  assumes "parser_inv p" "\<not> p_done p" "continuePrevious v p = (r, q)"
  shows "parser_inv q \<and> p_done q = p_done p" and "r = None \<longleftrightarrow> p_hasKey p"
    and "r = None \<or> r = Some StrayContinuation"
  using assms by (auto simp: continuePrevious_def parser_inv_def split: if_splits)

lemma startKey_inv:
  assumes "parser_inv p" "\<not> p_done p" "startKey target key p = (r, q)" "target \<in> {''data'', ''secrets''}"
  shows "parser_inv q \<and> p_done q = p_done p" and "r = None \<longleftrightarrow> \<not> p_hasKey p"
    and "r = None \<or> r = Some KeyBeforePairComplete"
  using assms by (auto simp: startKey_def parser_inv_def split: if_splits)

lemma setValue_inv:
  assumes "parser_inv p" "\<not> p_done p" "setValue target v p = (r, q)"
  shows "parser_inv q \<and> p_done q = p_done p"
    and "r = None \<longleftrightarrow> p_hasKey p \<and> \<not> p_hasValue p \<and> pendingTarget p = target"
    and "r = None \<or> r = Some ValueWithoutKey"
  using assms by (auto simp: setValue_def parser_inv_def split: if_splits)

lemmas method_invs = startKey_inv setValue_inv

lemma consume_tagged_inv:
  assumes "parser_inv p" "\<not> p_done p" "consume_tagged line p = (r, q)"
  shows "parser_inv q \<and> p_done q = p_done p \<and> r \<noteq> Some InvalidPendingTarget"
  using assms method_invs [OF assms(1,2)]
  by (auto simp: consume_tagged_def split: if_splits dest: method_invs(1,3,4,6) [OF assms(1,2)])

lemma consume_inv:
  assumes "parser_inv p" "\<not> p_done p" "consume line p = (r, q)"
  shows "parser_inv q \<and> r \<noteq> Some InvalidPendingTarget"
proof -
  obtain r1 q1 where fl: "flush p = (r1, q1)"
    by (metis prod.exhaust)
  note f = flush_inv [OF assms(1,2) fl]
  have q1: "parser_inv q1" "\<not> p_done q1"
    using f(1) assms(2) by auto
  have "parser_inv (q1\<lparr>p_done := True\<rparr>)" if "r1 = None" "p_gotItem q1"
    using q1 f(3) that by (auto simp: parser_inv_def)
  with assms fl q1 f(4) show ?thesis
    by (auto simp: consume_def split: if_splits option.splits
        dest: consume_tagged_inv continuePrevious_inv(1,3) consume_tagged_inv [OF q1])
qed

interpretation parser: invariant_of parser_start parser_step parser_inv
proof unfold_locales
  show "parser_inv p" if "parser_start p" for p
    using that by (simp add: parser_start_def new_parser_def parser_inv_def)
  show "parser_inv q" if "parser_inv p" "parser_step p q" for p q
    using that by (auto elim: parser_stepE dest: consume_inv)
qed

text \<open>The line kinds of the protocol.\<close>

definition opens_key :: "string \<Rightarrow> bool" where
  "opens_key line \<longleftrightarrow> prefix dataKeyTag line \<or> prefix secretKeyTag line"

definition gives_value :: "string \<Rightarrow> string \<Rightarrow> bool" where
  "gives_value target line \<longleftrightarrow>
     prefix dataValTag line \<and> target = ''data'' \<or> prefix secretValTag line \<and> target = ''secrets''"

lemmas tag_defs = dataKeyTag_def dataValTag_def secretKeyTag_def secretValTag_def

lemma tagged_accepts:
  assumes "parser_inv p" "\<not> p_done p" "consume_tagged line p = (r, q)"
  shows "r = None \<longleftrightarrow>
    opens_key line \<and> \<not> p_hasKey p
    \<or> gives_value (pendingTarget p) line \<and> p_hasKey p \<and> \<not> p_hasValue p"
proof -
  consider "prefix dataKeyTag line" | "prefix dataValTag line" | "prefix secretKeyTag line"
    | "prefix secretValTag line"
    | "\<not> prefix dataKeyTag line" "\<not> prefix dataValTag line" "\<not> prefix secretKeyTag line"
      "\<not> prefix secretValTag line"
    by blast
  then show ?thesis
    using assms method_invs(2,5) [OF assms(1,2)]
    by cases (auto simp: consume_tagged_def opens_key_def gives_value_def tag_defs
        elim!: prefixE split: if_splits)
qed

lemma consume_accepts:
  assumes "parser_inv p" "\<not> p_done p"
  shows "fst (consume line p) = None \<longleftrightarrow>
    line = []
    \<or> line = ''DONE'' \<and> (p_hasKey p \<longrightarrow> p_hasValue p) \<and> (p_gotItem p \<or> p_hasKey p)
    \<or> prefix ''='' line \<and> p_hasKey p
    \<or> opens_key line \<and> (p_hasKey p \<longrightarrow> p_hasValue p)
    \<or> gives_value (pendingTarget p) line \<and> p_hasKey p \<and> \<not> p_hasValue p"
proof -
  obtain r1 q1 where fl: "flush p = (r1, q1)"
    by (metis prod.exhaust)
  note f = flush_inv [OF assms fl]
  have hv: "p_hasValue p \<longrightarrow> p_hasKey p"
    using assms by (simp add: parser_inv_def)
  consider (empty) "line = []" | (d) "line = ''DONE''" | (eq) w where "line = CHR ''='' # w"
    | (tagged) "line \<noteq> []" "line \<noteq> ''DONE''" "hd line \<noteq> CHR ''=''"
    by (cases line) auto
  then show ?thesis
  proof cases
    case d
    then show ?thesis
      using f hv fl by (auto simp: consume_def opens_key_def gives_value_def tag_defs split: option.splits if_splits)
  next
    case eq
    then show ?thesis
      using continuePrevious_inv(2) [OF assms, of w]
      by (cases "continuePrevious w p") (auto simp: consume_def opens_key_def gives_value_def tag_defs)
  next
    case tagged
    have "\<not> prefix ''='' line"
      using tagged by (cases line) auto
    moreover obtain r q where tg: "consume_tagged line (if p_hasKey p \<and> p_hasValue p then q1 else p) = (r, q)"
      by (metis prod.exhaust)
    ultimately show ?thesis
    proof (cases "p_hasKey p \<and> p_hasValue p")
      case True
      then have "r1 = None" "\<not> p_hasKey q1" "parser_inv q1" "\<not> p_done q1"
        using f assms by auto
      with True tagged tg fl tagged_accepts [of q1 line r q] \<open>\<not> prefix ''='' line\<close> show ?thesis
        by (auto simp: consume_def)
    next
      case False
      with tagged tg hv tagged_accepts [OF assms, of line r q] \<open>\<not> prefix ''='' line\<close> show ?thesis
        by (auto simp: consume_def)
    qed
  qed (auto simp: consume_def opens_key_def gives_value_def tag_defs)
qed

text \<open>
  C34: which lines the parser accepts. In every state it can be in, a line is accepted exactly if it is blank; or
  \<open>DONE\<close>, with no key waiting for its value and something read; or a continuation of a key or value; or a key,
  with no key waiting for its value; or the value of the kind of the key that waits for it. The error
  about an invalid target is never reported, and both maps keep one value per key.
\<close>

theorem consume_accepts_iff:
  assumes "reach parser_start parser_step p" "\<not> p_done p"
  shows "(fst (consume line p) = None \<longleftrightarrow>
      line = []
      \<or> line = ''DONE'' \<and> (p_hasKey p \<longrightarrow> p_hasValue p) \<and> (p_gotItem p \<or> p_hasKey p)
      \<or> prefix ''='' line \<and> p_hasKey p
      \<or> opens_key line \<and> (p_hasKey p \<longrightarrow> p_hasValue p)
      \<or> gives_value (pendingTarget p) line \<and> p_hasKey p \<and> \<not> p_hasValue p)
    \<and> fst (consume line p) \<noteq> Some InvalidPendingTarget
    \<and> distinct (map fst (details_data (p_details p)))
    \<and> distinct (map fst (details_secrets (p_details p)))"
proof -
  have inv: "parser_inv p"
    using assms(1) by (rule parser.inv_reach)
  then have "distinct (map fst (details_data (p_details p)))"
    "distinct (map fst (details_secrets (p_details p)))"
    by (simp_all add: parser_inv_def)
  then show ?thesis
    using consume_accepts [OF inv assms(2)] consume_inv [OF inv assms(2), of line]
    by (metis prod.collapse)
qed

lemma consume_accepts_iff_witness:
  "fst (consume ''=x'' new_parser) \<noteq> None"
proof -
  have "reach parser_start parser_step new_parser"
    by (rule reach_start) (simp add: parser_start_def)
  from consume_accepts_iff [OF this, of "''=x''"] show ?thesis
    by (simp add: new_parser_def opens_key_def tag_defs)
qed

section \<open>What is written is read\<close>

text \<open>
  The writing side of the protocol: an entry is whether it is a secret, its key and its value; each of
  key and value is a tagged line, with a line starting with \<open>=\<close> for every further line of it.
\<close>

type_synonym entry = "bool \<times> string \<times> string"

definition tagged_lines :: "string \<Rightarrow> string \<Rightarrow> string list" where
  "tagged_lines tag s =
     (case split_char nl s of [] \<Rightarrow> [tag] | w # ws \<Rightarrow> (tag @ w) # map ((#) (CHR ''='')) ws)"

fun entry_lines :: "entry \<Rightarrow> string list" where
  "entry_lines (sec, k, v) =
     tagged_lines (if sec then secretKeyTag else dataKeyTag) k
     @ tagged_lines (if sec then secretValTag else dataValTag) v"

definition connection_lines :: "entry list \<Rightarrow> string list" where
  "connection_lines es = concat (map entry_lines es) @ [''DONE'']"

definition as_bytes :: "string list \<Rightarrow> string" where
  "as_bytes ls = concat (map (\<lambda>l. l @ [nl]) ls)"

text \<open>The pairs of one kind, the last one for a key deciding.\<close>

definition pairs_of :: "bool \<Rightarrow> entry list \<Rightarrow> (string \<times> string) list" where
  "pairs_of sec es = map snd (filter (\<lambda>e. fst e = sec) es)"

definition one_line :: "string \<Rightarrow> bool" where
  "one_line l \<longleftrightarrow> nl \<notin> set l \<and> cr \<notin> set l \<and> nul \<notin> set l \<and> length l \<le> maxProtocolLineLen"

lemma split_char_nonempty [simp]: "split_char c s \<noteq> []"
  by (cases s) (auto split: list.split)

lemma join_Cons: "join sep (x # xs) = x @ concat (map (\<lambda>y. sep @ y) xs)"
  by (induction xs arbitrary: x) simp_all

lemma join_split_char: "join [c] (split_char c s) = s"
proof (induction s)
  case (Cons d s)
  then show ?case
    by (cases "split_char c s") (auto simp: join_Cons)
qed simp

lemma set_split_char: "w \<in> set (split_char c s) \<Longrightarrow> set w \<subseteq> set s - {c}"
proof (induction s arbitrary: w)
  case (Cons d s)
  obtain u us where u: "split_char c s = u # us"
    by (metis list.exhaust split_char_nonempty)
  have "set u \<subseteq> set s - {c}" "\<And>w. w \<in> set us \<Longrightarrow> set w \<subseteq> set s - {c}"
    using Cons.IH u by auto
  with Cons.prems u show ?case
    by (auto split: if_splits)
qed simp

text \<open>Feeding lines to the parser, as long as it accepts them and is not done.\<close>

fun feed :: "string list \<Rightarrow> protocolParser \<Rightarrow> protocolParser option" where
  "feed [] p = Some p"
| "feed (l # ls) p =
     (case consume l p of (None, q) \<Rightarrow> if p_done q then None else feed ls q | _ \<Rightarrow> None)"

lemma feed_append: "feed (ls @ ms) p = Option.bind (feed ls p) (feed ms)"
  by (induction ls arbitrary: p) (auto split: prod.split option.split)

lemma read_lines_line:
  assumes "one_line l"
  shows "read_lines (Suc n) k p \<lparr>in_bytes = l @ nl # rest, in_broken = b\<rparr> =
    (case consume l p of
       (Some e, _) \<Rightarrow> Inl (AtLine k e)
     | (None, q) \<Rightarrow>
         if p_done q then Inr (p_details q)
         else read_lines n (Suc k) q \<lparr>in_bytes = rest, in_broken = b\<rparr>)"
proof -
  have "trim_suffix l [cr] = l"
    using assms by (intro trim_suffix_last) (auto simp: one_line_def dest: last_in_set)
  then have "readProtocolLine \<lparr>in_bytes = l @ nl # rest, in_broken = b\<rparr> = (Inr l, \<lparr>in_bytes = rest, in_broken = b\<rparr>)"
    using assms read_chunks_line [of "\<lparr>in_bytes = l @ nl # rest, in_broken = b\<rparr>" l rest "[]"]
    by (simp add: readProtocolLine_def one_line_def)
  then show ?thesis by simp
qed

lemma read_lines_feed:
  assumes "\<forall>l \<in> set ls. one_line l" "feed ls p = Some q"
  shows "read_lines (length ls + n) k p \<lparr>in_bytes = as_bytes ls @ rest, in_broken = b\<rparr> =
    read_lines n (k + length ls) q \<lparr>in_bytes = rest, in_broken = b\<rparr>"
  using assms
proof (induction ls arbitrary: p k)
  case (Cons l ls)
  from Cons.prems obtain p' where "consume l p = (None, p')" "\<not> p_done p'" "feed ls p' = Some q"
    by (auto split: prod.splits option.splits if_splits)
  with Cons show ?case
    by (simp add: as_bytes_def read_lines_line del: read_lines.simps)
qed (simp add: as_bytes_def)

text \<open>The parser between two pairs, and with a key, or a key and its value.\<close>

definition idle :: "vpnDetails \<Rightarrow> bool \<Rightarrow> protocolParser" where
  "idle d got =
     \<lparr>p_details = d, p_done = False, p_gotItem = got, pendingTarget = [], pendingKey = [], pendingValue = [],
      p_hasKey = False, p_hasValue = False, currentField = []\<rparr>"

definition target_of :: "bool \<Rightarrow> string" where
  "target_of sec = (if sec then ''secrets'' else ''data'')"

definition with_key :: "vpnDetails \<Rightarrow> bool \<Rightarrow> bool \<Rightarrow> string \<Rightarrow> protocolParser" where
  "with_key d got sec k =
     (idle d got)\<lparr>pendingTarget := target_of sec, pendingKey := k, p_hasKey := True, currentField := ''key''\<rparr>"

definition with_pair :: "vpnDetails \<Rightarrow> bool \<Rightarrow> bool \<Rightarrow> string \<Rightarrow> string \<Rightarrow> protocolParser" where
  "with_pair d got sec k v =
     (with_key d got sec k)\<lparr>pendingValue := v, p_hasValue := True, currentField := ''value''\<rparr>"

fun put :: "entry \<Rightarrow> vpnDetails \<Rightarrow> vpnDetails" where
  "put (sec, k, v) d =
     (if sec then d\<lparr>details_secrets := AList.update k v (details_secrets d)\<rparr>
      else d\<lparr>details_data := AList.update k v (details_data d)\<rparr>)"

lemmas parser_states = idle_def with_key_def with_pair_def target_of_def

lemma flush_idle: "flush (idle d got) = (None, idle d got)"
  by (simp add: flush_def idle_def)

lemma flush_pair: "flush (with_pair d got sec k v) = (None, idle (put (sec, k, v) d) True)"
  by (simp add: flush_def parser_states Let_def)

lemma consume_key_idle:
  "consume ((if sec then secretKeyTag else dataKeyTag) @ w) (idle d got) = (None, with_key d got sec w)"
  by (simp add: consume_def consume_tagged_def startKey_def trim_prefix_def parser_states tag_defs)

lemma consume_key_pair:
  "consume ((if sec then secretKeyTag else dataKeyTag) @ w) (with_pair d got sec' k v) =
     (None, with_key (put (sec', k, v) d) True sec w)"
proof -
  have "p_hasKey (with_pair d got sec' k v)" "p_hasValue (with_pair d got sec' k v)"
    by (simp_all add: parser_states)
  then show ?thesis
    using flush_pair [of d got sec' k v]
    by (simp add: consume_def consume_tagged_def startKey_def trim_prefix_def tag_defs)
      (simp add: parser_states)
qed

lemma consume_value_key:
  "consume ((if sec then secretValTag else dataValTag) @ w) (with_key d got sec k) =
     (None, with_pair d got sec k w)"
  by (simp add: consume_def consume_tagged_def setValue_def trim_prefix_def parser_states tag_defs)

lemma feed_more_key:
  "feed (map ((#) (CHR ''='')) ws) (with_key d got sec k) =
     Some (with_key d got sec (k @ concat (map (\<lambda>w. [nl] @ w) ws)))"
proof (induction ws arbitrary: k)
  case (Cons w ws)
  have "consume (CHR ''='' # w) (with_key d got sec k) = (None, with_key d got sec (k @ nl # w))"
    "\<not> p_done (with_key d got sec (k @ nl # w))"
    by (simp_all add: consume_def continuePrevious_def parser_states)
  then show ?case
    using Cons by simp
qed simp

lemma feed_more_value:
  "feed (map ((#) (CHR ''='')) ws) (with_pair d got sec k v) =
     Some (with_pair d got sec k (v @ concat (map (\<lambda>w. [nl] @ w) ws)))"
proof (induction ws arbitrary: v)
  case (Cons w ws)
  have "consume (CHR ''='' # w) (with_pair d got sec k v) = (None, with_pair d got sec k (v @ nl # w))"
    "\<not> p_done (with_pair d got sec k (v @ nl # w))"
    by (simp_all add: consume_def continuePrevious_def parser_states)
  then show ?case
    using Cons by simp
qed simp

lemma not_done [simp]:
  "\<not> p_done (idle d got)" "\<not> p_done (with_key d got sec k)" "\<not> p_done (with_pair d got sec k v)"
  by (simp_all add: parser_states)

text \<open>The lines of a text under a tag are read as that text.\<close>

lemma feed_tagged:
  assumes "\<And>w. consume (tag @ w) p = (None, f w)" "\<And>w. \<not> p_done (f w)"
    "\<And>w ws. feed (map ((#) (CHR ''='')) ws) (f w) = Some (f (w @ concat (map (\<lambda>w. [nl] @ w) ws)))"
  shows "feed (tagged_lines tag s) p = Some (f s)"
proof -
  obtain w ws where ws: "split_char nl s = w # ws"
    by (metis list.exhaust split_char_nonempty)
  then have "s = w @ concat (map (\<lambda>w. [nl] @ w) ws)"
    by (metis join_Cons join_split_char)
  with assms ws show ?thesis
    by (simp add: tagged_lines_def)
qed

lemma feed_entry_idle: "feed (entry_lines (sec, k, v)) (idle d got) = Some (with_pair d got sec k v)"
  by (simp add: feed_append feed_more_key feed_more_value consume_key_idle consume_value_key
      feed_tagged [where f = "with_key d got sec"] feed_tagged [where f = "with_pair d got sec k"])

lemma feed_entry_pair:
  "feed (entry_lines (sec, k, v)) (with_pair d got sec' k' v') =
     Some (with_pair (put (sec', k', v') d) True sec k v)"
  by (simp add: feed_append feed_more_key feed_more_value consume_key_pair consume_value_key
      feed_tagged [where f = "with_key (put (sec', k', v') d) True sec"]
      feed_tagged [where f = "with_pair (put (sec', k', v') d) True sec k"])

lemma feed_entries:
  "\<exists>d' got' sec' k' v'.
    feed (concat (map entry_lines es)) (with_pair d got sec k v) = Some (with_pair d' got' sec' k' v')
    \<and> put (sec', k', v') d' = fold put ((sec, k, v) # es) d"
proof (induction es arbitrary: sec k v d got)
  case (Cons e es)
  obtain sec1 k1 v1 where e: "e = (sec1, k1, v1)"
    by (metis prod.exhaust)
  from Cons [of "put (sec, k, v) d" True sec1 k1 v1] e show ?case
    by (simp add: feed_append feed_entry_pair del: entry_lines.simps put.simps)
qed (simp del: put.simps, blast)

lemma map_of_fold_put:
  "map_of (details_data (fold put es d)) = map_of (details_data d) ++ map_of (rev (pairs_of False es))"
  "map_of (details_secrets (fold put es d)) = map_of (details_secrets d) ++ map_of (rev (pairs_of True es))"
  by (induction es arbitrary: d) (auto simp: pairs_of_def update_conv' map_add_def split: option.split)

lemma one_line_tagged:
  assumes "set s \<inter> {cr, nul} = {}" "set tag \<inter> {nl, cr, nul} = {}" "l \<in> set (tagged_lines tag s)"
  shows "nl \<notin> set l \<and> cr \<notin> set l \<and> nul \<notin> set l"
proof -
  obtain w ws where ws: "split_char nl s = w # ws"
    by (metis list.exhaust split_char_nonempty)
  with assms(3) obtain v where "v \<in> set (split_char nl s)" "l = tag @ v \<or> l = CHR ''='' # v"
    by (auto simp: tagged_lines_def)
  with set_split_char [of v nl s] assms(1,2) show ?thesis
    by auto
qed

lemma one_line_connection:
  assumes "\<forall>(sec, k, v) \<in> set es. (set k \<union> set v) \<inter> {cr, nul} = {}"
    and "l \<in> set (connection_lines es)" "length l \<le> maxProtocolLineLen"
  shows "one_line l"
proof (cases "l = ''DONE''")
  case False
  then obtain sec k v where "(sec, k, v) \<in> set es"
    and l: "l \<in> set (tagged_lines (if sec then secretKeyTag else dataKeyTag) k)
      \<or> l \<in> set (tagged_lines (if sec then secretValTag else dataValTag) v)"
    using assms(2) by (auto simp: connection_lines_def)
  then have "set k \<inter> {cr, nul} = {}" "set v \<inter> {cr, nul} = {}"
    using assms(1) by auto
  moreover have "set (if sec then secretKeyTag else dataKeyTag) \<inter> {nl, cr, nul} = {}"
    "set (if sec then secretValTag else dataValTag) \<inter> {nl, cr, nul} = {}"
    by (simp_all add: tag_defs)
  ultimately have "nl \<notin> set l \<and> cr \<notin> set l \<and> nul \<notin> set l"
    using l one_line_tagged by metis
  with assms(3) show ?thesis
    by (simp add: one_line_def)
qed (simp add: one_line_def maxProtocolLineLen_def)

lemma read_connection_put:
  assumes "es \<noteq> []" "\<forall>(sec, k, v) \<in> set es. (set k \<union> set v) \<inter> {cr, nul} = {}"
    and "length (connection_lines es) \<le> 4096" "\<forall>l \<in> set (connection_lines es). length l \<le> 524288"
  shows "readVPNDetails (Some \<lparr>in_bytes = as_bytes (connection_lines es) @ rest, in_broken = b\<rparr>) =
    Inr (fold put es \<lparr>details_data = [], details_secrets = []\<rparr>)"
proof -
  define ls where "ls = concat (map entry_lines es)"
  obtain sec k v es' where es: "es = (sec, k, v) # es'"
    using assms(1) by (metis list.exhaust prod_cases3)
  have lines: "\<forall>l \<in> set ls. one_line l"
    using one_line_connection [OF assms(2)] assms(4)
    by (simp add: connection_lines_def ls_def maxProtocolLineLen_def)
  obtain n where n: "maxProtocolLines = length ls + Suc n"
    using assms(3) by (auto simp: connection_lines_def ls_def maxProtocolLines_def dest!: le_Suc_ex)
  define d0 where "d0 = \<lparr>details_data = [], details_secrets = []\<rparr>"
  have start: "new_parser = idle d0 False"
    by (simp add: new_parser_def idle_def d0_def)
  obtain d got sec1 k1 v1 where fd: "feed ls new_parser = Some (with_pair d got sec1 k1 v1)"
    and result: "put (sec1, k1, v1) d = fold put es d0"
    using feed_entries [of es' d0 False sec k v] feed_entry_idle [of sec k v d0 False] es
    by (auto simp: ls_def feed_append start simp del: entry_lines.simps put.simps)
  have "consume ''DONE'' (with_pair d got sec1 k1 v1) =
      (None, (idle (put (sec1, k1, v1) d) True)\<lparr>p_done := True\<rparr>)"
    by (simp add: consume_def flush_pair del: put.simps) (simp add: idle_def)
  moreover have "one_line ''DONE''"
    by (simp add: one_line_def maxProtocolLineLen_def)
  moreover have "as_bytes (connection_lines es) @ rest = as_bytes ls @ ''DONE'' @ nl # rest"
    by (simp add: as_bytes_def connection_lines_def ls_def)
  ultimately have "readVPNDetails (Some \<lparr>in_bytes = as_bytes (connection_lines es) @ rest, in_broken = b\<rparr>) =
      Inr (fold put es d0)"
    using read_lines_feed [OF lines fd, of "Suc n" 1] read_lines_line [of "''DONE''" n]
    by (simp add: readVPNDetails_def n result [symmetric] idle_def del: read_lines.simps put.simps)
  then show ?thesis
    by (simp add: d0_def)
qed

text \<open>
  C11: a connection written in the protocol is read back. For any keys and values without carriage
  returns and NUL bytes (newlines become continuation lines), within the limits of 4096 lines and 512 KiB per
  line, the dialog reads exactly the written settings and secrets, the last value of a
  key deciding, whatever follows \<open>DONE\<close> in the stream.
\<close>

theorem read_written_connection:
  assumes "es \<noteq> []" "\<forall>(sec, k, v) \<in> set es. (set k \<union> set v) \<inter> {cr, nul} = {}"
    and "length (connection_lines es) \<le> 4096" "\<forall>l \<in> set (connection_lines es). length l \<le> 524288"
  shows "\<exists>d. readVPNDetails (Some \<lparr>in_bytes = as_bytes (connection_lines es) @ rest, in_broken = b\<rparr>) = Inr d
    \<and> map_of (details_data d) = map_of (rev (pairs_of False es))
    \<and> map_of (details_secrets d) = map_of (rev (pairs_of True es))"
  using read_connection_put [OF assms, of rest b] map_of_fold_put [of es "\<lparr>details_data = [], details_secrets = []\<rparr>"] by simp

lemma read_written_connection_witness:
  "\<exists>d. readVPNDetails
      (Some \<lparr>in_bytes = ''DATA_KEY=auth'' @ [nl] @ ''DATA_VAL=sso'' @ [nl] @ ''=x'' @ [nl] @ ''DONE'' @ [nl],
             in_broken = None\<rparr>) = Inr d
    \<and> map_of (details_data d) = [''auth'' \<mapsto> ''sso'' @ nl # ''x'']"
  using read_written_connection [of "[(False, ''auth'', ''sso'' @ nl # ''x'')]" "[]" None]
  by (simp add: connection_lines_def tagged_lines_def tag_defs as_bytes_def pairs_of_def) blast

end
