(* ===== verification/Dialog.thy ===== *)
theory Dialog
  imports Flags Protocol
begin

text \<open>
  The auth dialog (\<open>internal/nmauthdialog/dialog.go\<close>): the hints and settings it decides on, the answers it
  writes for NetworkManager in the plain and in the external user-interface format, and the browser it opens. What the
  process does outside is a log of actions; what the environment answers is a record of
  functions. Errors are values, their texts are not rendered.
\<close>

section \<open>Definitions\<close>

subsection \<open>Names\<close>

definition keyAuth :: string where
  "keyAuth = ''auth''"

definition keyNoSecret :: string where
  "keyNoSecret = ''no-secret''"

definition keySetupKey :: string where
  "keySetupKey = ''setup-key''"

definition keyActivationID :: string where
  "keyActivationID = ''x-netbird-activation-id''"

definition keyNetBirdSSO :: string where
  "keyNetBirdSSO = ''x-netbird-sso''"

definition keyNetBirdSSOVerificationURI :: string where
  "keyNetBirdSSOVerificationURI = ''x-netbird-sso-verification-uri''"

definition keyNetBirdSSOVerificationFull :: string where
  "keyNetBirdSSOVerificationFull = ''x-netbird-sso-verification-uri-complete''"

definition keyNetBirdSSOUserCode :: string where
  "keyNetBirdSSOUserCode = ''x-netbird-sso-user-code''"

definition keyNetBirdSSOContinue :: string where
  "keyNetBirdSSOContinue = ''x-netbird-sso-continue''"

definition uiKeyfileGroup :: string where
  "uiKeyfileGroup = ''VPN Plugin UI''"

definition setupKeyLabel :: string where
  "setupKeyLabel = ''Setup key''"

definition setupKeyPrompt :: string where
  "setupKeyPrompt = ''Enter the NetBird setup key for this connection.''"

definition setupKeyTitle :: string where
  "setupKeyTitle = ''NetBird authentication''"

definition ssoTitle :: string where
  "ssoTitle = ''NetBird SSO login required''"

definition ssoContinueLabel :: string where
  "ssoContinueLabel = ''Continue''"

definition internalPromptLabel :: string where
  "internalPromptLabel = ''NetBird internal value''"

subsection \<open>The world outside\<close>

text \<open>
  \<open>Write\<close> is one successful write to standard output, \<open>Complain\<close> an error reported on standard error,
  \<open>StartBrowser\<close> a call of \<open>Start\<close> on \<open>xdg-open\<close>, \<open>Notify\<close> the call of the desktop notification service.
\<close>

datatype dialog_error =
    ArgsError args_error
  | InvalidBrowserURL string
  | BrowserTimeoutNotPositive
  | NoDesktopEnvironment
  | BrowserStartFailed
  | BrowserFailed
  | BrowserTimedOut duration
  | ReadDetailsError protocol_error
  | InteractionUnavailable
  | SSONeedsInteraction
  | UnprintableSecret
  | WriteFailed

datatype dialog_action =
    Write string
  | Complain dialog_error
  | StartBrowser string
  | KillBrowser
  | Notify string string string string "32 word"

type_synonym dialog_log = "dialog_action list"

datatype browser_end = BrowserExited | BrowserExitedWithError | BrowserStillRunning

text \<open>
  The environment: variables, whether a directory has the entry \<open>bus\<close>, \<open>url.Parse\<close> (scheme and host),
  \<open>time.ParseDuration\<close>, the order in which a map is ranged over (by the number of the loop), whether a write
  succeeds, whether \<open>xdg-open\<close> starts and how it ends within the timeout, and whether the session bus can be reached.
\<close>

record dialog_env =
  getenv :: "string \<Rightarrow> string"
  has_bus :: "string \<Rightarrow> bool"
  url_parse :: "string \<Rightarrow> (string \<times> string) option"
  parse_duration :: "string \<Rightarrow> duration option"
  ranging :: "nat \<Rightarrow> string go_map \<Rightarrow> string go_map"
  accepts :: "dialog_log \<Rightarrow> string \<Rightarrow> bool"
  browser_starts :: "string \<Rightarrow> bool"
  browser_ends :: "string \<Rightarrow> browser_end"
  bus_connects :: bool

definition write_out :: "dialog_env \<Rightarrow> string \<Rightarrow> dialog_log \<Rightarrow> dialog_error option \<times> dialog_log" where
  "write_out env s log = (if accepts env log s then (None, log @ [Write s]) else (Some WriteFailed, log))"

subsection \<open>Settings and hints\<close>

definition dlg_normalizeSettingKey :: "string \<Rightarrow> string" where
  "dlg_normalizeSettingKey key = filter (\<lambda>r. is_lower r \<or> is_digit r) (to_lower (trim_space key))"

definition dlg_normalizeAuthMode :: "string \<Rightarrow> string" where
  "dlg_normalizeAuthMode v =
     (let w = replace_char (CHR ''_'') (CHR ''-'') (to_lower (trim_space v))
      in if List.member [''setupkey'', ''setup-key'', ''key''] w then ''setup-key''
         else if List.member ['''', ''sso'', ''browser'', ''interactive'', ''login'', ''force-login'', ''reuse''] w
         then ''sso''
         else w)"

definition isTruthy :: "string \<Rightarrow> bool" where
  "isTruthy v = List.member [''1'', ''t'', ''true'', ''y'', ''yes'', ''on''] (to_lower (trim_space v))"

definition isSetupKeyName :: "string \<Rightarrow> bool" where
  "isSetupKeyName v = List.member [''setupkey'', ''netbirdsetupkey''] (dlg_normalizeSettingKey v)"

text \<open>\<open>firstSettingValue\<close> ranges over the map as given; \<open>normalized\<close> is the map it builds.\<close>

fun first_value :: "(string \<rightharpoonup> string) \<Rightarrow> string list \<Rightarrow> string" where
  "first_value normalized [] = []"
| "first_value normalized (key # keys) =
     (let v = get_str normalized (dlg_normalizeSettingKey key)
      in if v \<noteq> [] then v else first_value normalized keys)"

definition firstSettingValue :: "string go_map \<Rightarrow> bool \<Rightarrow> string list \<Rightarrow> string" where
  "firstSettingValue vs trimValue keys =
     (if vs = [] then []
      else
        first_value
          (fold (\<lambda>(key, v) m. m(dlg_normalizeSettingKey key \<mapsto> if trimValue then trim_space v else v)) vs Map.empty)
          keys)"

definition dlg_firstSetting :: "string go_map \<Rightarrow> string list \<Rightarrow> string" where
  "dlg_firstSetting vs keys = firstSettingValue vs True keys"

definition firstSettingPreserveValue :: "string go_map \<Rightarrow> string list \<Rightarrow> string" where
  "firstSettingPreserveValue vs keys = firstSettingValue vs False keys"

record hintValues =
  hints_raw :: "string list"
  hints_values :: "string \<rightharpoonup> string"

definition parse_hint :: "string \<Rightarrow> (string \<rightharpoonup> string) \<Rightarrow> (string \<rightharpoonup> string)" where
  "parse_hint hint m =
     (case cut_at (CHR ''='') (trim_space hint) of
        (key0, v0, ok) \<Rightarrow>
          (let key = trim_space key0
           in if key = [] then m
              else m(dlg_normalizeSettingKey key \<mapsto> trim_space (if ok then v0 else ''true''))))"

definition parseHints :: "string list \<Rightarrow> hintValues" where
  "parseHints hints = \<lparr>hints_raw = hints, hints_values = fold parse_hint hints Map.empty\<rparr>"

definition hint_value :: "hintValues \<Rightarrow> string \<Rightarrow> string" where
  "hint_value h key = trim_space (get_str (hints_values h) (dlg_normalizeSettingKey key))"

definition hasSetupKey :: "hintValues \<Rightarrow> bool" where
  "hasSetupKey h = list_ex (\<lambda>hint. isSetupKeyName (fst (cut_at (CHR ''='') hint))) (hints_raw h)"

definition ssoRequested :: "hintValues \<Rightarrow> bool" where
  "ssoRequested h =
     (isTruthy (hint_value h keyNetBirdSSO)
      \<or> hint_value h keyNetBirdSSOVerificationURI \<noteq> []
      \<or> hint_value h keyNetBirdSSOVerificationFull \<noteq> []
      \<or> hint_value h keyNetBirdSSOUserCode \<noteq> [])"

definition setupKeyRequirement :: "dialog_env \<Rightarrow> hintValues \<Rightarrow> vpnDetails \<Rightarrow> bool \<times> string" where
  "setupKeyRequirement env hints details =
     (let authMode = dlg_normalizeAuthMode
            (dlg_firstSetting (ranging env 0 (details_data details))
               [keyAuth, ''auth-mode'', ''authentication'', ''login-mode'']);
          key0 = firstSettingPreserveValue (ranging env 1 (details_secrets details))
            [keySetupKey, ''setupKey'', ''netbird-setup-key''];
          setupKey = (if key0 = []
            then dlg_firstSetting (ranging env 2 (details_data details))
              [keySetupKey, ''setupKey'', ''netbird-setup-key'']
            else key0)
      in (authMode = ''setup-key'' \<or> hasSetupKey hints, setupKey))"

subsection \<open>Key files\<close>

fun escape_from :: "bool \<Rightarrow> string \<Rightarrow> string" where
  "escape_from leading [] = []"
| "escape_from leading (ch # rest) =
     (if ch = CHR 0x5C then [CHR 0x5C, CHR 0x5C] @ escape_from False rest
      else if ch = nl then [CHR 0x5C, CHR ''n''] @ escape_from False rest
      else if ch = cr then [CHR 0x5C, CHR ''r''] @ escape_from False rest
      else if ch = CHR 0x09 then [CHR 0x5C, CHR ''t''] @ escape_from False rest
      else if ch = CHR '' ''
      then (if leading then [CHR 0x5C, CHR ''s''] else [ch]) @ escape_from leading rest
      else ch # escape_from False rest)"

definition escapeKeyfileValue :: "string \<Rightarrow> string" where
  "escapeKeyfileValue v = escape_from True v"

definition writeKeyfileUIHeader :: "string \<Rightarrow> string \<Rightarrow> string" where
  "writeKeyfileUIHeader title description =
     ''['' @ uiKeyfileGroup @ '']'' @ [nl] @ ''Version=2'' @ [nl]
     @ (if description \<noteq> [] then ''Description='' @ escapeKeyfileValue description @ [nl] else [])
     @ (if title \<noteq> [] then ''Title='' @ escapeKeyfileValue title @ [nl] else [])
     @ [nl]"

definition writeKeyfileEntry :: "string \<Rightarrow> string \<Rightarrow> string \<Rightarrow> bool \<Rightarrow> bool \<Rightarrow> string" where
  "writeKeyfileEntry key v label isSecret shouldAsk =
     ''['' @ key @ '']'' @ [nl] @ ''Value='' @ escapeKeyfileValue v
     @ [nl] @ ''Label='' @ escapeKeyfileValue label
     @ [nl] @ ''IsSecret='' @ format_bool isSecret
     @ [nl] @ ''ShouldAsk='' @ format_bool shouldAsk @ [nl]"

definition writeInternalHintEntry :: "hintValues \<Rightarrow> string \<Rightarrow> string" where
  "writeInternalHintEntry hints key =
     (let v = hint_value hints key
      in if v = [] then [] else writeKeyfileEntry key v internalPromptLabel False False)"

definition writeInternalHintEntries :: "hintValues \<Rightarrow> string" where
  "writeInternalHintEntries hints =
     writeInternalHintEntry hints keyActivationID
     @ writeInternalHintEntry hints keyNetBirdSSOVerificationURI
     @ writeInternalHintEntry hints keyNetBirdSSOVerificationFull
     @ writeInternalHintEntry hints keyNetBirdSSOUserCode"

definition formatSSODescription :: "hintValues \<Rightarrow> string" where
  "formatSSODescription hints =
     (let code = hint_value hints keyNetBirdSSOUserCode
      in join [nl, nl]
           ([''Complete NetBird SSO in the browser window that opens.'']
            @ (if code \<noteq> [] then [''User code: '' @ code] else [])
            @ [''After browser login completes, click Connect to finish activation.'']))"

subsection \<open>The browser\<close>

definition firstNonEmpty :: "string list \<Rightarrow> string" where
  "firstNonEmpty vs =
     (case find (\<lambda>v. trim_space v \<noteq> []) vs of None \<Rightarrow> [] | Some v \<Rightarrow> trim_space v)"

text \<open>\<open>None\<close> stands for \<open>false\<close>.\<close>

definition validateSSOBrowserURI :: "dialog_env \<Rightarrow> string \<Rightarrow> string option" where
  "validateSSOBrowserURI env raw =
     (let trimmed = trim_space raw
      in if trimmed = [] then None
         else
           (case url_parse env trimmed of
              None \<Rightarrow> None
            | Some (scheme, host) \<Rightarrow>
                if host = [] then None
                else if to_lower scheme = ''http'' \<or> to_lower scheme = ''https'' then Some trimmed
                else None))"

definition hasSessionBusEnvironment :: "dialog_env \<Rightarrow> bool" where
  "hasSessionBusEnvironment env =
     (let address = getenv env ''DBUS_SESSION_BUS_ADDRESS'';
          runtimeDir = getenv env ''XDG_RUNTIME_DIR''
      in address \<noteq> []
           \<and> list_ex (\<lambda>c. trim_space c \<noteq> [] \<and> \<not> prefix ''autolaunch:'' (trim_space c)) (split_char (CHR '','') address)
         \<or> runtimeDir \<noteq> [] \<and> has_bus env runtimeDir)"

definition hasDesktopOpenEnvironment :: "dialog_env \<Rightarrow> bool" where
  "hasDesktopOpenEnvironment env =
     (if getenv env ''DISPLAY'' \<noteq> [] \<or> getenv env ''WAYLAND_DISPLAY'' \<noteq> [] then True
      else hasSessionBusEnvironment env)"

definition sendDesktopNotification ::
  "dialog_env \<Rightarrow> string \<Rightarrow> string \<Rightarrow> string \<Rightarrow> string \<Rightarrow> 32 word \<Rightarrow> dialog_log \<Rightarrow> dialog_log" where
  "sendDesktopNotification env appName icon summary body expireTimeout log =
     (if \<not> hasSessionBusEnvironment env then log
      else if \<not> bus_connects env then log
      else log @ [Notify appName icon summary body expireTimeout])"

definition notifyOpeningSSOBrowser :: "dialog_env \<Rightarrow> dialog_log \<Rightarrow> dialog_log" where
  "notifyOpeningSSOBrowser env log =
     sendDesktopNotification env ''NetBird'' ''network-vpn'' ''Opening browser for NetBird SSO''
       ''Complete the NetBird login in your browser.'' 2000 log"

definition openSSOBrowser :: "dialog_env \<Rightarrow> hintValues \<Rightarrow> dialog_log \<Rightarrow> dialog_log" where
  "openSSOBrowser env hints log =
     (case validateSSOBrowserURI env
             (firstNonEmpty [hint_value hints keyNetBirdSSOVerificationFull,
                             hint_value hints keyNetBirdSSOVerificationURI]) of
        None \<Rightarrow> log
      | Some uri \<Rightarrow>
          if \<not> hasDesktopOpenEnvironment env then log
          else if browser_starts env uri then notifyOpeningSSOBrowser env (log @ [StartBrowser uri])
          else log @ [StartBrowser uri])"

definition openBrowserAndWait ::
  "dialog_env \<Rightarrow> string \<Rightarrow> duration \<Rightarrow> dialog_log \<Rightarrow> dialog_error option \<times> dialog_log" where
  "openBrowserAndWait env uri timeout log =
     (let log = log @ [StartBrowser uri]
      in if \<not> browser_starts env uri then (Some BrowserStartFailed, log)
         else
           (case browser_ends env uri of
              BrowserExited \<Rightarrow> (None, log)
            | BrowserExitedWithError \<Rightarrow> (Some BrowserFailed, log)
            | BrowserStillRunning \<Rightarrow> (Some (BrowserTimedOut timeout), log @ [KillBrowser])))"

definition runBrowserTest ::
  "dialog_env \<Rightarrow> dialog_options \<Rightarrow> dialog_log \<Rightarrow> dialog_error option \<times> dialog_log" where
  "runBrowserTest env opts log =
     (case validateSSOBrowserURI env (opt_TestBrowserURL opts) of
        None \<Rightarrow> (Some (InvalidBrowserURL (opt_TestBrowserURL opts)), log)
      | Some uri \<Rightarrow>
          if sint (opt_TestBrowserTimeout opts) \<le> 0 then (Some BrowserTimeoutNotPositive, log)
          else if \<not> opt_TestBrowserForce opts \<and> \<not> hasDesktopOpenEnvironment env
          then (Some NoDesktopEnvironment, log)
          else
            (case openBrowserAndWait env uri (opt_TestBrowserTimeout opts) log of
               (Some e, log) \<Rightarrow> (Some e, log)
             | (None, log) \<Rightarrow> write_out env (''opened '' @ uri @ [nl]) log))"

subsection \<open>Answers\<close>

type_synonym standardSecret = "string \<times> string"

definition breaks_line :: "string \<Rightarrow> bool" where
  "breaks_line s = list_ex (\<lambda>c. c = nl \<or> c = cr \<or> c = nul) s"

fun writeStandardSecrets ::
  "dialog_env \<Rightarrow> standardSecret list \<Rightarrow> dialog_log \<Rightarrow> dialog_error option \<times> dialog_log" where
  "writeStandardSecrets env [] log = write_out env [nl, nl] log"
| "writeStandardSecrets env ((key, v) # rest) log =
     (if breaks_line key \<or> breaks_line v then (Some UnprintableSecret, log)
      else
        (case write_out env (key @ [nl] @ v @ [nl]) log of
           (Some e, log) \<Rightarrow> (Some e, log)
         | (None, log) \<Rightarrow> writeStandardSecrets env rest log))"

definition writeStandardSecret ::
  "dialog_env \<Rightarrow> string \<Rightarrow> string \<Rightarrow> dialog_log \<Rightarrow> dialog_error option \<times> dialog_log" where
  "writeStandardSecret env key v log = writeStandardSecrets env [(key, v)] log"

definition writeExternalNoSecret :: "dialog_env \<Rightarrow> dialog_log \<Rightarrow> dialog_error option \<times> dialog_log" where
  "writeExternalNoSecret env log =
     write_out env (writeKeyfileUIHeader [] [] @ writeKeyfileEntry keyNoSecret ''true'' [] False False) log"

definition writeNoSecret :: "dialog_env \<Rightarrow> bool \<Rightarrow> dialog_log \<Rightarrow> dialog_error option \<times> dialog_log" where
  "writeNoSecret env externalUI log =
     (if externalUI then writeExternalNoSecret env log else writeStandardSecret env keyNoSecret ''true'' log)"

definition writeExternalSetupKey ::
  "dialog_env \<Rightarrow> hintValues \<Rightarrow> string \<Rightarrow> bool \<Rightarrow> dialog_log \<Rightarrow> dialog_error option \<times> dialog_log" where
  "writeExternalSetupKey env hints v shouldAsk log =
     write_out env
       (writeKeyfileUIHeader setupKeyTitle setupKeyPrompt
        @ writeKeyfileEntry keySetupKey v setupKeyLabel True shouldAsk
        @ writeInternalHintEntries hints) log"

definition writeExternalSSO ::
  "dialog_env \<Rightarrow> hintValues \<Rightarrow> dialog_log \<Rightarrow> dialog_error option \<times> dialog_log" where
  "writeExternalSSO env hints log =
     write_out env
       (writeKeyfileUIHeader ssoTitle (formatSSODescription hints)
        @ writeKeyfileEntry keyNetBirdSSOContinue ''true'' ssoContinueLabel False False
        @ writeInternalHintEntry hints keyActivationID)
       (openSSOBrowser env hints log)"

definition appendHintValue :: "standardSecret list \<Rightarrow> hintValues \<Rightarrow> string \<Rightarrow> standardSecret list" where
  "appendHintValue vs hints key =
     (let v = hint_value hints key in if v = [] then vs else vs @ [(key, v)])"

definition writeStandardSSO ::
  "dialog_env \<Rightarrow> hintValues \<Rightarrow> dialog_log \<Rightarrow> dialog_error option \<times> dialog_log" where
  "writeStandardSSO env hints log =
     writeStandardSecrets env (appendHintValue [(keyNetBirdSSOContinue, ''true'')] hints keyActivationID) log"

definition writeSSOResponse ::
  "dialog_env \<Rightarrow> dialog_options \<Rightarrow> hintValues \<Rightarrow> dialog_log \<Rightarrow> dialog_error option \<times> dialog_log" where
  "writeSSOResponse env opts hints log =
     (if \<not> opt_AllowInteraction opts then (Some SSONeedsInteraction, log)
      else if opt_ExternalUIMode opts then writeExternalSSO env hints log
      else writeStandardSSO env hints log)"

definition writeResponse ::
  "dialog_env \<Rightarrow> dialog_options \<Rightarrow> vpnDetails \<Rightarrow> dialog_log \<Rightarrow> dialog_error option \<times> dialog_log" where
  "writeResponse env opts details log =
     (let hints = parseHints (opt_Hints opts)
      in if ssoRequested hints then writeSSOResponse env opts hints log
         else
           (case setupKeyRequirement env hints details of
              (needsSetupKey, setupKey) \<Rightarrow>
                if needsSetupKey
                then
                  (let shouldAsk = (opt_Reprompt opts \<or> trim_space setupKey = [])
                   in if shouldAsk \<and> (\<not> opt_ExternalUIMode opts \<or> \<not> opt_AllowInteraction opts)
                      then (Some InteractionUnavailable, log)
                      else if opt_ExternalUIMode opts then writeExternalSetupKey env hints setupKey shouldAsk log
                      else writeStandardSecret env keySetupKey setupKey log)
                else writeNoSecret env (opt_ExternalUIMode opts) log))"

text \<open>\<open>Run\<close>: the exit code and the log of the process, with standard output and error present, as \<open>main\<close> calls it.\<close>

definition dlg_Run :: "dialog_env \<Rightarrow> string list \<Rightarrow> input option \<Rightarrow> nat \<times> dialog_log" where
  "dlg_Run env args stdin =
     (case ParseArgs (parse_duration env) args of
        Inl e \<Rightarrow> (1, [Complain (ArgsError e)])
      | Inr opts \<Rightarrow>
          if trim_space (opt_TestBrowserURL opts) \<noteq> []
          then (case runBrowserTest env opts [] of
                  (Some e, log) \<Rightarrow> (1, log @ [Complain e])
                | (None, log) \<Rightarrow> (0, log))
          else
            (case readVPNDetails stdin of
               Inl e \<Rightarrow> (1, [Complain (ReadDetailsError e)])
             | Inr details \<Rightarrow>
                 (case writeResponse env opts details [] of
                    (Some e, log) \<Rightarrow> (1, log @ [Complain e])
                  | (None, log) \<Rightarrow> (0, log))))"

text \<open>The process: \<open>Run\<close> on the arguments after the program's name; its result is the exit code.\<close>

definition auth_dialog_main :: "dialog_env \<Rightarrow> string list \<Rightarrow> input option \<Rightarrow> nat \<times> dialog_log" where
  "auth_dialog_main env argv stdin = dlg_Run env (tl argv) stdin"

section \<open>Texts on one line\<close>

text \<open>
  A way to write a text on a line of its own and to read it back; what is written after a key and
  \<open>=\<close> can be found again.
\<close>

locale line_codec =
  fixes enc :: "'a \<Rightarrow> string" and dec :: "string \<Rightarrow> 'a"
  assumes dec_enc: "dec (enc x) = x"
    and enc_line: "nl \<notin> set (enc x)"
begin

lemma enc_inj: "enc x = enc y \<longleftrightarrow> x = y"
  by (metis dec_enc)

lemma enc_field: "CHR ''='' \<notin> set k \<Longrightarrow> cut_at (CHR ''='') (k @ CHR ''='' # enc x) = (k, enc x, True)"
  by simp

lemma enc_line_splits: "nl \<notin> set k \<Longrightarrow> split_char nl (k @ enc x @ nl # s) = (k @ enc x) # split_char nl s"
proof -
  have "split_char nl (l @ nl # s) = l # split_char nl s" if "nl \<notin> set l" for l
    using that by (induction l) auto
  from this [of "k @ enc x"] show "nl \<notin> set k \<Longrightarrow> ?thesis"
    using enc_line [of x] by simp
qed

end

lemma split_char_line: "nl \<notin> set l \<Longrightarrow> split_char nl (l @ nl # s) = l # split_char nl s"
  by (induction l) auto

text \<open>Reading an escaped value: leading blanks are skipped, escapes are undone.\<close>

fun unescape :: "string \<Rightarrow> string" where
  "unescape [] = []"
| "unescape [c] = (if c = CHR 0x5C then [] else [c])"
| "unescape (c # d # cs) =
     (if c = CHR 0x5C
      then (if d = CHR ''n'' then nl
            else if d = CHR ''r'' then cr
            else if d = CHR ''t'' then CHR 0x09
            else if d = CHR ''s'' then CHR '' ''
            else d) # unescape cs
      else c # unescape (d # cs))"

definition keyfile_value :: "string \<Rightarrow> string" where
  "keyfile_value s = unescape (dropWhile (\<lambda>c. c = CHR '' '' \<or> c = CHR 0x09) s)"

lemma unescape_plain: "c \<noteq> CHR 0x5C \<Longrightarrow> unescape (c # s) = c # unescape s"
  by (cases s) simp_all

lemma unescape_escape_from: "unescape (escape_from b v) = v"
  by (induction b v rule: escape_from.induct) (auto simp: unescape_plain)

lemma set_escape_from: "set (escape_from b v) \<inter> {nl, cr, CHR 0x09} = {}"
  by (induction b v rule: escape_from.induct) auto

lemma escape_no_leading_blank: "escape_from True v = [] \<or> hd (escape_from True v) \<noteq> CHR '' ''"
  by (cases v) auto

lemma keyfile_value_escape: "keyfile_value (escapeKeyfileValue v) = v"
proof -
  have "dropWhile (\<lambda>c. c = CHR '' '' \<or> c = CHR 0x09) (escape_from True v) = escape_from True v"
    using escape_no_leading_blank [of v] set_escape_from [of True v]
    by (cases "escape_from True v") auto
  then show ?thesis
    by (simp add: keyfile_value_def escapeKeyfileValue_def unescape_escape_from)
qed

interpretation keyfile: line_codec escapeKeyfileValue keyfile_value
proof unfold_locales
  show "nl \<notin> set (escapeKeyfileValue v)" for v
    using set_escape_from [of True v] by (auto simp: escapeKeyfileValue_def)
qed (rule keyfile_value_escape)

interpretation activation_id: line_codec formatActivationID "\<lambda>s. word_of_nat (nat_of_dec s)"
proof unfold_locales
  show "word_of_nat (nat_of_dec (formatActivationID x)) = x" for x
    by (simp add: formatActivationID_def format_uint_def)
  show "nl \<notin> set (formatActivationID x)" for x
    using dec_of_nat_digits [of "unat x"] by (auto simp: formatActivationID_def format_uint_def is_digit_def)
qed

section \<open>The external answer as a key file\<close>

text \<open>A key file: its groups in order, each with its keys and values in order.\<close>

type_synonym keyfile = "(string \<times> (string \<times> string) list) list"

definition keyfile_line :: "string \<Rightarrow> keyfile \<Rightarrow> keyfile" where
  "keyfile_line line gs =
     (if line = [] then gs
      else if hd line = CHR ''['' then gs @ [(butlast (tl line), [])]
      else
        (case cut_at (CHR ''='') line of
           (k, v, _) \<Rightarrow>
             if gs = [] then gs
             else butlast gs @ [(fst (last gs), snd (last gs) @ [(k, keyfile_value v)])]))"

definition read_keyfile :: "string \<Rightarrow> keyfile" where
  "read_keyfile s = fold keyfile_line (split_char nl s) []"

definition read_from :: "keyfile \<Rightarrow> string \<Rightarrow> keyfile" where
  "read_from gs s = fold keyfile_line (split_char nl s) gs"

definition plain_key :: "string \<Rightarrow> bool" where
  "plain_key k \<longleftrightarrow> k \<noteq> [] \<and> hd k \<noteq> CHR ''['' \<and> CHR ''='' \<notin> set k \<and> nl \<notin> set k"

lemma read_from_blank: "read_from gs (nl # s) = read_from gs s"
  by (simp add: read_from_def keyfile_line_def)

lemma read_from_end: "read_from gs [] = gs"
  by (simp add: read_from_def keyfile_line_def)

lemma read_from_group:
  "nl \<notin> set g \<Longrightarrow> read_from gs (CHR ''['' # g @ CHR '']'' # nl # s) = read_from (gs @ [(g, [])]) s"
  using split_char_line [of "CHR ''['' # g @ '']''" s] by (simp add: read_from_def keyfile_line_def)

lemma read_from_field:
  assumes "plain_key k"
  shows "read_from (gs @ [(g, fs)]) (k @ CHR ''='' # escapeKeyfileValue v @ nl # s) =
    read_from (gs @ [(g, fs @ [(k, v)])]) s"
proof -
  have "split_char nl (k @ CHR ''='' # escapeKeyfileValue v @ nl # s) =
      (k @ CHR ''='' # escapeKeyfileValue v) # split_char nl s"
    using keyfile.enc_line_splits [of "k @ ''=''" v s] assms by (simp add: plain_key_def)
  moreover have "k @ CHR ''='' # escapeKeyfileValue v \<noteq> []" "hd (k @ CHR ''='' # escapeKeyfileValue v) \<noteq> CHR ''[''"
    using assms by (auto simp: plain_key_def)
  ultimately show ?thesis
    using keyfile.enc_field [of k v] assms
    by (simp add: read_from_def keyfile_line_def keyfile_value_escape plain_key_def)
qed

lemma escape_words:
  "escapeKeyfileValue ''2'' = ''2''" "escapeKeyfileValue ''true'' = ''true''" "escapeKeyfileValue ''false'' = ''false''"
  "escapeKeyfileValue [] = []"
  by (simp_all add: escapeKeyfileValue_def)

lemma escape_format_bool: "escapeKeyfileValue (format_bool b) = format_bool b"
  by (simp add: format_bool_def escape_words)

lemma field_keys:
  "plain_key ''Version''" "plain_key ''Description''" "plain_key ''Title''" "plain_key ''Value''" "plain_key ''Label''"
  "plain_key ''IsSecret''" "plain_key ''ShouldAsk''"
  by (simp_all add: plain_key_def)

lemma read_from_field':
  assumes "plain_key k" "escapeKeyfileValue v = w"
  shows "read_from (gs @ [(g, fs)]) (k @ CHR ''='' # w @ nl # s) = read_from (gs @ [(g, fs @ [(k, v)])]) s"
  using read_from_field [OF assms(1), where v = v] assms(2) by simp

text \<open>The entry of a value, and the header, as groups.\<close>

definition entry_group :: "string \<Rightarrow> string \<Rightarrow> string \<Rightarrow> bool \<Rightarrow> bool \<Rightarrow> string \<times> (string \<times> string) list" where
  "entry_group key v label isSecret shouldAsk =
     (key, [(''Value'', v), (''Label'', label), (''IsSecret'', format_bool isSecret),
            (''ShouldAsk'', format_bool shouldAsk)])"

definition header_group :: "string \<Rightarrow> string \<Rightarrow> string \<times> (string \<times> string) list" where
  "header_group title description =
     (uiKeyfileGroup,
      [(''Version'', ''2'')]
      @ (if description \<noteq> [] then [(''Description'', description)] else [])
      @ (if title \<noteq> [] then [(''Title'', title)] else []))"

definition hint_groups :: "hintValues \<Rightarrow> string list \<Rightarrow> keyfile" where
  "hint_groups hints keys =
     map (\<lambda>key. entry_group key (hint_value hints key) internalPromptLabel False False)
       (filter (\<lambda>key. hint_value hints key \<noteq> []) keys)"

lemma read_entry:
  assumes "nl \<notin> set key"
  shows "read_from gs (writeKeyfileEntry key v label sec ask @ s) = read_from (gs @ [entry_group key v label sec ask]) s"
proof -
  note field = read_from_field [OF field_keys(4)] read_from_field [OF field_keys(5)]
    read_from_field' [OF field_keys(6) escape_format_bool] read_from_field' [OF field_keys(7) escape_format_bool]
  show ?thesis
    using read_from_group [OF assms, of gs] field
    by (simp add: writeKeyfileEntry_def entry_group_def field_keys escape_format_bool)
qed

lemma read_header:
  "read_from gs (writeKeyfileUIHeader title description @ s) = read_from (gs @ [header_group title description]) s"
proof -
  note field = read_from_field' [OF field_keys(1) escape_words(1)]
    read_from_field [OF field_keys(2)] read_from_field [OF field_keys(3)]
  have "nl \<notin> set uiKeyfileGroup"
    by (simp add: uiKeyfileGroup_def)
  from read_from_group [OF this, of gs] show ?thesis
    using field
    by (simp add: writeKeyfileUIHeader_def header_group_def field_keys escape_words read_from_blank)
qed

lemma read_hint_entry:
  assumes "nl \<notin> set key"
  shows "read_from gs (writeInternalHintEntry hints key @ s) = read_from (gs @ hint_groups hints [key]) s"
  using read_entry [OF assms] by (simp add: writeInternalHintEntry_def hint_groups_def Let_def)

lemma read_hint_entries:
  "read_from gs (writeInternalHintEntries hints) =
    gs @ hint_groups hints [keyActivationID, keyNetBirdSSOVerificationURI, keyNetBirdSSOVerificationFull,
                            keyNetBirdSSOUserCode]"
proof -
  have "nl \<notin> set keyActivationID" "nl \<notin> set keyNetBirdSSOVerificationURI"
    "nl \<notin> set keyNetBirdSSOVerificationFull" "nl \<notin> set keyNetBirdSSOUserCode"
    by (simp_all add: keyActivationID_def keyNetBirdSSOVerificationURI_def keyNetBirdSSOVerificationFull_def
        keyNetBirdSSOUserCode_def)
  note entry = this [THEN read_hint_entry]
  show ?thesis
    using entry(4) [of _ hints "[]"]
    by (simp add: writeInternalHintEntries_def entry(1-3) read_from_end) (simp add: hint_groups_def)
qed

section \<open>What the process does\<close>

text \<open>The log only grows, by actions of a given kind.\<close>

definition log_only :: "(dialog_action \<Rightarrow> bool) \<Rightarrow> dialog_log \<Rightarrow> dialog_log \<Rightarrow> bool" where
  "log_only ok log log' \<longleftrightarrow> (\<exists>new. log' = log @ new \<and> list_all ok new)"

interpretation dialog_log: run_relation "log_only ok" for ok
proof unfold_locales
  show "log_only ok l l" for l
    by (simp add: log_only_def)
  show "log_only ok l n" if "log_only ok l m" "log_only ok m n" for l m n
    using that by (fastforce simp: log_only_def)
qed

lemma log_only_snoc: "ok a \<Longrightarrow> log_only ok log (log @ [a])"
  by (simp add: log_only_def)

lemma log_only_Nil: "log_only ok [] log \<longleftrightarrow> list_all ok log"
  by (simp add: log_only_def)

lemmas log_only_trans = dialog_log.R_trans

text \<open>A browser is started only on a web address.\<close>

definition web_address :: "dialog_env \<Rightarrow> string \<Rightarrow> bool" where
  "web_address env uri \<longleftrightarrow>
     uri \<noteq> [] \<and> trim_space uri = uri
     \<and> (case url_parse env uri of
          None \<Rightarrow> False
        | Some (scheme, host) \<Rightarrow> host \<noteq> [] \<and> to_lower scheme \<in> {''http'', ''https''})"

fun browser_action :: "dialog_env \<Rightarrow> dialog_action \<Rightarrow> bool" where
  "browser_action env (StartBrowser uri) = web_address env uri"
| "browser_action env (Notify _ _ _ _ _) = True"
| "browser_action env KillBrowser = True"
| "browser_action env _ = False"

definition dialog_action_ok :: "dialog_env \<Rightarrow> dialog_action \<Rightarrow> bool" where
  "dialog_action_ok env a \<longleftrightarrow> (case a of StartBrowser uri \<Rightarrow> web_address env uri | _ \<Rightarrow> True)"

lemma validateSSOBrowserURI_web: "validateSSOBrowserURI env raw = Some uri \<Longrightarrow> web_address env uri"
  by (auto simp: validateSSOBrowserURI_def web_address_def Let_def split: if_splits option.splits)

lemma openSSOBrowser_log: "log_only (browser_action env) log (openSSOBrowser env hints log)"
  by (auto simp: openSSOBrowser_def notifyOpeningSSOBrowser_def sendDesktopNotification_def log_only_def
      dest!: validateSSOBrowserURI_web split: option.splits)

lemma log_only_mono: "log_only ok l m \<Longrightarrow> (\<And>a. ok a \<Longrightarrow> ok' a) \<Longrightarrow> log_only ok' l m"
  by (auto simp: log_only_def list_all_iff)

lemma browser_action_ok: "browser_action env a \<Longrightarrow> dialog_action_ok env a"
  by (cases a) (auto simp: dialog_action_ok_def)

lemma write_out_log: "(\<And>s. ok (Write s)) \<Longrightarrow> moves (log_only ok) (write_out env s)"
  by (auto simp: moves_def write_out_def log_only_def)

lemma writeStandardSecrets_log: "(\<And>s. ok (Write s)) \<Longrightarrow> moves (log_only ok) (writeStandardSecrets env vs)"
proof (induction vs)
  case (Cons kv vs)
  show ?case
    unfolding moves_def
  proof
    fix log
    obtain k v where kv: "kv = (k, v)"
      by fastforce
    obtain r log1 where w: "write_out env (k @ [nl] @ v @ [nl]) log = (r, log1)"
      by (metis prod.exhaust)
    have "log_only ok log log1"
      using movesD [OF write_out_log [where ok = ok, OF Cons.prems] w] .
    moreover have "log_only ok log1 (snd (writeStandardSecrets env vs log1))"
      using Cons by (simp add: moves_def)
    ultimately show "log_only ok log (snd (writeStandardSecrets env (kv # vs) log))"
      using kv w by (cases r) (auto intro: dialog_log.R_refl log_only_trans)
  qed
next
  case Nil
  then show ?case
    using write_out_log [of ok env "[nl, nl]"] by (simp add: moves_def)
qed

lemma write_after_browser:
  "moves (log_only (dialog_action_ok env)) (\<lambda>log. write_out env s (openSSOBrowser env hints log))"
proof -
  have "log_only (dialog_action_ok env) log (openSSOBrowser env hints log)" for log
    using openSSOBrowser_log browser_action_ok by (rule log_only_mono)
  moreover have "moves (log_only (dialog_action_ok env)) (write_out env s)"
    by (rule write_out_log) (simp add: dialog_action_ok_def)
  ultimately show ?thesis
    unfolding moves_def by (blast intro: log_only_trans)
qed

lemma writeResponse_log: "moves (log_only (dialog_action_ok env)) (writeResponse env opts details)"
proof -
  have ok: "dialog_action_ok env (Write s)" for s
    by (simp add: dialog_action_ok_def)
  note intros = dialog_log.R_refl moves_result [OF write_out_log [where ok = "dialog_action_ok env", OF ok]]
    moves_result [OF writeStandardSecrets_log [where ok = "dialog_action_ok env", OF ok]] moves_result [OF write_after_browser]
  show ?thesis
    unfolding moves_def
    by (auto simp: writeResponse_def writeSSOResponse_def writeExternalSSO_def writeStandardSSO_def
        writeExternalSetupKey_def writeStandardSecret_def writeNoSecret_def writeExternalNoSecret_def Let_def
        intro: intros simp del: writeStandardSecrets.simps split: prod.split)
qed

lemma runBrowserTest_log: "moves (log_only (dialog_action_ok env)) (runBrowserTest env opts)"
proof -
  have "log_only (dialog_action_ok env) log (snd (write_out env s (log @ [StartBrowser uri])))"
    if "validateSSOBrowserURI env raw = Some uri" for s uri raw log
    using validateSSOBrowserURI_web [OF that] by (auto simp: write_out_def log_only_def dialog_action_ok_def)
  then show ?thesis
    by (auto simp: moves_def runBrowserTest_def openBrowserAndWait_def Let_def log_only_def dialog_action_ok_def
        dest: validateSSOBrowserURI_web split: option.splits browser_end.splits)
qed

lemma dlg_Run_log: "list_all (dialog_action_ok env) (snd (dlg_Run env args stdin))"
proof -
  have "list_all (dialog_action_ok env) log" if "runBrowserTest env opts [] = (r, log)" for opts r log
    using movesD [OF runBrowserTest_log that] by (simp add: log_only_Nil)
  moreover have "list_all (dialog_action_ok env) log" if "writeResponse env opts d [] = (r, log)" for opts d r log
    using movesD [OF writeResponse_log that] by (simp add: log_only_Nil)
  moreover have "dialog_action_ok env (Complain e)" for e
    by (simp add: dialog_action_ok_def)
  ultimately show ?thesis
    by (auto simp: dlg_Run_def split: sum.split prod.split option.split)
qed

text \<open>
  C39: the dialog opens only web addresses. Whatever the arguments, the connection, the hints and the
  environment, every start of \<open>xdg-open\<close> in a run of the dialog is on a trimmed, nonempty address that parses with a
  host and the scheme http or https.
\<close>

theorem browser_only_on_web_addresses:
  "list_all (\<lambda>a. case a of StartBrowser uri \<Rightarrow> web_address env uri | _ \<Rightarrow> True) (snd (dlg_Run env args stdin))"
  using dlg_Run_log [of env args stdin] by (simp add: dialog_action_ok_def [abs_def])

section \<open>Answers that can be read\<close>

lemma no_line_keys:
  "nl \<notin> set keySetupKey" "nl \<notin> set keyNoSecret" "nl \<notin> set keyNetBirdSSOContinue" "nl \<notin> set keyActivationID"
  by (simp_all add: keySetupKey_def keyNoSecret_def keyNetBirdSSOContinue_def keyActivationID_def)

lemmas read_entries = no_line_keys [THEN read_entry]

lemma read_keyfile_from: "read_keyfile s = read_from [] s"
  by (simp add: read_keyfile_def read_from_def)

lemma read_no_secret:
  "read_keyfile (writeKeyfileUIHeader [] [] @ writeKeyfileEntry keyNoSecret ''true'' [] False False) =
    [header_group [] [], entry_group keyNoSecret ''true'' [] False False]"
  using read_entries(2) [where s = "[]"] by (simp add: read_keyfile_from read_header read_from_end)

lemma read_setup_key:
  "read_keyfile (writeKeyfileUIHeader setupKeyTitle setupKeyPrompt
      @ writeKeyfileEntry keySetupKey v setupKeyLabel True ask @ writeInternalHintEntries hints) =
    [header_group setupKeyTitle setupKeyPrompt, entry_group keySetupKey v setupKeyLabel True ask]
    @ hint_groups hints [keyActivationID, keyNetBirdSSOVerificationURI, keyNetBirdSSOVerificationFull,
                         keyNetBirdSSOUserCode]"
  by (simp add: read_keyfile_from read_header read_entries read_hint_entries)

lemma read_sso:
  "read_keyfile (writeKeyfileUIHeader ssoTitle (formatSSODescription hints)
      @ writeKeyfileEntry keyNetBirdSSOContinue ''true'' ssoContinueLabel False False
      @ writeInternalHintEntry hints keyActivationID) =
    [header_group ssoTitle (formatSSODescription hints),
     entry_group keyNetBirdSSOContinue ''true'' ssoContinueLabel False False]
    @ hint_groups hints [keyActivationID]"
  using read_hint_entry [OF no_line_keys(4), of _ hints "[]"]
  by (simp add: read_keyfile_from read_header read_entries read_from_end)

lemma external_answer:
  assumes "opt_ExternalUIMode opts" "writeResponse env opts details log = (None, log')"
  shows "\<exists>acts doc. log' = log @ acts @ [Write doc] \<and> list_all (browser_action env) acts
    \<and> read_keyfile doc =
       (let hints = parseHints (opt_Hints opts); (needs, key) = setupKeyRequirement env hints details
        in if ssoRequested hints
           then [header_group ssoTitle (formatSSODescription hints),
                 entry_group keyNetBirdSSOContinue ''true'' ssoContinueLabel False False]
                @ hint_groups hints [keyActivationID]
           else if needs
           then [header_group setupKeyTitle setupKeyPrompt,
                 entry_group keySetupKey key setupKeyLabel True (opt_Reprompt opts \<or> trim_space key = [])]
                @ hint_groups hints [keyActivationID, keyNetBirdSSOVerificationURI, keyNetBirdSSOVerificationFull,
                                     keyNetBirdSSOUserCode]
           else [header_group [] [], entry_group keyNoSecret ''true'' [] False False])"
proof -
  define hints where "hints = parseHints (opt_Hints opts)"
  obtain needs key where req: "setupKeyRequirement env hints details = (needs, key)"
    by fastforce
  obtain acts where acts: "openSSOBrowser env hints log = log @ acts" "list_all (browser_action env) acts"
    using openSSOBrowser_log [of env log hints] by (auto simp: log_only_def)
  consider (sso) "ssoRequested hints" | (key) "\<not> ssoRequested hints" "needs" | (none) "\<not> ssoRequested hints" "\<not> needs"
    by blast
  then show ?thesis
  proof cases
    case sso
    let ?doc = "writeKeyfileUIHeader ssoTitle (formatSSODescription hints)
      @ writeKeyfileEntry keyNetBirdSSOContinue ''true'' ssoContinueLabel False False
      @ writeInternalHintEntry hints keyActivationID"
    have "log' = log @ acts @ [Write ?doc]"
      using assms sso acts(1)
      by (auto simp: writeResponse_def hints_def [symmetric] writeSSOResponse_def writeExternalSSO_def
          write_out_def Let_def split: if_splits)
    with acts sso show ?thesis
      by (intro exI [of _ acts] exI [of _ ?doc]) (simp add: read_sso hints_def [symmetric] req)
  next
    case key
    let ?ask = "opt_Reprompt opts \<or> trim_space key = []"
    let ?doc = "writeKeyfileUIHeader setupKeyTitle setupKeyPrompt
      @ writeKeyfileEntry keySetupKey key setupKeyLabel True ?ask @ writeInternalHintEntries hints"
    have "log' = log @ [Write ?doc]"
      using assms key req
      by (auto simp: writeResponse_def hints_def [symmetric] writeExternalSetupKey_def write_out_def Let_def
          split: if_splits)
    with key show ?thesis
      by (intro exI [of _ "[]"] exI [of _ ?doc]) (simp add: read_setup_key hints_def [symmetric] req)
  next
    case none
    let ?doc = "writeKeyfileUIHeader [] [] @ writeKeyfileEntry keyNoSecret ''true'' [] False False"
    have "log' = log @ [Write ?doc]"
      using assms none req
      by (auto simp: writeResponse_def hints_def [symmetric] writeNoSecret_def writeExternalNoSecret_def
          write_out_def Let_def split: if_splits)
    with none show ?thesis
      by (intro exI [of _ "[]"] exI [of _ ?doc]) (simp add: read_no_secret hints_def [symmetric] req)
  qed
qed

text \<open>
  C17: the external answer says what was decided, whatever the texts in it. A successful answer in external
  user-interface mode writes one key file, after at most the actions of opening the browser, and reading it back gives: for an
  SSO login the description, the continue marker and the activation; for a setup key the key
  as it is, asked for exactly on a reprompt or when it is blank, and the hints about the activation; otherwise the marker that
  no secret is needed. No hint, key or description can add a line, a key or a group of its own.
\<close>

theorem external_answer_read:
  assumes "opt_ExternalUIMode opts" "writeResponse env opts details log = (None, log')"
  shows "\<exists>acts doc. log' = log @ acts @ [Write doc] \<and> list_all (browser_action env) acts
    \<and> read_keyfile doc =
       (let hints = parseHints (opt_Hints opts); (needs, key) = setupKeyRequirement env hints details
        in if ssoRequested hints
           then [header_group ssoTitle (formatSSODescription hints),
                 entry_group keyNetBirdSSOContinue ''true'' ssoContinueLabel False False]
                @ hint_groups hints [keyActivationID]
           else if needs
           then [header_group setupKeyTitle setupKeyPrompt,
                 entry_group keySetupKey key setupKeyLabel True (opt_Reprompt opts \<or> trim_space key = [])]
                @ hint_groups hints [keyActivationID, keyNetBirdSSOVerificationURI, keyNetBirdSSOVerificationFull,
                                     keyNetBirdSSOUserCode]
           else [header_group [] [], entry_group keyNoSecret ''true'' [] False False])"
  using assms by (rule external_answer)

text \<open>An environment in which every write and every call succeeds.\<close>

definition plain_env :: dialog_env where
  "plain_env =
     \<lparr>getenv = (\<lambda>_. []), has_bus = (\<lambda>_. False), url_parse = (\<lambda>_. None), parse_duration = (\<lambda>_. None),
      ranging = (\<lambda>_ m. m), accepts = (\<lambda>_ _. True), browser_starts = (\<lambda>_. True),
      browser_ends = (\<lambda>_. BrowserExited), bus_connects = False\<rparr>"

definition plain_options :: dialog_options where
  "plain_options =
     default_dialog_options\<lparr>opt_UUID := ''1'', opt_Name := ''vpn'', opt_Service := ServiceName\<rparr>"

lemma external_answer_read_witness:
  "\<exists>doc. writeResponse plain_env (plain_options\<lparr>opt_ExternalUIMode := True\<rparr>)
      \<lparr>details_data = [(''auth'', ''key'')], details_secrets = [(''setup-key'', ''k'')]\<rparr> [] = (None, [Write doc])
    \<and> read_keyfile doc =
        [header_group setupKeyTitle setupKeyPrompt, entry_group keySetupKey ''k'' setupKeyLabel True False]"
proof -
  let ?o = "plain_options\<lparr>opt_ExternalUIMode := True\<rparr>"
  let ?d = "\<lparr>details_data = [(''auth'', ''key'')], details_secrets = [(''setup-key'', ''k'')]\<rparr>"
  have "\<exists>log'. writeResponse plain_env ?o ?d [] = (None, log')"
    by (rule exI) code_simp
  then obtain log' where run: "writeResponse plain_env ?o ?d [] = (None, log')" ..
  have facts: "setupKeyRequirement plain_env (parseHints (opt_Hints ?o)) ?d = (True, ''k'')"
    "\<not> ssoRequested (parseHints (opt_Hints ?o))" "trim_space ''k'' = ''k''"
    "hint_groups (parseHints (opt_Hints ?o)) [keyActivationID, keyNetBirdSSOVerificationURI,
       keyNetBirdSSOVerificationFull, keyNetBirdSSOUserCode] = []"
    by code_simp+
  have "opt_ExternalUIMode ?o" "\<not> opt_Reprompt ?o"
    by (simp_all add: plain_options_def default_dialog_options_def)
  with external_answer_read [OF _ run] run facts show ?thesis
    by (auto simp: writeResponse_def writeExternalSetupKey_def write_out_def Let_def split: if_splits)
qed

text \<open>Reading a plain answer: pairs of lines up to a blank key.\<close>

fun read_pairs :: "string list \<Rightarrow> (string \<times> string) list" where
  "read_pairs (k # v # rest) = (if k = [] then [] else (k, v) # read_pairs rest)"
| "read_pairs _ = []"

fun stdout_text :: "dialog_log \<Rightarrow> string" where
  "stdout_text [] = []"
| "stdout_text (Write s # log) = s @ stdout_text log"
| "stdout_text (_ # log) = stdout_text log"

definition read_answer :: "dialog_log \<Rightarrow> (string \<times> string) list" where
  "read_answer log = read_pairs (split_char nl (stdout_text log))"

lemma stdout_text_append [simp]: "stdout_text (a @ b) = stdout_text a @ stdout_text b"
  by (induction a rule: stdout_text.induct) simp_all

lemma breaks_line_nl: "\<not> breaks_line s \<Longrightarrow> nl \<notin> set s"
  by (auto simp: breaks_line_def list_ex_iff)

lemma writeStandardSecrets_output:
  assumes "writeStandardSecrets env vs log = (None, log')"
  shows "stdout_text log' = stdout_text log @ concat (map (\<lambda>(k, v). k @ [nl] @ v @ [nl]) vs) @ [nl, nl]
    \<and> (\<forall>(k, v) \<in> set vs. \<not> breaks_line k \<and> \<not> breaks_line v)"
  using assms
proof (induction vs arbitrary: log)
  case (Cons kv vs)
  obtain k v where kv: "kv = (k, v)"
    by fastforce
  with Cons.prems obtain log1 where "write_out env (k @ [nl] @ v @ [nl]) log = (None, log1)"
    "writeStandardSecrets env vs log1 = (None, log')" "\<not> breaks_line k" "\<not> breaks_line v"
    by (auto split: if_splits prod.splits option.splits)
  with Cons.IH [of log1] kv show ?case
    by (auto simp: write_out_def split: if_splits)
qed (auto simp: write_out_def split: if_splits)

lemma read_pairs_lines:
  assumes "\<forall>(k, v) \<in> set vs. k \<noteq> [] \<and> nl \<notin> set k \<and> nl \<notin> set v"
  shows "read_pairs (split_char nl (concat (map (\<lambda>(k, v). k @ [nl] @ v @ [nl]) vs) @ [nl, nl])) = vs"
  using assms by (induction vs) (auto simp: split_char_line)

text \<open>
  the plain answer cannot be broken by its values. When secrets are written in the plain format, reading
  the output in pairs of lines up to the blank one gives exactly the written pairs; secrets of which a key or value
  contains a newline, a carriage return or a NUL byte are refused, and so is the run.
\<close>

theorem standard_answer_read:
  assumes "\<forall>(k, v) \<in> set vs. k \<noteq> []"
  shows "if \<exists>(k, v) \<in> set vs. breaks_line k \<or> breaks_line v
    then fst (writeStandardSecrets env vs []) \<noteq> None
    else fst (writeStandardSecrets env vs []) = None
      \<longrightarrow> read_answer (snd (writeStandardSecrets env vs [])) = vs"
proof (cases "writeStandardSecrets env vs []")
  case (Pair r log)
  show ?thesis
  proof (cases r)
    case None
    with Pair writeStandardSecrets_output [of env vs "[]" log]
    have out: "stdout_text log = concat (map (\<lambda>(k, v). k @ [nl] @ v @ [nl]) vs) @ [nl, nl]"
      and plain: "\<forall>(k, v) \<in> set vs. \<not> breaks_line k \<and> \<not> breaks_line v"
      by auto
    have "\<forall>(k, v) \<in> set vs. k \<noteq> [] \<and> nl \<notin> set k \<and> nl \<notin> set v"
      using plain assms breaks_line_nl by blast
    with read_pairs_lines [of vs] out plain Pair None show ?thesis
      by (auto simp: read_answer_def)
  qed (use Pair in auto)
qed

lemma standard_answer_read_witness:
  "read_answer (snd (writeStandardSecrets plain_env [(''setup-key'', ''a=b'')] [])) = [(''setup-key'', ''a=b'')]"
  using standard_answer_read [of "[(''setup-key'', ''a=b'')]" plain_env]
  by (simp add: breaks_line_def write_out_def plain_env_def)

section \<open>Without interaction\<close>

lemma hint_groups_ask: "(g, fs) \<in> set (hint_groups hints keys) \<Longrightarrow> (''ShouldAsk'', ''true'') \<notin> set fs"
  by (auto simp: hint_groups_def entry_group_def format_bool_def)

lemma header_group_ask: "(''ShouldAsk'', ''true'') \<notin> set (snd (header_group title description))"
  by (simp add: header_group_def)

lemma entry_group_ask: "(''ShouldAsk'', ''true'') \<in> set (snd (entry_group key v label sec ask)) \<longleftrightarrow> ask"
  by (auto simp: entry_group_def format_bool_def)

text \<open>
  C38: without interaction nobody is asked. When NetworkManager does not allow interaction the dialog opens no
  browser and writes nothing for an SSO login or a missing setup key but fails; and in an external answer no field
  has to be asked for.
\<close>

theorem noninteractive_dialog_never_asks:
  assumes "\<not> opt_AllowInteraction opts" "writeResponse env opts details log = (r, log')"
  shows "log_only (\<lambda>a. \<exists>s. a = Write s) log log'
    \<and> (ssoRequested (parseHints (opt_Hints opts)) \<longrightarrow> r = Some SSONeedsInteraction \<and> log' = log)
    \<and> (opt_ExternalUIMode opts \<and> r = None \<longrightarrow>
        (\<exists>doc. log' = log @ [Write doc]
           \<and> (\<forall>(g, fs) \<in> set (read_keyfile doc). (''ShouldAsk'', ''true'') \<notin> set fs)))"
proof (intro conjI impI)
  let ?hints = "parseHints (opt_Hints opts)"
  obtain needs key where req: "setupKeyRequirement env ?hints details = (needs, key)"
    by fastforce
  have writes: "moves (log_only (\<lambda>a. \<exists>s. a = Write s)) (write_out env s)"
    "moves (log_only (\<lambda>a. \<exists>s. a = Write s)) (writeStandardSecrets env vs)" for s vs
    by (rule write_out_log writeStandardSecrets_log, simp)+
  have "log_only (\<lambda>a. \<exists>s. a = Write s) log (snd (writeResponse env opts details log))"
    using assms(1) req
    by (auto simp: writeResponse_def writeSSOResponse_def writeExternalSetupKey_def writeStandardSecret_def
        writeNoSecret_def writeExternalNoSecret_def Let_def dialog_log.R_refl
        intro: writes [THEN moves_result] simp del: writeStandardSecrets.simps)
  with assms(2) show only: "log_only (\<lambda>a. \<exists>s. a = Write s) log log'"
    by simp
  show "r = Some SSONeedsInteraction" "log' = log" if "ssoRequested ?hints"
    using assms that by (auto simp: writeResponse_def writeSSOResponse_def Let_def)
  show "\<exists>doc. log' = log @ [Write doc] \<and> (\<forall>(g, fs) \<in> set (read_keyfile doc). (''ShouldAsk'', ''true'') \<notin> set fs)"
    if ext: "opt_ExternalUIMode opts \<and> r = None"
  proof -
    have no_sso: "\<not> ssoRequested ?hints" and no_ask: "needs \<Longrightarrow> \<not> (opt_Reprompt opts \<or> trim_space key = [])"
      using assms ext req by (auto simp: writeResponse_def writeSSOResponse_def Let_def split: if_splits)
    from external_answer [of opts env details log log'] ext assms(2)
    obtain acts doc where doc: "log' = log @ acts @ [Write doc]" "list_all (browser_action env) acts"
      and groups: "read_keyfile doc =
        (if needs
         then [header_group setupKeyTitle setupKeyPrompt, entry_group keySetupKey key setupKeyLabel True False]
              @ hint_groups ?hints [keyActivationID, keyNetBirdSSOVerificationURI, keyNetBirdSSOVerificationFull,
                                    keyNetBirdSSOUserCode]
         else [header_group [] [], entry_group keyNoSecret ''true'' [] False False])"
      using no_sso no_ask req by (cases needs) (auto simp: Let_def)
    have "acts = []"
    proof (cases acts)
      case (Cons a as)
      with only doc show ?thesis
        by (cases a) (auto simp: log_only_def)
    qed simp
    moreover have "(''ShouldAsk'', ''true'') \<notin> set (snd g)" if g: "g \<in> set (read_keyfile doc)" for g
    proof -
      consider t d where "g = header_group t d" | k v l sec where "g = entry_group k v l sec False"
        | keys where "g \<in> set (hint_groups ?hints keys)"
        using g groups by (cases needs) auto
      then show ?thesis
      proof cases
        case (3 keys)
        then show ?thesis
          using hint_groups_ask [of "fst g" "snd g"] by simp
      qed (simp_all only: header_group_ask entry_group_ask not_False_eq_True)
    qed
    ultimately show ?thesis
      using doc by auto
  qed
qed

lemma noninteractive_dialog_never_asks_witness:
  "fst (writeResponse plain_env (plain_options\<lparr>opt_Hints := [''x-netbird-sso'']\<rparr>)
     \<lparr>details_data = [], details_secrets = []\<rparr> []) = Some SSONeedsInteraction"
proof -
  let ?o = "plain_options\<lparr>opt_Hints := [''x-netbird-sso'']\<rparr>"
  have "\<not> opt_AllowInteraction ?o" "ssoRequested (parseHints (opt_Hints ?o))"
    by code_simp+
  with noninteractive_dialog_never_asks [of ?o plain_env "\<lparr>details_data = [], details_secrets = []\<rparr>" "[]"]
  show ?thesis
    by (metis prod.collapse)
qed

end
