(* ===== verification/Monitor.thy ===== *)
theory Monitor
  imports Handlers
begin

text \<open>
  The monitor of an active session (\<open>monitorStatus\<close> and what it calls in
  \<open>internal/nmplugin/service.go\<close>, with its helpers). The loop is indexed by the number of intervals after
  which the \<open>select\<close> takes the end of the monitor's context. The lemmas compare it, for a daemon that
  answers from a script, with a function on the list of answers, and show what a late poll does to
  a service that was disconnected in the meantime.
\<close>

section \<open>Definitions\<close>

definition statusPollFailureThreshold :: nat where
  "statusPollFailureThreshold = 3"

definition contextCancelled :: "nat \<Rightarrow> ('h, 'd) service \<Rightarrow> bool" where
  "contextCancelled ctx s \<longleftrightarrow> ctx \<in> cancelled s"

definition nextConsecutiveStatusFailures :: "nat \<Rightarrow> bool \<Rightarrow> nat" where
  "nextConsecutiveStatusFailures current failed = (if failed then current + 1 else 0)"

definition clearActiveSession :: "('h, 'd) runtime \<Rightarrow> 64 word \<Rightarrow> bool \<Rightarrow> ('h, 'd) go \<Rightarrow> ('h, 'd) go" where
  "clearActiveSession rt sid closeClient g =
     (case locked rt (clearActiveSessionLocked sid) g of
        (Some h, g) \<Rightarrow> if closeClient then snd (c_Close (api rt h) g) else g
      | (None, g) \<Rightarrow> g)"

text \<open>The result of a poll: whether to keep going, and whether the poll failed.\<close>

definition pollDaemonStatus ::
  "('h, 'd) runtime \<Rightarrow> nat \<Rightarrow> 'h \<Rightarrow> 64 word \<Rightarrow> ('h, 'd) go \<Rightarrow> (bool \<times> bool) \<times> ('h, 'd) go" where
  "pollDaemonStatus rt ctx h sid g =
     (case c_Status (api rt h) full_peer_status g of
        (Inl err, g) \<Rightarrow> if contextCancelled ctx (snd g) then ((False, False), g) else ((True, True), g)
      | (Inr resp, g) \<Rightarrow>
          (case mapped_State (Map_status resp) of
             Connected \<Rightarrow> ((True, False), setState rt ServiceStateStarted g)
           | Connecting \<Rightarrow> ((True, False), setState rt ServiceStateStarting g)
           | Disconnected \<Rightarrow>
               ((False, False), clearActiveSession rt sid True (setState rt ServiceStateStopped g))
           | Failed \<Rightarrow>
               ((False, False),
                clearActiveSession rt sid True
                  (setState rt ServiceStateStopped (snd (EmitFailure rt PluginFailureConnectFailed g))))
           | Unknown \<Rightarrow> ((True, False), g)))"

definition failActiveSessionAfterStatusThreshold ::
  "('h, 'd) runtime \<Rightarrow> 64 word \<Rightarrow> ('h, 'd) go \<Rightarrow> bool \<times> ('h, 'd) go" where
  "failActiveSessionAfterStatusThreshold rt sid g =
     (case locked rt (failActiveSessionLocked sid) g of
        (None, g) \<Rightarrow> (False, g)
      | (Some (monitorCancel0, client, changed), g1) \<Rightarrow>
          (let g2 = (case monitorCancel0 of
                       Some c \<Rightarrow> (fst g1, cancel_ctx c (snd g1)) | None \<Rightarrow> g1);
               g3 = snd (EmitFailure rt PluginFailureConnectFailed g2);
               g4 = (if changed then emitStateChanged rt ServiceStateStopped g3 else g3);
               g5 = (case client of Some h \<Rightarrow> snd (c_Close (api rt h) g4) | None \<Rightarrow> g4)
           in (True, g5)))"

text \<open>\<open>hook\<close> is the option \<open>BeforeThresholdFailure\<close>; a hook that is nil does nothing.\<close>

definition stopAfterStatusPollFailureThreshold ::
  "('h, 'd) runtime \<Rightarrow> (('h, 'd) service \<Rightarrow> ('h, 'd) service) \<Rightarrow> nat \<Rightarrow> 64 word \<Rightarrow> nat \<Rightarrow> ('h, 'd) go
     \<Rightarrow> bool \<times> ('h, 'd) go" where
  "stopAfterStatusPollFailureThreshold rt hook ctx sid consecutiveFailures g =
     (if consecutiveFailures < statusPollFailureThreshold then (False, g)
      else if contextCancelled ctx (snd g) then (True, g)
      else (True, snd (failActiveSessionAfterStatusThreshold rt sid (fst g, hook (snd g)))))"

fun monitor_loop ::
  "('h, 'd) runtime \<Rightarrow> (('h, 'd) service \<Rightarrow> ('h, 'd) service) \<Rightarrow> nat \<Rightarrow> 'h \<Rightarrow> 64 word \<Rightarrow> nat \<Rightarrow> nat
     \<Rightarrow> ('h, 'd) go \<Rightarrow> ('h, 'd) go" where
  "monitor_loop rt hook ctx h sid intervals failures g =
     (if contextCancelled ctx (snd g) then g
      else
        (case pollDaemonStatus rt ctx h sid g of
           ((keepGoing, failed), g) \<Rightarrow>
             if \<not> keepGoing then g
             else
               (let failures' = nextConsecutiveStatusFailures failures failed
                in case (if failed
                         then stopAfterStatusPollFailureThreshold rt hook ctx sid failures' g
                         else (False, g)) of
                     (True, g) \<Rightarrow> g
                   | (False, g) \<Rightarrow>
                       (case intervals of
                          0 \<Rightarrow> blocked rt g
                        | Suc n \<Rightarrow> monitor_loop rt hook ctx h sid n failures' (blocked rt g)))))"

declare monitor_loop.simps [simp del]

definition monitorStatus ::
  "('h, 'd) runtime \<Rightarrow> (('h, 'd) service \<Rightarrow> ('h, 'd) service) \<Rightarrow> nat \<Rightarrow> 'h \<Rightarrow> 64 word \<Rightarrow> nat
     \<Rightarrow> ('h, 'd) go \<Rightarrow> ('h, 'd) go" where
  "monitorStatus rt hook ctx h sid intervals g = monitor_loop rt hook ctx h sid intervals 0 g"

section \<open>What the answers of the daemon decide\<close>

datatype session_end = EndDisconnected | EndFailed | EndThreshold

fun session_verdict :: "nat \<Rightarrow> (gerr + status_response option) list \<Rightarrow> session_end option" where
  "session_verdict f [] = None"
| "session_verdict f (Inl e # rs) =
     (if f + 1 \<ge> statusPollFailureThreshold then Some EndThreshold else session_verdict (f + 1) rs)"
| "session_verdict f (Inr resp # rs) =
     (case mapped_State (Map_status resp) of
        Disconnected \<Rightarrow> Some EndDisconnected
      | Failed \<Rightarrow> Some EndFailed
      | _ \<Rightarrow> session_verdict 0 rs)"

text \<open>
  No answer says disconnected or failed, and no three errors follow one another, the \<open>f\<close> errors of before
  counted in.
\<close>

definition goes_on :: "nat \<Rightarrow> (gerr + status_response option) list \<Rightarrow> bool" where
  "goes_on f rs \<longleftrightarrow>
     (\<forall>resp. Inr resp \<in> set rs \<longrightarrow> mapped_State (Map_status resp) \<notin> {Disconnected, Failed}) \<and>
     \<not> sublist [True, True, True] (replicate f True @ map isl rs)"

lemma no_streak_over_answer:
  assumes "f < 3"
  shows "sublist [True, True, True] (replicate f True @ False # m) \<longleftrightarrow> sublist [True, True, True] m"
proof -
  have "f = 0 \<or> f = Suc 0 \<or> f = Suc (Suc 0)"
    using assms by auto
  then show ?thesis
    by (auto simp: sublist_Cons_right)
qed

lemma session_verdict_None: "f < 3 \<Longrightarrow> session_verdict f rs = None \<longleftrightarrow> goes_on f rs"
proof (induction f rs rule: session_verdict.induct)
  case (1 f)
  have "\<not> sublist [True, True, True] (replicate f True)"
  proof
    assume "sublist [True, True, True] (replicate f True)"
    then have "length [True, True, True] \<le> length (replicate f True)"
      by (rule sublist_length_le)
    then show False
      using 1 by simp
  qed
  then show ?case
    by (simp add: goes_on_def)
next
  case (2 f e rs)
  have shift: "replicate f True @ True # m = replicate (Suc f) True @ m" for m
    by (simp add: replicate_app_Cons_same)
  show ?case
  proof (cases "f = 2")
    case True
    then show ?thesis
      by (simp add: goes_on_def statusPollFailureThreshold_def numeral_2_eq_2 sublist_Cons_right)
  next
    case False
    then show ?thesis
      using 2 by (simp add: goes_on_def statusPollFailureThreshold_def shift)
  qed
next
  case (3 f resp rs)
  then show ?case
    by (auto simp: goes_on_def no_streak_over_answer split: nb_state.split)
qed

subsection \<open>A daemon that answers from a script\<close>

text \<open>Status answers come from the list \<open>outside\<close>, in order; nothing else happens.\<close>

definition scripted :: "('h, (gerr + status_response option) list) runtime \<Rightarrow> 'h \<Rightarrow> bool" where
  "scripted rt h \<longleftrightarrow>
     (\<forall>s. rt_meanwhile rt s = s) \<and> (\<forall>s. rt_block rt s = s) \<and>
     (\<forall>s. c_Status (rt_api rt h) full_peer_status s =
        (case outside s of [] \<Rightarrow> (Inl (ErrText ''no answer''), s) | r # rs \<Rightarrow> (r, s\<lparr>outside := rs\<rparr>))) \<and>
     (\<forall>s. snd (c_Close (rt_api rt h) s) = s)"

definition active_session :: "nat \<Rightarrow> 'h \<Rightarrow> 64 word \<Rightarrow> ('h, 'd) service \<Rightarrow> bool" where
  "active_session ctx h sid s \<longleftrightarrow>
     svc_client s = Some h \<and> sessionID s = sid \<and> monitorCancel s = Some ctx \<and> ctx \<notin> cancelled s"

definition ended_session :: "nat \<Rightarrow> ('h, 'd) service \<Rightarrow> bool" where
  "ended_session ctx s \<longleftrightarrow>
     svc_client s = None \<and> monitorCancel s = None \<and> ctx \<in> cancelled s \<and> svc_state s = ServiceStateStopped"

lemma scripted_simps:
  assumes "scripted rt h"
  shows "rt_meanwhile rt s = s" "blocked rt g = g"
    "c_Status (api rt h) full_peer_status (log, s) =
       (case outside s of
          [] \<Rightarrow> (Inl (ErrText ''no answer''), (log @ [Status full_peer_status], s))
        | r # rs \<Rightarrow> (r, (log @ [Status full_peer_status], s\<lparr>outside := rs\<rparr>)))"
    "snd (c_Close (api rt h) (log, s)) = (log @ [Close], s)"
  using assms
  by (auto simp: scripted_def api_def recording_def logged_def case_prod_beta split: list.split)
    (cases g, simp)

lemma setState_scripted:
  assumes "scripted rt h"
  shows "\<exists>cs. setState rt st (log, s) = (log @ cs, s\<lparr>svc_state := st\<rparr>) \<and> filter key_action cs = []"
proof -
  have "snd (setStateValue st s) = s\<lparr>svc_state := st\<rparr>"
    by (simp add: setStateValue_def)
  then show ?thesis
    using setState_log [of rt st log s] quiet_sets(1) scripted_simps(1) [OF assms]
    by (auto simp: filter_empty_conv)
qed

lemma emit_key:
  "filter key_action (fst (snd (EmitFailure rt f (log, s)))) = filter key_action log @ [EmitSignal (Failure (failure_code f))]"
  "snd (snd (EmitFailure rt f (log, s))) = s"
  by (simp_all add: EmitFailure_def)

lemma clear_scripted:
  assumes "scripted rt h" "active_session ctx h sid s"
  shows "clearActiveSession rt sid True (log, s) =
    (log @ [Close], s\<lparr>cancelled := insert ctx (cancelled s), monitorCancel := None, svc_client := None,
                      activeProfile := no_profile_ref\<rparr>)"
  using assms(2) scripted_simps(4) [OF assms(1)]
  by (simp add: clearActiveSession_def clearActiveSessionLocked_def active_session_def cancel_if_def
      cancel_ctx_def scripted_simps(1) [OF assms(1)] Let_def)

lemma threshold_scripted:
  assumes "scripted rt h" "active_session ctx h sid s"
  shows "case failActiveSessionAfterStatusThreshold rt sid (log, s) of (b, log', s') \<Rightarrow>
    ended_session ctx s' \<and> filter key_action log' = filter key_action log @ [EmitSignal (Failure 1), Close]"
  using assms(2) scripted_simps(4) [OF assms(1)]
  by (auto simp: failActiveSessionAfterStatusThreshold_def failActiveSessionLocked_def active_session_def
      cancel_ctx_def scripted_simps(1) [OF assms(1)] setStateValue_def ended_session_def EmitFailure_def Let_def)

definition session_outcome ::
  "nat \<Rightarrow> 'h \<Rightarrow> 64 word \<Rightarrow> action list \<Rightarrow> session_end option \<Rightarrow> ('h, 'd) go \<Rightarrow> bool" where
  "session_outcome ctx h sid log verdict g \<longleftrightarrow>
     (case verdict of
        None \<Rightarrow> active_session ctx h sid (snd g) \<and> key_trace g = filter key_action log
      | Some e \<Rightarrow> ended_session ctx (snd g) \<and>
          key_trace g = filter key_action log @
            (if e = EndDisconnected then [Close] else [EmitSignal (Failure 1), Close]))"

lemma session_outcome_log [simp]:
  "filter key_action cs = [] \<Longrightarrow> session_outcome ctx h sid (log @ cs) v g = session_outcome ctx h sid log v g"
  by (simp add: session_outcome_def split: option.split)

lemma poll_scripted:
  assumes rt: "scripted rt h" and s: "active_session ctx h sid s" and out: "outside s = Inr resp # rs"
  shows "case session_verdict f [Inr resp] of
      None \<Rightarrow> \<exists>cs s'. pollDaemonStatus rt ctx h sid (log, s) = ((True, False), (log @ cs, s')) \<and>
        filter key_action cs = [] \<and> active_session ctx h sid s' \<and> outside s' = rs
    | Some e \<Rightarrow> \<exists>g. pollDaemonStatus rt ctx h sid (log, s) = ((False, False), g) \<and>
        session_outcome ctx h sid log (Some e) g"
proof -
  let ?log = "log @ [Status full_peer_status]" and ?s = "s\<lparr>outside := rs\<rparr>"
  have call: "c_Status (api rt h) full_peer_status (log, s) = (Inr resp, (?log, ?s))"
    by (simp add: scripted_simps(3) [OF rt] out)
  have act: "active_session ctx h sid (?s\<lparr>svc_state := st\<rparr>)" for st
    using s by (simp add: active_session_def)
  show ?thesis
  proof (cases "mapped_State (Map_status resp)")
    case Unknown
    then show ?thesis
      using s by (simp add: pollDaemonStatus_def call active_session_def)
  next
    case Disconnected
    obtain cs where cs: "setState rt ServiceStateStopped (?log, ?s) = (?log @ cs, ?s\<lparr>svc_state := ServiceStateStopped\<rparr>)"
      "filter key_action cs = []"
      using setState_scripted [OF rt] by blast
    show ?thesis
      using clear_scripted [OF rt act [of ServiceStateStopped], of "?log @ cs"] cs(2)
      by (simp add: pollDaemonStatus_def call Disconnected cs(1) session_outcome_def ended_session_def)
  next
    case Connecting
    then show ?thesis
      using setState_scripted [OF rt, of ServiceStateStarting ?log ?s] act [of ServiceStateStarting]
      by (auto simp: pollDaemonStatus_def call)
  next
    case Connected
    then show ?thesis
      using setState_scripted [OF rt, of ServiceStateStarted ?log ?s] act [of ServiceStateStarted]
      by (auto simp: pollDaemonStatus_def call)
  next
    case Failed
    let ?log' = "?log @ [EmitSignal (Failure 1)]"
    have emit: "snd (EmitFailure rt PluginFailureConnectFailed (?log, ?s)) = (?log', ?s)"
      by (simp add: EmitFailure_def)
    obtain cs where cs: "setState rt ServiceStateStopped (?log', ?s) = (?log' @ cs, ?s\<lparr>svc_state := ServiceStateStopped\<rparr>)"
      "filter key_action cs = []"
      using setState_scripted [OF rt] by blast
    show ?thesis
      using clear_scripted [OF rt act [of ServiceStateStopped], of "?log' @ cs"] cs(2)
      by (simp add: pollDaemonStatus_def call Failed emit cs(1) [simplified] session_outcome_def ended_session_def)
  qed
qed

lemma poll_error_scripted:
  assumes "scripted rt h" "active_session ctx h sid s" "outside s = Inl e # rs"
  shows "pollDaemonStatus rt ctx h sid (log, s) = ((True, True), (log @ [Status full_peer_status], s\<lparr>outside := rs\<rparr>))"
  using assms(2,3) by (simp add: pollDaemonStatus_def scripted_simps(3) [OF assms(1)] contextCancelled_def active_session_def)

lemma verdict_append: "session_verdict f [r] = Some e \<Longrightarrow> session_verdict f (r # rs) = Some e"
  by (cases r) (auto split: if_splits nb_state.splits)

lemma monitor_outcome:
  assumes rt: "scripted rt h"
  shows "active_session ctx h sid s \<Longrightarrow> outside s = rs \<Longrightarrow> length rs = Suc n \<Longrightarrow>
     session_outcome ctx h sid log (session_verdict f rs) (monitor_loop rt (\<lambda>s. s) ctx h sid n f (log, s))"
proof (induction n arbitrary: rs s f log)
  case (0 rs s f log)
  then obtain r where r: "rs = [r]"
    by (cases rs) auto
  have live: "\<not> contextCancelled ctx s"
    using 0 by (simp add: contextCancelled_def active_session_def)
  show ?case
  proof (cases r)
    case (Inl e)
    then show ?thesis
      using 0 r live threshold_scripted [OF rt, where ctx = ctx and sid = sid and s = "s\<lparr>outside := []\<rparr>" and log = "log @ [Status full_peer_status]"]
      by (subst monitor_loop.simps)
        (auto simp: poll_error_scripted [OF rt, where rs = "[]"] nextConsecutiveStatusFailures_def Let_def
          stopAfterStatusPollFailureThreshold_def contextCancelled_def session_outcome_def active_session_def
          scripted_simps(2) [OF rt] split: prod.splits)
  next
    case (Inr resp)
    then show ?thesis
      using 0 r live poll_scripted [OF rt 0(1), where resp = resp and rs = "[]" and f = f and log = log]
      by (subst monitor_loop.simps)
        (auto simp: nextConsecutiveStatusFailures_def Let_def session_outcome_def scripted_simps(2) [OF rt]
          split: option.splits)
  qed
next
  case (Suc n rs s f log)
  then obtain r rs' where r: "rs = r # rs'" "length rs' = Suc n"
    by (cases rs) auto
  have live: "\<not> contextCancelled ctx s"
    using Suc.prems by (simp add: contextCancelled_def active_session_def)
  show ?case
  proof (cases r)
    case (Inl e)
    let ?s = "s\<lparr>outside := rs'\<rparr>" and ?log = "log @ [Status full_peer_status]"
    have "active_session ctx h sid ?s"
      using Suc.prems by (simp add: active_session_def)
    note rest = Suc.IH [OF this _ r(2), where f = "f + 1" and log = ?log] threshold_scripted [OF rt this, where log = ?log]
    show ?thesis
    proof (cases "f + 1 < statusPollFailureThreshold")
      case True
      then have "monitor_loop rt (\<lambda>s. s) ctx h sid (Suc n) f (log, s) =
          monitor_loop rt (\<lambda>s. s) ctx h sid n (f + 1) (?log, ?s)"
        using live Suc.prems r Inl
        by (subst monitor_loop.simps)
          (simp add: poll_error_scripted [OF rt, where rs = rs'] nextConsecutiveStatusFailures_def
            stopAfterStatusPollFailureThreshold_def scripted_simps(2) [OF rt])
      then show ?thesis
        using rest(1) True r Inl by simp
    next
      case False
      then have "monitor_loop rt (\<lambda>s. s) ctx h sid (Suc n) f (log, s) =
          snd (failActiveSessionAfterStatusThreshold rt sid (?log, ?s))"
        using live Suc.prems r Inl
        by (subst monitor_loop.simps)
          (simp add: poll_error_scripted [OF rt, where rs = rs'] nextConsecutiveStatusFailures_def
            stopAfterStatusPollFailureThreshold_def contextCancelled_def)
      then show ?thesis
        using rest(2) False r Inl by (auto simp: session_outcome_def split: prod.splits)
    qed
  next
    case (Inr resp)
    have poll: "case session_verdict f [Inr resp] of
      None \<Rightarrow> \<exists>cs s'. pollDaemonStatus rt ctx h sid (log, s) = ((True, False), (log @ cs, s')) \<and>
        filter key_action cs = [] \<and> active_session ctx h sid s' \<and> outside s' = rs'
    | Some e \<Rightarrow> \<exists>g. pollDaemonStatus rt ctx h sid (log, s) = ((False, False), g) \<and>
        session_outcome ctx h sid log (Some e) g"
      by (rule poll_scripted [OF rt Suc.prems(1)]) (simp add: Suc.prems r Inr)
    show ?thesis
    proof (cases "session_verdict f [Inr resp]")
      case None
      with poll obtain cs s' where p: "pollDaemonStatus rt ctx h sid (log, s) = ((True, False), (log @ cs, s'))"
        "filter key_action cs = []" "active_session ctx h sid s'" "outside s' = rs'"
        by auto
      have "session_outcome ctx h sid (log @ cs) (session_verdict 0 rs')
          (monitor_loop rt (\<lambda>s. s) ctx h sid n 0 (log @ cs, s'))"
        by (rule Suc.IH [OF p(3,4) r(2)])
      moreover have "monitor_loop rt (\<lambda>s. s) ctx h sid (Suc n) f (log, s) =
          monitor_loop rt (\<lambda>s. s) ctx h sid n 0 (log @ cs, s')"
        using live p(1) by (subst monitor_loop.simps)
          (simp add: nextConsecutiveStatusFailures_def scripted_simps(2) [OF rt])
      moreover have "session_verdict f rs = session_verdict 0 rs'"
        using None r Inr by (auto split: nb_state.splits)
      ultimately show ?thesis
        using p(2) by simp
    next
      case (Some e)
      with poll obtain g where p: "pollDaemonStatus rt ctx h sid (log, s) = ((False, False), g)"
        "session_outcome ctx h sid log (Some e) g"
        by auto
      then show ?thesis
        using verdict_append [OF Some] live r Inr by (subst monitor_loop.simps) simp
    qed
  qed
qed

section \<open>Properties\<close>

text \<open>
  C13: three errors in a row end a session, fewer never do. For a daemon that answers from a script, the monitor
  of an active session leaves the session active, without a word, exactly when no answer says disconnected or
  failed and no three errors follow one another. Otherwise the session is over when the monitor returns: the
  client is closed, the state is STOPPED, the monitor's context is cancelled, and a failure is reported
  unless the daemon merely disconnected.
\<close>

theorem monitor_ends_session_iff:
  assumes "scripted rt h" "active_session ctx h sid s" "length (outside s) = Suc n"
  shows "case monitorStatus rt (\<lambda>s. s) ctx h sid n ([], s) of (log, s') \<Rightarrow>
    if goes_on 0 (outside s)
    then active_session ctx h sid s' \<and> filter key_action log = []
    else ended_session ctx s' \<and>
      filter key_action log =
        (if session_verdict 0 (outside s) = Some EndDisconnected then [Close] else [EmitSignal (Failure 1), Close])"
proof -
  have "session_outcome ctx h sid [] (session_verdict 0 (outside s)) (monitorStatus rt (\<lambda>s. s) ctx h sid n ([], s))"
    unfolding monitorStatus_def by (rule monitor_outcome [OF assms(1,2) refl assms(3)])
  then show ?thesis
    using session_verdict_None [of 0 "outside s"]
    by (auto simp: session_outcome_def key_trace_def split: option.splits prod.splits)
qed

definition script_runtime :: "(nat, (gerr + status_response option) list) runtime" where
  "script_runtime =
     \<lparr>rt_meanwhile = (\<lambda>s. s), rt_block = (\<lambda>s. s), rt_done = (\<lambda>_. True), rt_ticks = (\<lambda>_. 0),
      rt_expired = (\<lambda>_. False), rt_emit = (\<lambda>_ _. None), rt_factory = (\<lambda>s. (Inr 7, s)),
      rt_api = (\<lambda>_. (steady_client no_login None)\<lparr>c_Status := \<lambda>_ s.
        (case outside s of [] \<Rightarrow> (Inl (ErrText ''no answer''), s) | r # rs \<Rightarrow> (r, s\<lparr>outside := rs\<rparr>))\<rparr>),
      rt_os = \<lparr>os_Hostname = [], os_User = None\<rparr>,
      rt_url_hostname = Some, rt_split_host = (\<lambda>_. None), rt_parse_addr = (\<lambda>_. None),
      rt_lookup = (\<lambda>_ s. (Inr [], s))\<rparr>"

definition scripted_session :: "'d \<Rightarrow> (nat, 'd) service" where
  "scripted_session d =
     (NewService d)\<lparr>svc_state := ServiceStateStarted, svc_client := Some 7, sessionID := 1, monitorCancel := Some 2,
                    next_ref := 3\<rparr>"

lemma monitor_ends_session_iff_witness:
  "ended_session 2 (snd (monitorStatus script_runtime (\<lambda>s. s) 2 7 1 2
     ([], scripted_session [Inl (ErrText ''a''), Inl (ErrText ''b''), Inl (ErrText ''c'')])))"
proof -
  let ?s = "scripted_session [Inl (ErrText ''a''), Inl (ErrText ''b''), Inl (ErrText ''c'')]"
  have script: "scripted script_runtime 7"
    by (simp add: scripted_def script_runtime_def steady_client_def)
  have session: "active_session 2 7 1 ?s" "length (outside ?s) = Suc 2"
    by (simp_all add: scripted_session_def active_session_def NewService_def)
  have "\<not> goes_on 0 (outside ?s)"
    by (simp add: goes_on_def scripted_session_def NewService_def)
  then show ?thesis
    using monitor_ends_session_iff [OF script session] by (auto split: prod.splits)
qed

text \<open>
  C29: a late poll can revive a state. If the daemon answered connected and a whole Disconnect is carried out before the monitor gets
  the lock for the state, the plugin is left in the state STARTED although there is no session
  and no client: the monitor does not check that its session is still the active one.
\<close>

theorem late_poll_revives_state:
  assumes "c_Status (rt_api rt h) full_peer_status s = (Inr resp, s1)"
    and "mapped_State (Map_status resp) = Connected"
    and "rt_meanwhile rt s1 = snd (snd (Disconnect rt' ([], s1)))" "runtime_moves untouched rt'"
  shows "case pollDaemonStatus rt ctx h sid (log, s) of (r, log', s') \<Rightarrow>
    svc_state s' = ServiceStateStarted \<and> svc_client s' = None \<and> monitorCancel s' = None \<and>
    set_option (monitorCancel s1) \<subseteq> cancelled s'"
proof -
  have "stopped s1 (rt_meanwhile rt s1)"
    using Disconnect_outcome [OF assms(4), of "[]" s1] assms(3) by simp
  then have "stopped s1 (snd (setStateValue ServiceStateStarted (rt_meanwhile rt s1)))"
    by (simp add: setStateValue_def stopped_def)
  moreover have "c_Status (api rt h) full_peer_status (log, s) = (Inr resp, (log @ [Status full_peer_status], s1))"
    by (simp add: api_Status assms(1))
  moreover have "svc_state (snd (setStateValue ServiceStateStarted t)) = ServiceStateStarted" for t :: "('a, 'b) service"
    by (simp add: setStateValue_def)
  ultimately show ?thesis
    using setState_log [of rt ServiceStateStarted "log @ [Status full_peer_status]" s1]
    by (auto simp: pollDaemonStatus_def assms(2) stopped_def)
qed

lemma late_poll_revives_state_witness:
  "let rt = (steady_runtime ''Connected'')\<lparr>rt_meanwhile :=
         \<lambda>s. snd (snd (Disconnect (steady_runtime ''Connected'') ([], s)))\<rparr>
   in svc_state (snd (snd (pollDaemonStatus rt 2 7 1 ([], scripted_session ())))) = ServiceStateStarted"
proof -
  let ?rt = "(steady_runtime ''Connected'')\<lparr>rt_meanwhile :=
      \<lambda>s. snd (snd (Disconnect (steady_runtime ''Connected'') ([], s)))\<rparr>"
  let ?resp = "Some \<lparr>resp_Status = ''Connected'', resp_FullStatus = None, resp_DaemonVersion = []\<rparr>"
  have "mapped_State (Map_status ?resp) = Connected"
    by code_simp
  moreover have "runtime_moves untouched (steady_runtime ''Connected'')"
    by (rule steady_moves) (simp add: untouched_def)
  ultimately show ?thesis
    using late_poll_revives_state [of ?rt 7 "scripted_session ()" ?resp "scripted_session ()"
        "steady_runtime ''Connected''" 2 1 "[]"]
    by (auto simp: steady_runtime_def steady_client_def split: prod.splits)
qed

end
