(* ===== verification/Answering.thy ===== *)
theory Answering
  imports Dialog Monitor
begin

text \<open>
  The service and the auth dialog together: the hints with which the service asks for secrets
  (\<open>internal/nmplugin/prompts.go\<close>) are what the dialog (\<open>internal/nmauthdialog/dialog.go\<close>) decides on, its answer
  comes back to the service as vpn secrets, and both sides judge on their own whether a setup key is missing. The two
  packages share no code: each has its own names, its own normal forms and its own reading of the settings.
\<close>

section \<open>The two packages agree on names and normal forms\<close>

lemma same_normal_forms:
  "dlg_normalizeSettingKey = normalizeSettingKey" "dlg_normalizeAuthMode = normalizeAuthMode"
  unfolding fun_eq_iff dlg_normalizeSettingKey_def normalizeSettingKey_def dlg_normalizeAuthMode_def
    normalizeAuthMode_def setup_key_modes_def sso_modes_def
  by (rule allI, rule refl)+

lemma same_names:
  "keyActivationID = netbirdPromptActivationID" "keyNetBirdSSO = netbirdSSOHint"
  "keyNetBirdSSOContinue = netbirdSSOContinue"
  by (simp_all add: keyActivationID_def netbirdPromptActivationID_def keyNetBirdSSO_def netbirdSSOHint_def
      keyNetBirdSSOContinue_def netbirdSSOContinue_def)

lemma hint_key_forms:
  "normalizeSettingKey netbirdPromptActivationID = ''xnetbirdactivationid''"
  "normalizeSettingKey netbirdSSOHint = ''xnetbirdsso''"
  "normalizeSettingKey netbirdSSOContinue = ''xnetbirdssocontinue''"
  "normalizeSettingKey netbirdSSOCancel = ''xnetbirdssocancel''"
  "normalizeSettingKey netbirdSSOVerificationURIHint = ''xnetbirdssoverificationuri''"
  "normalizeSettingKey netbirdSSOVerificationURIComplete = ''xnetbirdssoverificationuricomplete''"
  "normalizeSettingKey netbirdSSOUserCodeHint = ''xnetbirdssousercode''"
  by code_simp+

section \<open>Hints\<close>

lemma solid_eq: "solid (CHR ''='')"
  by (simp add: solid_def)

definition hint_name :: "string \<Rightarrow> bool" where
  "hint_name k \<longleftrightarrow> k \<noteq> [] \<and> list_all (\<lambda>c. solid c \<and> c \<noteq> CHR ''='') k"

lemma parse_hint_pair:
  assumes "hint_name k"
  shows "parse_hint (formatPromptHint k v) m = m(normalizeSettingKey k \<mapsto> trim_space (trim_right v))"
proof -
  have k: "k \<noteq> []" "solid (hd k)" "solid (last k)" "CHR ''='' \<notin> set k"
    using assms by (auto simp: hint_name_def list_all_iff)
  then have "trim_space (formatPromptHint k v) = k @ CHR ''='' # trim_right v" "trim_space k = k"
    using trim_space_solid_front [of k "CHR ''=''" v] by (simp_all add: formatPromptHint_def solid_eq trim_space_solid)
  with k show ?thesis
    by (simp add: parse_hint_def same_normal_forms)
qed

lemma parse_hint_mark:
  assumes "hint_name k"
  shows "parse_hint k m = m(normalizeSettingKey k \<mapsto> ''true'')"
proof -
  have k: "k \<noteq> []" "solid (hd k)" "solid (last k)" "CHR ''='' \<notin> set k"
    using assms by (auto simp: hint_name_def list_all_iff)
  moreover have "trim_space ''true'' = ''true''"
    by code_simp
  ultimately show ?thesis
    by (simp add: parse_hint_def same_normal_forms trim_space_solid)
qed

lemma hint_names:
  "hint_name netbirdPromptActivationID" "hint_name netbirdSSOHint" "hint_name netbirdSSOContinue"
  "hint_name netbirdSSOVerificationURIHint" "hint_name netbirdSSOVerificationURIComplete"
  "hint_name netbirdSSOUserCodeHint"
  by code_simp+

lemma digits_solid:
  assumes "set s \<subseteq> {c. is_digit c}" "s \<noteq> []"
  shows "trim_space s = s" "trim_right s = s"
proof -
  have "solid c" if "c \<in> set s" for c
    using assms(1) that by (auto simp: is_digit_def solid_def less_eq_char_def)
  then show "trim_space s = s" "trim_right s = s"
    using assms(2) trim_right_solid [of "last s" "butlast s"] by (auto intro: trim_space_solid)
qed

lemma activation_id_text:
  "formatActivationID idn \<noteq> []" "trim_space (formatActivationID idn) = formatActivationID idn"
  "trim_right (formatActivationID idn) = formatActivationID idn"
  using digits_solid [of "dec_of_nat (unat idn)"] dec_of_nat_digits
  by (simp_all add: formatActivationID_def format_uint_def)

text \<open>What the dialog reads in the hints of an SSO prompt.\<close>

lemma sso_hint_values:
  "hint_value (parseHints (ssoPromptHints idn response)) keyActivationID = formatActivationID idn"
  "hint_value (parseHints (ssoPromptHints idn response)) keyNetBirdSSO = ''true''"
proof -
  have "trim_right ''true'' = ''true''" "trim_space ''true'' = ''true''"
    by code_simp+
  then show "hint_value (parseHints (ssoPromptHints idn response)) keyActivationID = formatActivationID idn"
    "hint_value (parseHints (ssoPromptHints idn response)) keyNetBirdSSO = ''true''"
    by (simp_all add: hint_value_def parseHints_def ssoPromptHints_def parse_hint_pair parse_hint_mark hint_names
        hint_key_forms same_normal_forms same_names get_str_def activation_id_text)
qed

lemma sso_hints_requested: "ssoRequested (parseHints (ssoPromptHints idn response))"
proof -
  have "isTruthy ''true''"
    by code_simp
  then show ?thesis
    by (simp add: ssoRequested_def sso_hint_values)
qed

section \<open>The connection with an answer\<close>

text \<open>The vpn section NetworkManager hands over: its data, and the secrets of the answer.\<close>

definition vpn_settings :: "string go_map \<Rightarrow> string go_map \<Rightarrow> connection_settings" where
  "vpn_settings data secs = [(''vpn'', [(''data'', VMapString data), (''secrets'', VMapString secs)])]"

lemma section_names:
  "normalizeSectionName ''vpn'' = ''vpn''" "normalizeSettingKey ''data'' = ''data''"
  "normalizeSettingKey ''secrets'' = ''secrets''"
  by code_simp+

lemma sorted_data_secrets:
  "sorted_entries [(''data'', x), (''secrets'', y)] = [(''data'', x), (''secrets'', y)]"
  by (simp add: sorted_entries_def less_eq_list_code less_char_def)

lemma sorted_entries_single: "sorted_entries [x] = [x]"
  by (simp add: sorted_entries_def)

lemma vpn_entries:
  "sortedSectionSettings (vpn_settings data secs) ''vpn'' =
     [\<lparr>keyKind = ''data'', entry_variant = VMapString data\<rparr>,
      \<lparr>keyKind = ''secrets'', entry_variant = VMapString secs\<rparr>]"
  "sortedSectionSettings (vpn_settings data secs) ''connection'' = []"
  by (simp_all add: sortedSectionSettings_def vpn_settings_def section_names sorted_data_secrets
      sorted_entries_single)

lemma flatten_vpn_settings:
  "flattenConnectionSettings (vpn_settings data secs) = normalizeStringMap data ++ normalizeStringMap secs"
  by (simp add: flatten_sources from_connection_def from_vpn_scalars_def from_vpn_map_def vpn_entries
      merge_connection_entries_def merge_scalar_entries_def merge_nested_entries_def normalizeStringMap_def)

text \<open>With distinct normal forms, the map the service reads is the association of them.\<close>

lemma fold_update_distinct:
  assumes "distinct (map f es)"
  shows "fold (\<lambda>e m. m(f e \<mapsto> g e)) es m = m ++ map_of (map (\<lambda>e. (f e, g e)) es)"
  using assms
proof (induction es arbitrary: m)
  case (Cons e es)
  have "map_of (map (\<lambda>e. (f e, g e)) es) (f e) = None"
    using Cons.prems by (auto simp: map_of_eq_None_iff image_iff)
  then have "m(f e \<mapsto> g e) ++ map_of (map (\<lambda>e. (f e, g e)) es) =
      m ++ map_of (map (\<lambda>e. (f e, g e)) (e # es))"
    by (auto simp: fun_eq_iff map_add_def split: option.split)
  moreover have "fold (\<lambda>e m. m(f e \<mapsto> g e)) es (m(f e \<mapsto> g e)) =
      m(f e \<mapsto> g e) ++ map_of (map (\<lambda>e. (f e, g e)) es)"
    by (rule Cons.IH) (use Cons.prems in simp)
  ultimately show ?case by (simp only: fold_simps)
qed simp

lemma map_of_nonempty_keys:
  "K \<noteq> [] \<Longrightarrow> map_of (map (\<lambda>e. (normalizeSettingKey (fst e), g e)) (filter (\<lambda>(k, v). normalizeSettingKey k \<noteq> []) es)) K =
    map_of (map (\<lambda>e. (normalizeSettingKey (fst e), g e)) es) K"
  by (induction es) auto

definition normal_keys :: "string go_map \<Rightarrow> string list" where
  "normal_keys m = map (\<lambda>(k, v). normalizeSettingKey k) m"

lemma normalizeStringMap_lookup:
  assumes "distinct (normal_keys m)" "K \<noteq> []"
  shows "normalizeStringMap m K = map_of (map (\<lambda>(k, v). (normalizeSettingKey k, trim_space v)) m) K"
proof -
  define n where "n = filter (\<lambda>(k, v). normalizeSettingKey k \<noteq> []) (sorted_entries m)"
  have mset: "mset (sorted_entries m) = mset m"
    by (simp add: sorted_entries_def)
  have dist: "distinct (normal_keys (sorted_entries m))"
    using assms(1) by (metis mset mset_eq_imp_distinct_iff mset_map normal_keys_def)
  then have "distinct (normal_keys n)"
    by (simp add: n_def normal_keys_def distinct_map_filter)
  have "normalizeStringMap m = fold (\<lambda>e d. d(normalizeSettingKey (fst e) \<mapsto> trim_space (snd e))) n Map.empty"
    unfolding normalizeStringMap_def mergeNormalizedStringMap_def n_def fold_filter
    by (rule arg_cong [where f = "\<lambda>f. fold f (sorted_entries m) Map.empty"]) (auto simp: fun_eq_iff Let_def)
  also have "\<dots> = map_of (map (\<lambda>e. (normalizeSettingKey (fst e), trim_space (snd e))) n)"
    using \<open>distinct (normal_keys n)\<close>
    by (subst fold_update_distinct) (simp_all add: normal_keys_def case_prod_unfold)
  finally have eq: "normalizeStringMap m = map_of (map (\<lambda>e. (normalizeSettingKey (fst e), trim_space (snd e))) n)" .
  let ?all = "\<lambda>es. map (\<lambda>e. (normalizeSettingKey (fst e), trim_space (snd e))) es"
  have "map_of (?all n) K = map_of (?all (sorted_entries m)) K"
    using assms(2) by (simp add: n_def map_of_nonempty_keys)
  also have "\<dots> = map_of (?all m) K"
  proof -
    have "mset (?all (sorted_entries m)) = mset (?all m)"
      by (simp add: mset)
    moreover have "distinct (map fst (?all (sorted_entries m)))"
      using dist by (simp add: normal_keys_def case_prod_unfold comp_def)
    moreover have "distinct (map fst (?all m))"
      using assms(1) by (simp add: normal_keys_def case_prod_unfold comp_def)
    ultimately have "map_of (?all (sorted_entries m)) = map_of (?all m)"
      using map_of_inject_set [THEN iffD2] mset_eq_setD by blast
    then show ?thesis by simp
  qed
  finally show ?thesis
    using eq by (simp add: case_prod_unfold)
qed

section \<open>Answering an SSO prompt\<close>

text \<open>What the plain answer to the hints of an SSO prompt holds.\<close>

definition sso_answer :: "64 word \<Rightarrow> (string \<times> string) list" where
  "sso_answer idn = [(netbirdSSOContinue, ''true''), (netbirdPromptActivationID, formatActivationID idn)]"

lemma id_text_plain: "\<not> breaks_line (formatActivationID idn)"
  using dec_of_nat_digits [of "unat idn"]
  by (auto simp: breaks_line_def list_ex_iff formatActivationID_def format_uint_def is_digit_def less_eq_char_def)

lemma sso_names_plain:
  "\<not> breaks_line netbirdSSOContinue" "\<not> breaks_line netbirdPromptActivationID" "\<not> breaks_line ''true''"
  "netbirdSSOContinue \<noteq> []" "netbirdPromptActivationID \<noteq> []"
  by code_simp+

lemma standard_sso_answer:
  assumes "opt_AllowInteraction opts" "\<not> opt_ExternalUIMode opts" "opt_Hints opts = ssoPromptHints idn response"
    and accept: "\<And>log s. accepts env log s"
  shows "\<exists>log. writeResponse env opts details [] = (None, log) \<and> read_answer log = sso_answer idn"
proof -
  have run: "writeResponse env opts details [] = writeStandardSecrets env (sso_answer idn) []"
    using assms(1-3)
    by (simp add: writeResponse_def sso_hints_requested writeSSOResponse_def writeStandardSSO_def appendHintValue_def
        sso_hint_values [unfolded same_names] activation_id_text sso_answer_def same_names Let_def del: writeStandardSecrets.simps)
  have "fst (writeStandardSecrets env (sso_answer idn) []) = None"
    using accept by (simp add: sso_answer_def sso_names_plain id_text_plain write_out_def)
  then obtain log where log: "writeStandardSecrets env (sso_answer idn) [] = (None, log)"
    by (metis prod.collapse)
  moreover have "\<forall>(k, v) \<in> set (sso_answer idn). k \<noteq> [] \<and> nl \<notin> set k \<and> nl \<notin> set v"
    using breaks_line_nl id_text_plain sso_names_plain by (simp add: sso_answer_def)
  ultimately have "read_answer log = sso_answer idn"
    using writeStandardSecrets_output [of env "sso_answer idn" "[]" log] read_pairs_lines
    by (simp add: read_answer_def)
  with run log show ?thesis by simp
qed

text \<open>What the service reads in that answer.\<close>

lemma sso_answer_parsed:
  assumes "\<forall>(k, v) \<in> set data. normalizeSettingKey k \<noteq> ''xnetbirdssocancel''"
  shows "s_SSOContinue (parseActivationSettings (vpn_settings data (sso_answer idn)))"
    and "\<not> s_SSOCancel (parseActivationSettings (vpn_settings data (sso_answer idn)))"
    and "s_PromptActivationID (parseActivationSettings (vpn_settings data (sso_answer idn))) = formatActivationID idn"
proof -
  define vs where "vs = flattenConnectionSettings (vpn_settings data (sso_answer idn))"
  have "distinct (normal_keys (sso_answer idn))"
    by (simp add: normal_keys_def sso_answer_def hint_key_forms)
  then have answer: "normalizeStringMap (sso_answer idn) K =
      map_of [(''xnetbirdssocontinue'', ''true''), (''xnetbirdactivationid'', formatActivationID idn)] K"
    if "K \<noteq> []" for K
  proof -
    have "trim_space ''true'' = ''true''"
      by code_simp
    with normalizeStringMap_lookup [OF \<open>distinct (normal_keys (sso_answer idn))\<close> that] show ?thesis
      by (simp add: sso_answer_def hint_key_forms activation_id_text)
  qed
  have "dom (normalizeStringMap data) \<subseteq> {} \<union> (\<lambda>(k, v). normalizeSettingKey k) ` set data"
    unfolding normalizeStringMap_def mergeNormalizedStringMap_def
    using dom_fold [of "sorted_entries data"
        "\<lambda>(key, v) d. let keyName = normalizeSettingKey key in if keyName = [] then d else d(keyName \<mapsto> trim_space v)"
        "(\<lambda>(k, v). normalizeSettingKey k) ` set data" Map.empty]
    by (force simp: Let_def sorted_entries_def split: if_splits)
  then have "normalizeStringMap data ''xnetbirdssocancel'' = None"
    using assms by force
  then have vs: "vs ''xnetbirdssocontinue'' = Some ''true''" "vs ''xnetbirdactivationid'' = Some (formatActivationID idn)"
    "vs ''xnetbirdssocancel'' = None"
    by (simp_all add: vs_def flatten_vpn_settings answer map_add_def)
  have "List.member truthy_words (to_lower (trim_space ''true''))" "\<not> List.member truthy_words (to_lower (trim_space []))"
    by code_simp+
  then show "s_SSOContinue (parseActivationSettings (vpn_settings data (sso_answer idn)))"
    "\<not> s_SSOCancel (parseActivationSettings (vpn_settings data (sso_answer idn)))"
    using vs by (simp_all add: parseActivationSettings_def Let_def boolSetting_def hint_key_forms get_str_def vs_def [symmetric])
  show "s_PromptActivationID (parseActivationSettings (vpn_settings data (sso_answer idn))) = formatActivationID idn"
    using vs by (simp add: parseActivationSettings_def Let_def hint_key_forms get_str_def vs_def [symmetric]
        activation_id_text)
qed

text \<open>
  C9: the dialog answers an SSO prompt of the service. Take the hints with which the service asks for the SSO
  login of an activation: the dialog, allowed to interact and with a working standard output, succeeds, and when
  NetworkManager hands what it wrote back as vpn secrets, next to any data that does not itself cancel,
  the service takes its prompt as answered and cancels nothing. The same answer leaves the prompt of any
  other activation alone.
\<close>

theorem dialog_answers_sso_prompt:
  assumes "opt_AllowInteraction opts" "\<not> opt_ExternalUIMode opts" "opt_Hints opts = ssoPromptHints idn response"
    and "\<And>log s. accepts env log s"
    and "\<forall>(k, v) \<in> set data. normalizeSettingKey k \<noteq> ''xnetbirdssocancel''"
    and "svc_prompt s = Some p" "prompt_kind p = PromptSSO"
  shows "\<exists>log. writeResponse env opts details [] = (None, log)
    \<and> NewSecrets (vpn_settings data (read_answer log)) s =
        (if prompt_activationID p = idn then s\<lparr>svc_prompt := None\<rparr> else s)"
proof -
  obtain log where "writeResponse env opts details [] = (None, log)" "read_answer log = sso_answer idn"
    using standard_sso_answer assms(1-4) by blast
  moreover have "NewSecrets (vpn_settings data (sso_answer idn)) s =
      (if prompt_activationID p = idn then s\<lparr>svc_prompt := None\<rparr> else s)"
    using sso_answer_parsed [OF assms(5)] assms(6,7)
    by (auto simp: NewSecrets_def handleNewSecretsLocked_def Let_def activation_id_text activation_id.enc_inj)
  ultimately show ?thesis
    by auto
qed

lemma dialog_answers_sso_prompt_witness:
  "\<exists>log. writeResponse plain_env
      (plain_options\<lparr>opt_AllowInteraction := True,
         opt_Hints := ssoPromptHints 7 \<lparr>NeedsSSOLogin = True, UserCode = ''A B'', VerificationURI = [],
                                        VerificationURIComplete = []\<rparr>\<rparr>)
      \<lparr>details_data = [], details_secrets = []\<rparr> [] = (None, log)
    \<and> svc_prompt (NewSecrets (vpn_settings [(''auth'', ''sso'')] (read_answer log))
        ((NewService () :: (nat, unit) service)\<lparr>svc_prompt := Some \<lparr>prompt_activationID = 7, prompt_kind = PromptSSO,
           prompt_result = None\<rparr>\<rparr>)) = None"
proof -
  let ?s = "(NewService () :: (nat, unit) service)
    \<lparr>svc_prompt := Some \<lparr>prompt_activationID = 7, prompt_kind = PromptSSO, prompt_result = None\<rparr>\<rparr>"
  let ?r = "\<lparr>NeedsSSOLogin = True, UserCode = ''A B'', VerificationURI = [], VerificationURIComplete = []\<rparr>"
  let ?o = "plain_options\<lparr>opt_AllowInteraction := True, opt_Hints := ssoPromptHints 7 ?r\<rparr>"
  have "\<forall>(k, v) \<in> set [(''auth'', ''sso'')]. normalizeSettingKey k \<noteq> ''xnetbirdssocancel''"
    by code_simp
  moreover have "accepts plain_env log t" for log t
    by (simp add: plain_env_def)
  moreover have "opt_AllowInteraction ?o" "\<not> opt_ExternalUIMode ?o" "opt_Hints ?o = ssoPromptHints 7 ?r"
    by (simp_all add: plain_options_def default_dialog_options_def)
  ultimately obtain log where
    "writeResponse plain_env ?o \<lparr>details_data = [], details_secrets = []\<rparr> [] = (None, log)"
    "NewSecrets (vpn_settings [(''auth'', ''sso'')] (read_answer log)) ?s = ?s\<lparr>svc_prompt := None\<rparr>"
    using dialog_answers_sso_prompt [where s = ?s and env = plain_env and opts = ?o and idn = 7 and response = ?r
        and data = "[(''auth'', ''sso'')]" and details = "\<lparr>details_data = [], details_secrets = []\<rparr>"
        and p = "\<lparr>prompt_activationID = 7, prompt_kind = PromptSSO, prompt_result = None\<rparr>"]
    by auto
  then show ?thesis
    by auto
qed

section \<open>Answering a setup-key prompt\<close>

text \<open>
  What a front end returns for an external answer: for every entry after the header its value, or what the user types where it
  has to ask.
\<close>

definition filled_in :: "string \<Rightarrow> keyfile \<Rightarrow> (string \<times> string) list" where
  "filled_in typed kf =
     map (\<lambda>(g, fs). (g, if map_of fs ''ShouldAsk'' = Some ''true'' then typed
                         else (case map_of fs ''Value'' of Some v \<Rightarrow> v | None \<Rightarrow> [])))
       (tl kf)"

lemma filled_in_entry:
  "filled_in typed (h # entry_group key v label sec ask # rest) =
    (key, if ask then typed else v) # filled_in typed (h # rest)"
  by (simp add: filled_in_def entry_group_def format_bool_def)

lemma hint_name_setup_key: "hint_name ''setup-key''" "normalizeSettingKey ''setup-key'' = ''setupkey''"
  by code_simp+

lemma other_hint_keys:
  "normalizeSettingKey keyNetBirdSSOVerificationURI = ''xnetbirdssoverificationuri''"
  "normalizeSettingKey keyNetBirdSSOVerificationFull = ''xnetbirdssoverificationuricomplete''"
  "normalizeSettingKey keyNetBirdSSOUserCode = ''xnetbirdssousercode''"
  by code_simp+

lemma setup_key_hints:
  "hint_value (parseHints (setupKeyPromptHints idn)) keyActivationID = formatActivationID idn"
  "hint_value (parseHints (setupKeyPromptHints idn)) keyNetBirdSSO = []"
  "hint_value (parseHints (setupKeyPromptHints idn)) keyNetBirdSSOVerificationURI = []"
  "hint_value (parseHints (setupKeyPromptHints idn)) keyNetBirdSSOVerificationFull = []"
  "hint_value (parseHints (setupKeyPromptHints idn)) keyNetBirdSSOUserCode = []"
  by (simp_all add: hint_value_def parseHints_def setupKeyPromptHints_def parse_hint_pair parse_hint_mark hint_names
      hint_key_forms other_hint_keys hint_name_setup_key same_normal_forms same_names get_str_def activation_id_text)

lemma setup_key_hints_ask:
  "\<not> ssoRequested (parseHints (setupKeyPromptHints idn))" "hasSetupKey (parseHints (setupKeyPromptHints idn))"
proof -
  have "\<not> isTruthy []" "isSetupKeyName ''setup-key''"
    by code_simp+
  then show "\<not> ssoRequested (parseHints (setupKeyPromptHints idn))" "hasSetupKey (parseHints (setupKeyPromptHints idn))"
    by (simp add: ssoRequested_def setup_key_hints)
      (simp add: \<open>isSetupKeyName ''setup-key''\<close> hasSetupKey_def parseHints_def setupKeyPromptHints_def)
qed

text \<open>What the service reads in the key typed by the user and the activation.\<close>

definition key_answer :: "string \<Rightarrow> 64 word \<Rightarrow> (string \<times> string) list" where
  "key_answer typed idn = [(keySetupKey, typed), (keyActivationID, formatActivationID idn)]"

lemma key_answer_parsed:
  assumes "\<not> blank typed"
  shows "s_SetupKey (parseActivationSettings (vpn_settings data (key_answer typed idn))) = trim_space typed"
    and "s_PromptActivationID (parseActivationSettings (vpn_settings data (key_answer typed idn))) =
      formatActivationID idn"
proof -
  define vs where "vs = flattenConnectionSettings (vpn_settings data (key_answer typed idn))"
  have forms: "normalizeSettingKey keySetupKey = ''setupkey''" "normalizeSettingKey keyActivationID = ''xnetbirdactivationid''"
    by code_simp+
  have dist: "distinct (normal_keys (key_answer typed idn))"
    by (simp add: normal_keys_def key_answer_def forms)
  have "vs ''setupkey'' = Some (trim_space typed)" "vs ''xnetbirdactivationid'' = Some (formatActivationID idn)"
    using normalizeStringMap_lookup [OF dist, of "''setupkey''"]
      normalizeStringMap_lookup [OF dist, of "''xnetbirdactivationid''"]
    by (simp_all add: vs_def flatten_vpn_settings map_add_def key_answer_def forms activation_id_text)
  then show "s_SetupKey (parseActivationSettings (vpn_settings data (key_answer typed idn))) = trim_space typed"
    "s_PromptActivationID (parseActivationSettings (vpn_settings data (key_answer typed idn))) = formatActivationID idn"
    using assms
    by (simp_all add: parseActivationSettings_def Let_def setup_key_keys_def hint_name_setup_key hint_key_forms
        get_str_def vs_def [symmetric] activation_id_text blank_def)
qed

lemma dialog_key_document:
  assumes "opt_AllowInteraction opts" "opt_ExternalUIMode opts" "opt_Hints opts = setupKeyPromptHints idn"
    and "\<And>log s. accepts env log s"
    and "blank (snd (setupKeyRequirement env (parseHints (opt_Hints opts)) details))"
  shows "\<exists>doc. writeResponse env opts details [] = (None, [Write doc]) \<and>
    (\<forall>typed. filled_in typed (read_keyfile doc) = key_answer typed idn)"
proof -
  let ?hints = "parseHints (setupKeyPromptHints idn)"
  obtain key where req: "setupKeyRequirement env ?hints details = (True, key)" "trim_space key = []"
    using assms(3,5) setup_key_hints_ask(2) [of idn]
    by (auto simp: setupKeyRequirement_def Let_def blank_def)
  let ?doc = "writeKeyfileUIHeader setupKeyTitle setupKeyPrompt
      @ writeKeyfileEntry keySetupKey key setupKeyLabel True True @ writeInternalHintEntries ?hints"
  have run: "writeResponse env opts details [] = (None, [Write ?doc])"
    using assms(1-4) req setup_key_hints_ask(1)
    by (simp add: writeResponse_def writeExternalSetupKey_def write_out_def Let_def)
  have "hint_groups ?hints [keyActivationID, keyNetBirdSSOVerificationURI, keyNetBirdSSOVerificationFull,
      keyNetBirdSSOUserCode] = [entry_group keyActivationID (formatActivationID idn) internalPromptLabel False False]"
    by (simp add: hint_groups_def setup_key_hints activation_id_text)
  then have "filled_in typed (read_keyfile ?doc) = key_answer typed idn" for typed
    using read_setup_key [of key True ?hints]
    by (simp add: filled_in_entry key_answer_def) (simp add: filled_in_def)
  with run show ?thesis
    by blast
qed

text \<open>
  the key typed into the dialog is the key the activation waits for. Take the hints with which the service asks for the
  setup key of an activation, and a connection in which the dialog finds none: in external user-interface mode with interaction
  the dialog writes one key file; whatever nonblank key the user types where it asks, handing the entries back as
  vpn secrets delivers that key, trimmed, on the channel of the prompt and clears it, provided the prompt is the one of that activation;
  any other prompt stays as it is.
\<close>

theorem dialog_answers_setup_key_prompt:
  assumes "opt_AllowInteraction opts" "opt_ExternalUIMode opts" "opt_Hints opts = setupKeyPromptHints idn"
    and "\<And>log s. accepts env log s"
    and "blank (snd (setupKeyRequirement env (parseHints (opt_Hints opts)) details))" "\<not> blank typed"
    and "svc_prompt s = Some p" "prompt_kind p = PromptSetupKey" "prompt_result p = Some ch" "delivered s ch = None"
  shows "\<exists>doc settings. writeResponse env opts details [] = (None, [Write doc])
    \<and> s_SetupKey settings = trim_space typed
    \<and> NewSecrets (vpn_settings data (filled_in typed (read_keyfile doc))) s =
        (if prompt_activationID p = idn
         then s\<lparr>svc_prompt := None, delivered := (delivered s)(ch \<mapsto> settings)\<rparr> else s)"
proof -
  obtain doc where doc: "writeResponse env opts details [] = (None, [Write doc])"
    "filled_in typed (read_keyfile doc) = key_answer typed idn"
    using dialog_key_document [OF assms(1-5)] by blast
  define settings where "settings = parseActivationSettings (vpn_settings data (key_answer typed idn))"
  have "s_SetupKey settings = trim_space typed" "s_PromptActivationID settings = formatActivationID idn"
    using key_answer_parsed [OF assms(6)] by (simp_all add: settings_def)
  moreover from this have "NewSecrets (vpn_settings data (key_answer typed idn)) s =
      (if prompt_activationID p = idn
       then s\<lparr>svc_prompt := None, delivered := (delivered s)(ch \<mapsto> settings)\<rparr> else s)"
    using assms(7-10)
    by (auto simp: NewSecrets_def handleNewSecretsLocked_def send_result_def settings_def [symmetric] Let_def
        activation_id_text activation_id.enc_inj)
  ultimately show ?thesis
    using doc by (intro exI [of _ doc] exI [of _ settings]) simp
qed

lemma dialog_answers_setup_key_prompt_witness:
  "\<exists>doc settings. writeResponse plain_env
      (plain_options\<lparr>opt_AllowInteraction := True, opt_ExternalUIMode := True, opt_Hints := setupKeyPromptHints 3\<rparr>)
      \<lparr>details_data = [(''auth'', ''setup-key'')], details_secrets = []\<rparr> [] = (None, [Write doc])
    \<and> s_SetupKey settings = trim_space ''K E Y''
    \<and> delivered (NewSecrets (vpn_settings [] (filled_in ''K E Y'' (read_keyfile doc)))
        ((NewService () :: (nat, unit) service)\<lparr>svc_prompt := Some \<lparr>prompt_activationID = 3,
           prompt_kind = PromptSetupKey, prompt_result = Some 5\<rparr>\<rparr>)) 5 = Some settings"
proof -
  let ?p = "\<lparr>prompt_activationID = 3, prompt_kind = PromptSetupKey, prompt_result = Some 5\<rparr>"
  let ?s = "(NewService () :: (nat, unit) service)\<lparr>svc_prompt := Some ?p\<rparr>"
  let ?o = "plain_options\<lparr>opt_AllowInteraction := True, opt_ExternalUIMode := True, opt_Hints := setupKeyPromptHints 3\<rparr>"
  let ?d = "\<lparr>details_data = [(''auth'', ''setup-key'')], details_secrets = []\<rparr>"
  have "blank (snd (setupKeyRequirement plain_env (parseHints (opt_Hints ?o)) ?d))" "\<not> blank ''K E Y''"
    by code_simp+
  moreover have "accepts plain_env log t" for log t
    by (simp add: plain_env_def)
  moreover have "opt_AllowInteraction ?o" "opt_ExternalUIMode ?o" "opt_Hints ?o = setupKeyPromptHints 3"
    by (simp_all add: plain_options_def default_dialog_options_def)
  moreover have "svc_prompt ?s = Some ?p" "prompt_kind ?p = PromptSetupKey" "prompt_result ?p = Some 5" "delivered ?s 5 = None"
    by (simp_all add: NewService_def)
  ultimately obtain doc settings where
    "writeResponse plain_env ?o ?d [] = (None, [Write doc])" "s_SetupKey settings = trim_space ''K E Y''"
    "NewSecrets (vpn_settings [] (filled_in ''K E Y'' (read_keyfile doc))) ?s =
      (if prompt_activationID ?p = 3
       then ?s\<lparr>svc_prompt := None, delivered := (delivered ?s)(5 \<mapsto> settings)\<rparr> else ?s)"
    using dialog_answers_setup_key_prompt [where opts = ?o and env = plain_env and details = ?d and idn = 3
        and typed = "''K E Y''" and s = ?s and p = ?p and ch = 5 and data = "[]"]
    by blast
  then show ?thesis
    by auto
qed

section \<open>Both sides miss the same setup key\<close>

lemma first_value_Nil: "first_value m keys = [] \<longleftrightarrow> (\<forall>k \<in> set keys. get_str m (dlg_normalizeSettingKey k) = [])"
  by (induction keys) (auto simp: Let_def)

lemma first_value_member:
  "first_value m keys \<noteq> [] \<Longrightarrow> \<exists>k \<in> set keys. first_value m keys = get_str m (dlg_normalizeSettingKey k)"
  by (induction keys) (auto simp: Let_def split: if_splits)

lemma firstSetting_Nil:
  "firstSetting vs keys = [] \<longleftrightarrow> (\<forall>k \<in> set keys. trim_space (get_str vs (normalizeSettingKey k)) = [])"
  by (induction keys) (auto simp: Let_def)

lemma firstSetting_first_value:
  "(\<And>k. k \<in> set keys \<Longrightarrow> trim_space (get_str vs (normalizeSettingKey k)) = get_str m (normalizeSettingKey k))
    \<Longrightarrow> firstSetting vs keys = first_value m keys"
  by (induction keys) (simp_all add: Let_def same_normal_forms)

lemma firstSetting_trimmed: "trim_space (firstSetting vs keys) = firstSetting vs keys"
  by (induction keys) (simp_all add: Let_def)

text \<open>Ranging over a map in any order, when its normal forms are distinct.\<close>

definition normal_map :: "(string \<Rightarrow> string) \<Rightarrow> string go_map \<Rightarrow> (string \<rightharpoonup> string)" where
  "normal_map g m = map_of (map (\<lambda>(k, v). (normalizeSettingKey k, g v)) m)"

lemma firstSettingValue_any_order:
  assumes "distinct (normal_keys m)" "mset m' = mset m"
  shows "firstSettingValue m' t keys = first_value (normal_map (if t then trim_space else (\<lambda>v. v)) m) keys"
proof -
  let ?g = "if t then trim_space else (\<lambda>v. v)"
  let ?all = "\<lambda>es. map (\<lambda>e. (normalizeSettingKey (fst e), ?g (snd e))) es"
  have dist: "distinct (map (\<lambda>e. normalizeSettingKey (fst e)) m')"
  proof -
    have "mset (map (\<lambda>e. normalizeSettingKey (fst e)) m') = mset (normal_keys m)"
      using assms(2) by (simp add: normal_keys_def case_prod_unfold)
    with assms(1) show ?thesis
      using mset_eq_imp_distinct_iff by blast
  qed
  have "first_value Map.empty keys = []" for keys
    by (induction keys) (simp_all add: get_str_def)
  then have "firstSettingValue m' t keys =
      first_value (fold (\<lambda>e d. d(normalizeSettingKey (fst e) \<mapsto> ?g (snd e))) m' Map.empty) keys"
    by (cases "m' = []"; cases t) (simp_all add: firstSettingValue_def same_normal_forms case_prod_unfold)
  also have "\<dots> = first_value (map_of (?all m')) keys"
    using dist by (subst fold_update_distinct) simp_all
  also have "map_of (?all m') = map_of (?all m)"
  proof -
    have "mset (?all m') = mset (?all m)"
      using assms(2) by simp
    moreover have "distinct (map fst (?all m'))" "distinct (map fst (?all m))"
      using dist assms(1) by (simp_all add: normal_keys_def case_prod_unfold comp_def)
    ultimately show ?thesis
      using map_of_inject_set [THEN iffD2] mset_eq_setD by blast
  qed
  finally show ?thesis
    by (simp add: normal_map_def case_prod_unfold)
qed

lemma normal_map_None: "normal_map g m K = None \<longleftrightarrow> K \<notin> set (normal_keys m)"
  by (force simp: normal_map_def normal_keys_def map_of_eq_None_iff)

lemma normal_map_value: "normal_map g m K = Some v \<Longrightarrow> \<exists>(k, w) \<in> set m. normalizeSettingKey k = K \<and> v = g w"
  by (fastforce simp: normal_map_def dest: map_of_SomeD)

lemma normal_map_map: "normal_map (\<lambda>v. g (h v)) m K = map_option g (normal_map h m K)"
  by (induction m) (auto simp: normal_map_def)

lemma setting_key_forms:
  "\<forall>k \<in> set auth_keys. normalizeSettingKey k \<in> {''auth'', ''authmode'', ''authentication'', ''loginmode''}"
  "\<forall>k \<in> set setup_key_keys. normalizeSettingKey k \<noteq> []"
  by code_simp+

text \<open>
  C16: when the service and the dialog agree on a missing setup key. If the keys of a vpn section, data and secrets together,
  have distinct normal forms, and its secrets neither choose the authentication mode nor are just white space, then the
  service says that it needs secrets exactly when the dialog, run without hints, has to ask for the setup
  key, in whatever order Go ranges over the dialog's maps. Without these conditions the two readings can differ
  (\<open>blank_secret_disagreement\<close>).
\<close>

theorem needs_secrets_agreement:
  assumes dist: "distinct (normal_keys (data @ secs))"
    and auth: "\<forall>(k, v) \<in> set secs. normalizeSettingKey k \<notin> {''auth'', ''authmode'', ''authentication'', ''loginmode''}"
    and nonblank: "\<forall>(k, v) \<in> set secs. v = [] \<or> trim_space v \<noteq> []"
    and order: "\<And>i m. mset (ranging env i m) = mset m"
  shows "NeedSecrets (vpn_settings data secs) =
    (case setupKeyRequirement env (parseHints []) \<lparr>details_data = data, details_secrets = secs\<rparr> of
       (needs, key) \<Rightarrow> if needs \<and> trim_space key = [] then ''vpn'' else [])"
proof -
  let ?vs = "flattenConnectionSettings (vpn_settings data secs)"
  let ?D = "normal_map trim_space data" and ?S = "normal_map (\<lambda>v. v) secs"
  have d: "distinct (normal_keys data)" "distinct (normal_keys secs)"
    and disjoint: "set (normal_keys data) \<inter> set (normal_keys secs) = {}"
    using dist by (simp_all add: normal_keys_def)
  have vs: "?vs K = (case ?S K of None \<Rightarrow> ?D K | Some v \<Rightarrow> Some (trim_space v))" if "K \<noteq> []" for K
    using normalizeStringMap_lookup [OF d(1) that] normalizeStringMap_lookup [OF d(2) that]
      normal_map_map [of trim_space "\<lambda>v. v" secs K]
    by (simp add: flatten_vpn_settings map_add_def normal_map_def split: option.split)
  have trimmed: "trim_space (get_str ?D K) = get_str ?D K" for K
    using normal_map_value [of trim_space data K] by (auto simp: get_str_def split: option.split)
  have "firstSetting ?vs auth_keys = first_value ?D auth_keys"
  proof (rule firstSetting_first_value)
    fix k
    assume "k \<in> set auth_keys"
    then have K: "normalizeSettingKey k \<in> {''auth'', ''authmode'', ''authentication'', ''loginmode''}"
      using setting_key_forms(1) by blast
    then have "normalizeSettingKey k \<notin> set (normal_keys secs)"
      using auth by (auto simp: normal_keys_def)
    then have "?S (normalizeSettingKey k) = None"
      by (simp only: normal_map_None not_False_eq_True)
    moreover have "normalizeSettingKey k \<noteq> []"
      using K by auto
    ultimately show "trim_space (get_str ?vs (normalizeSettingKey k)) = get_str ?D (normalizeSettingKey k)"
      using vs trimmed by (simp add: get_str_def)
  qed
  moreover have "dlg_firstSetting (ranging env i data) keys = first_value ?D keys" for i keys
    using firstSettingValue_any_order [OF d(1) order, of i True] by (simp add: dlg_firstSetting_def)
  moreover have "firstSettingPreserveValue (ranging env i secs) keys = first_value ?S keys" for i keys
    using firstSettingValue_any_order [OF d(2) order, of i False] by (simp add: firstSettingPreserveValue_def)
  moreover have "firstSetting ?vs setup_key_keys = [] \<longleftrightarrow>
      trim_space (if first_value ?S setup_key_keys = [] then first_value ?D setup_key_keys
                  else first_value ?S setup_key_keys) = []"
  proof -
    have S: "get_str ?S K = [] \<longleftrightarrow> trim_space (get_str ?S K) = []" for K
      using nonblank normal_map_value [of "\<lambda>v. v" secs K] by (fastforce simp: get_str_def split: option.split)
    have one: "trim_space (get_str ?vs K) = [] \<longleftrightarrow> get_str ?S K = [] \<and> get_str ?D K = []" if "K \<noteq> []" for K
    proof (cases "?S K")
      case None
      then show ?thesis
        using vs [OF that] trimmed [of K] by (simp add: get_str_def)
    next
      case (Some v)
      then have "K \<in> set (normal_keys secs)"
        using normal_map_None [of "\<lambda>v. v" secs K] by simp
      then have "?D K = None"
        using disjoint normal_map_None [of trim_space data K] by blast
      then show ?thesis
        using vs [OF that] Some S [of K] by (simp add: get_str_def)
    qed
    have "firstSetting ?vs setup_key_keys = [] \<longleftrightarrow>
        first_value ?S setup_key_keys = [] \<and> first_value ?D setup_key_keys = []"
      using one setting_key_forms(2) by (auto simp: firstSetting_Nil first_value_Nil same_normal_forms)
    moreover have "trim_space (first_value ?S setup_key_keys) \<noteq> []" if "first_value ?S setup_key_keys \<noteq> []"
      using first_value_member [OF that] S that by auto
    moreover have "trim_space (first_value ?D setup_key_keys) = first_value ?D setup_key_keys"
      using first_value_member [of ?D setup_key_keys] trimmed by (metis trim_space_Nil)
    ultimately show ?thesis
      by auto
  qed
  moreover have "\<not> hasSetupKey (parseHints [])"
    by (simp add: hasSetupKey_def parseHints_def)
  moreover have "[keyAuth, ''auth-mode'', ''authentication'', ''login-mode''] = auth_keys"
    "[keySetupKey, ''setupKey'', ''netbird-setup-key''] = setup_key_keys"
    by (simp_all add: keyAuth_def auth_keys_def keySetupKey_def setup_key_keys_def)
  ultimately show ?thesis
    by (simp add: NeedSecrets_def needsSetupKeySecret_def parseActivationSettings_def setupKeyRequirement_def
        Let_def same_normal_forms firstSetting_trimmed vpnSettingName_def)
qed

lemma needs_secrets_agreement_witness:
  "NeedSecrets (vpn_settings [(''auth'', ''setup_key''), (''hostname'', ''h'')] [(''setupKey'', [])]) = ''vpn''"
proof -
  have "distinct (normal_keys ([(''auth'', ''setup_key''), (''hostname'', ''h'')] @ [(''setupKey'', [])]))"
    "normalizeSettingKey ''setupKey'' \<notin> {''auth'', ''authmode'', ''authentication'', ''loginmode''}"
    "setupKeyRequirement plain_env (parseHints [])
       \<lparr>details_data = [(''auth'', ''setup_key''), (''hostname'', ''h'')], details_secrets = [(''setupKey'', [])]\<rparr> = (True, [])"
    by code_simp+
  moreover have "mset (ranging plain_env i m) = mset m" for i m
    by (simp add: plain_env_def)
  ultimately show ?thesis
    using needs_secrets_agreement [of "[(''auth'', ''setup_key''), (''hostname'', ''h'')]" "[(''setupKey'', [])]" plain_env]
    by simp
qed

text \<open>
  Outside these conditions: a secret of white space hides a key in the data from the dialog, which asks, but not from the
  service; an empty secret hides a key of the same name in the data from the service, which asks, but not from the dialog.
\<close>

lemma blank_secret_disagreement:
  "NeedSecrets (vpn_settings [(''auth'', ''setup-key''), (''netbird-setup-key'', ''K'')] [(''setup-key'', '' '')]) = []"
  "setupKeyRequirement plain_env (parseHints [])
     \<lparr>details_data = [(''auth'', ''setup-key''), (''netbird-setup-key'', ''K'')], details_secrets = [(''setup-key'', '' '')]\<rparr> =
   (True, '' '')"
  "NeedSecrets (vpn_settings [(''auth'', ''setup-key''), (''setup-key'', ''K'')] [(''setup-key'', [])]) = ''vpn''"
  "setupKeyRequirement plain_env (parseHints [])
     \<lparr>details_data = [(''auth'', ''setup-key''), (''setup-key'', ''K'')], details_secrets = [(''setup-key'', [])]\<rparr> =
   (True, ''K'')"
  by code_simp+

section \<open>A setup key, from the prompt to the login\<close>

text \<open>What a run of the dialog wrote to its standard output.\<close>

definition dialog_output :: "nat \<times> dialog_log \<Rightarrow> string" where
  "dialog_output r = concat (map (\<lambda>a. case a of Write t \<Rightarrow> t | _ \<Rightarrow> []) (snd r))"

text \<open>
  C8: the key a user types is the key the daemon gets. An interactive activation that needs a setup key and has none
  asks for it; NetworkManager runs the dialog on its command line for the hints of the signal and the
  connection on its standard input, shows what the dialog asks, and hands what the user typed back to the service. Then
  the process of the dialog ends with exit code 0, and the activation goes on to the login with exactly the settings it
  had and the typed key, trimmed, in its request; the prompt is over.
\<close>

theorem user_key_reaches_login:
  assumes "opt_Service opts = ServiceName" "\<not> blank (opt_UUID opts)" "\<not> blank (opt_Name opts)"
    and "opt_TestBrowserURL opts = []" "opt_TestBrowserTimeout opts = seconds 5" "\<not> opt_TestBrowserForce opts"
    and "opt_AllowInteraction opts" "opt_ExternalUIMode opts" "opt_Hints opts = setupKeyPromptHints (attempt_id att)"
    and "\<And>log t. accepts env log t" "readVPNDetails stdin = Inr details"
    and "blank (snd (setupKeyRequirement env (parseHints (opt_Hints opts)) details))" "\<not> blank typed"
    and "\<And>s. rt_meanwhile rt s = s" "\<And>s. \<not> rt_done rt s"
    and "\<And>s. rt_block rt s =
      NewSecrets (vpn_settings data (filled_in typed (read_keyfile (dialog_output (auth_dialog_main env (program # command_line opts) stdin))))) s"
    and "activating s" "activationID s = attempt_id att" "delivered s (next_ref s) = None"
    and "attempt_interactive att" "s_AuthMode settings = ''setup-key''" "blank (s_SetupKey settings)"
  shows "fst (auth_dialog_main env (program # command_line opts) stdin) = 0 \<and>
    (\<exists>s'. authenticate rt att h settings (log, s) =
       loginAndWait rt att h (settings\<lparr>s_SetupKey := trim_space typed\<rparr>)
         (log @ [EmitSignal (SecretsRequired setupKeyRequiredMessage (opt_Hints opts))], s') \<and>
       svc_prompt s' = None \<and> activating s' \<and>
       login_SetupKey (daemonLoginRequest (rt_os rt) (settings\<lparr>s_SetupKey := trim_space typed\<rparr>)) = trim_space typed)"
proof -
  obtain doc where doc: "writeResponse env opts details [] = (None, [Write doc])"
    "filled_in typed (read_keyfile doc) = key_answer typed (attempt_id att)"
    using dialog_key_document [OF assms(7-10,12)] by blast
  have run: "auth_dialog_main env (program # command_line opts) stdin = (0, [Write doc])"
    using ParseArgs_request [OF assms(1-6), of "parse_duration env"] assms(4,11) doc(1)
    by (simp add: auth_dialog_main_def dlg_Run_def)
  let ?answer = "vpn_settings data (key_answer typed (attempt_id att))"
  have "rt_block rt s = NewSecrets ?answer s" for s
    by (simp add: assms(16) run dialog_output_def doc(2))
  note answered = authenticate_answered [OF assms(14) this assms(15,17-21) _ _ key_answer_parsed(1) [OF assms(13)]]
  have "\<exists>s'. authenticate rt att h settings (log, s) =
       loginAndWait rt att h (settings\<lparr>s_SetupKey := trim_space typed\<rparr>)
         (log @ [EmitSignal (SecretsRequired setupKeyRequiredMessage (setupKeyPromptHints (attempt_id att)))], s') \<and>
       svc_prompt s' = None \<and> activating s' \<and>
       login_SetupKey (daemonLoginRequest (rt_os rt) (settings\<lparr>s_SetupKey := trim_space typed\<rparr>)) = trim_space typed"
    by (rule answered) (use assms(13,22) key_answer_parsed(2) [OF assms(13)] in \<open>simp_all add: blank_def\<close>)
  then show ?thesis
    by (simp add: run assms(9))
qed

lemma user_key_reaches_login_witness:
  "\<exists>(rt :: (nat, unit) runtime) stdin s'. fst (auth_dialog_main plain_env
        [''p'', ''-u'', ''1'', ''-n'', ''v'', ''-s'', ServiceName, ''-i'', ''-t'', ''setup-key'',
         ''-t'', ''x-netbird-activation-id=1'', ''--external-ui-mode''] stdin) = 0 \<and>
     authenticate rt (steady_attempt\<lparr>attempt_interactive := True\<rparr>) 7
        (parseActivationSettings [(''vpn'', [(''auth-mode'', VString ''setup-key'')])]) ([], sys_svc (first_attempt ())) =
     loginAndWait rt (steady_attempt\<lparr>attempt_interactive := True\<rparr>) 7
        ((parseActivationSettings [(''vpn'', [(''auth-mode'', VString ''setup-key'')])])\<lparr>s_SetupKey := ''K''\<rparr>)
        ([EmitSignal (SecretsRequired setupKeyRequiredMessage (setupKeyPromptHints 1))], s')"
proof -
  let ?o = "default_dialog_options\<lparr>opt_UUID := ''1'', opt_Name := ''v'', opt_Service := ServiceName,
      opt_AllowInteraction := True, opt_ExternalUIMode := True, opt_Hints := setupKeyPromptHints 1\<rparr>"
  let ?stdin = "Some \<lparr>in_bytes = as_bytes (connection_lines [(False, ''auth'', ''setup-key'')]) @ [], in_broken = None\<rparr>"
  let ?rt = "(steady_runtime ''Connected'')\<lparr>rt_done := \<lambda>_. False, rt_block := NewSecrets (vpn_settings []
      (filled_in ''K '' (read_keyfile (dialog_output (auth_dialog_main plain_env (''p'' # command_line ?o) ?stdin)))))\<rparr>"
  let ?d = "\<lparr>details_data = [(''auth'', ''setup-key'')], details_secrets = []\<rparr>"
  let ?set = "parseActivationSettings [(''vpn'', [(''auth-mode'', VString ''setup-key'')])]"
  have ids: "formatActivationID 1 = ''1''" "trim_space ''K '' = ''K''"
    by code_simp+
  have line: "command_line ?o = [''-u'', ''1'', ''-n'', ''v'', ''-s'', ServiceName, ''-i'', ''-t'', ''setup-key'',
      ''-t'', ''x-netbird-activation-id=1'', ''--external-ui-mode'']"
    by (simp add: command_line_def default_dialog_options_def setupKeyPromptHints_def formatPromptHint_def
        netbirdPromptActivationID_def ids)
  have texts: "\<not> blank ''1''" "\<not> blank ''v''" "\<not> blank ''K ''" "s_AuthMode ?set = ''setup-key''" "blank (s_SetupKey ?set)"
    "blank (snd (setupKeyRequirement plain_env (parseHints (setupKeyPromptHints 1)) ?d))"
    by code_simp+
  have stdin: "readVPNDetails ?stdin = Inr ?d"
    by (subst read_connection_put) (simp_all add: connection_lines_def tagged_lines_def tag_defs)
  have options: "opt_Service ?o = ServiceName" "\<not> blank (opt_UUID ?o)" "\<not> blank (opt_Name ?o)"
    "opt_TestBrowserURL ?o = []" "opt_TestBrowserTimeout ?o = seconds 5" "\<not> opt_TestBrowserForce ?o"
    "opt_AllowInteraction ?o" "opt_ExternalUIMode ?o"
    "opt_Hints ?o = setupKeyPromptHints (attempt_id (steady_attempt\<lparr>attempt_interactive := True\<rparr>))"
    "blank (snd (setupKeyRequirement plain_env (parseHints (opt_Hints ?o)) ?d))"
    using texts by (simp_all add: default_dialog_options_def steady_attempt_def)
  have env: "accepts plain_env log t" for log t
    by (simp add: plain_env_def)
  have calm: "rt_meanwhile ?rt s = s" "\<not> rt_done ?rt s"
    "rt_block ?rt s = NewSecrets (vpn_settings [] (filled_in ''K '' (read_keyfile
       (dialog_output (auth_dialog_main plain_env (''p'' # command_line ?o) ?stdin))))) s" for s
    by (simp_all add: steady_runtime_def)
  have svc: "activating (sys_svc (first_attempt ()))"
    "activationID (sys_svc (first_attempt ())) = attempt_id (steady_attempt\<lparr>attempt_interactive := True\<rparr>)"
    "delivered (sys_svc (first_attempt ())) (next_ref (sys_svc (first_attempt ()))) = None"
    "attempt_interactive (steady_attempt\<lparr>attempt_interactive := True\<rparr>)"
    by (simp_all add: first_attempt_def NewService_def steady_attempt_def)
  have id1: "attempt_id (steady_attempt\<lparr>attempt_interactive := True\<rparr>) = 1"
    by (simp add: steady_attempt_def)
  from user_key_reaches_login [OF options(1-9) env stdin options(10) texts(3) calm svc(1-4) texts(4,5), of 7 "[]"]
  show ?thesis
    unfolding line options(9) id1 ids append_Nil by blast
qed

end
