(* ===== verification/Surface.thy ===== *)
theory Surface
  imports Handlers
begin

text \<open>
  The D-Bus object as others see it: the introspection document (\<open>internal/nmplugin/introspection.go\<close>), the
  methods the object is exported with (\<open>service.go\<close>, \<open>properties.go\<close>) and the messages its signals are
  sent as (\<open>emit\<close>, \<open>emitStateChanged\<close>). A small reader of the document gives what it declares; the
  lemmas type every call, reply and signal by these declarations.
\<close>

section \<open>Definitions\<close>

subsection \<open>The introspection document\<close>

definition introspection_lines :: "string list" where
  \<open>introspection_lines =
     [''<?xml version="1.0" encoding="UTF-8"?>'',
      ''<node>'',
      ''  <interface name="org.freedesktop.DBus.Introspectable">'',
      ''    <method name="Introspect">'',
      ''      <arg name="xml_data" type="s" direction="out"/>'',
      ''    </method>'',
      ''  </interface>'',
      '''',
      ''  <interface name="org.freedesktop.DBus.Properties">'',
      ''    <method name="Get">'',
      ''      <arg name="interface_name" type="s" direction="in"/>'',
      ''      <arg name="property_name" type="s" direction="in"/>'',
      ''      <arg name="value" type="v" direction="out"/>'',
      ''    </method>'',
      ''    <method name="GetAll">'',
      ''      <arg name="interface_name" type="s" direction="in"/>'',
      ''      <arg name="props" type="a{sv}" direction="out"/>'',
      ''    </method>'',
      ''    <method name="Set">'',
      ''      <arg name="interface_name" type="s" direction="in"/>'',
      ''      <arg name="property_name" type="s" direction="in"/>'',
      ''      <arg name="value" type="v" direction="in"/>'',
      ''    </method>'',
      ''    <signal name="PropertiesChanged">'',
      ''      <arg name="interface_name" type="s"/>'',
      ''      <arg name="changed_properties" type="a{sv}"/>'',
      ''      <arg name="invalidated_properties" type="as"/>'',
      ''    </signal>'',
      ''  </interface>'',
      '''',
      ''  <interface name="org.freedesktop.NetworkManager.VPN.Plugin">'',
      ''    <method name="Connect">'',
      ''      <arg name="connection" type="a{sa{sv}}" direction="in"/>'',
      ''    </method>'',
      '''',
      ''    <method name="ConnectInteractive">'',
      ''      <arg name="connection" type="a{sa{sv}}" direction="in"/>'',
      ''      <arg name="details" type="a{sv}" direction="in"/>'',
      ''    </method>'',
      '''',
      ''    <method name="NeedSecrets">'',
      ''      <arg name="settings" type="a{sa{sv}}" direction="in"/>'',
      ''      <arg name="setting_name" type="s" direction="out"/>'',
      ''    </method>'',
      '''',
      ''    <method name="Disconnect"/>'',
      '''',
      ''    <method name="SetConfig">'',
      ''      <arg name="config" type="a{sv}" direction="in"/>'',
      ''    </method>'',
      '''',
      ''    <method name="SetIp4Config">'',
      ''      <arg name="config" type="a{sv}" direction="in"/>'',
      ''    </method>'',
      '''',
      ''    <method name="SetIp6Config">'',
      ''      <arg name="config" type="a{sv}" direction="in"/>'',
      ''    </method>'',
      '''',
      ''    <method name="SetFailure">'',
      ''      <arg name="reason" type="s" direction="in"/>'',
      ''    </method>'',
      '''',
      ''    <property name="State" type="u" access="read"/>'',
      '''',
      ''    <signal name="StateChanged">'',
      ''      <arg name="state" type="u"/>'',
      ''    </signal>'',
      '''',
      ''    <signal name="SecretsRequired">'',
      ''      <arg name="message" type="s"/>'',
      ''      <arg name="secrets" type="as"/>'',
      ''    </signal>'',
      '''',
      ''    <method name="NewSecrets">'',
      ''      <arg name="connection" type="a{sa{sv}}" direction="in"/>'',
      ''    </method>'',
      '''',
      ''    <signal name="Config">'',
      ''      <arg name="config" type="a{sv}"/>'',
      ''    </signal>'',
      '''',
      ''    <signal name="Ip4Config">'',
      ''      <arg name="ip4config" type="a{sv}"/>'',
      ''    </signal>'',
      '''',
      ''    <signal name="Ip6Config">'',
      ''      <arg name="ip6config" type="a{sv}"/>'',
      ''    </signal>'',
      '''',
      ''    <signal name="LoginBanner">'',
      ''      <arg name="banner" type="s"/>'',
      ''    </signal>'',
      '''',
      ''    <signal name="Failure">'',
      ''      <arg name="reason" type="u"/>'',
      ''    </signal>'',
      ''  </interface>'',
      ''</node>'']\<close>

definition IntrospectionXML :: string where
  "IntrospectionXML = join [CHR 10] introspection_lines"

subsection \<open>Messages\<close>

definition ObjectPath :: string where
  "ObjectPath = ''/org/freedesktop/NetworkManager/VPN/Plugin''"

text \<open>The Go values that travel in messages, by the Go type the program gives them.\<close>

datatype wire_value =
    WUint32 "32 word"
  | WString string
  | WStrings "string list"
  | WVariant gval
  | WVariantMap variant_map
  | WConnectionSettings connection_settings

text \<open>A signal as \<open>conn.Emit\<close> gets it: the path, the interface and name, and the arguments.\<close>

fun emit_message :: "signal \<Rightarrow> string \<times> string \<times> wire_value list" where
  "emit_message (StateChanged st) = (ObjectPath, Interface @ ''.'' @ ''StateChanged'', [WUint32 st])"
| "emit_message (PropertiesChanged changed) =
     (ObjectPath, PropertiesInterface @ ''.PropertiesChanged'', [WString Interface, WVariantMap changed, WStrings []])"
| "emit_message (SecretsRequired message secrets) =
     (ObjectPath, Interface @ ''.'' @ ''SecretsRequired'', [WString message, WStrings secrets])"
| "emit_message (Config config) = (ObjectPath, Interface @ ''.'' @ ''Config'', [WVariantMap config])"
| "emit_message (Ip4Config config) = (ObjectPath, Interface @ ''.'' @ ''Ip4Config'', [WVariantMap config])"
| "emit_message (Ip6Config config) = (ObjectPath, Interface @ ''.'' @ ''Ip6Config'', [WVariantMap config])"
| "emit_message (LoginBanner banner) = (ObjectPath, Interface @ ''.'' @ ''LoginBanner'', [WString banner])"
| "emit_message (Failure reason) = (ObjectPath, Interface @ ''.'' @ ''Failure'', [WUint32 reason])"

subsection \<open>Calls\<close>

text \<open>
  The calls of exported methods, each with the arguments of its Go method, and how each is named in a message.
\<close>

datatype dbus_call =
    CallConnect connection_settings
  | CallConnectInteractive connection_settings variant_map
  | CallNeedSecrets connection_settings
  | CallNewSecrets connection_settings
  | CallDisconnect
  | CallSetConfig variant_map
  | CallSetIp4Config variant_map
  | CallSetIp6Config variant_map
  | CallSetFailure string
  | CallGet string string
  | CallGetAll string
  | CallSet string string gval
  | CallIntrospect

fun call_message :: "dbus_call \<Rightarrow> string \<times> string \<times> wire_value list" where
  "call_message (CallConnect c) = (Interface, ''Connect'', [WConnectionSettings c])"
| "call_message (CallConnectInteractive c d) =
     (Interface, ''ConnectInteractive'', [WConnectionSettings c, WVariantMap d])"
| "call_message (CallNeedSecrets c) = (Interface, ''NeedSecrets'', [WConnectionSettings c])"
| "call_message (CallNewSecrets c) = (Interface, ''NewSecrets'', [WConnectionSettings c])"
| "call_message CallDisconnect = (Interface, ''Disconnect'', [])"
| "call_message (CallSetConfig c) = (Interface, ''SetConfig'', [WVariantMap c])"
| "call_message (CallSetIp4Config c) = (Interface, ''SetIp4Config'', [WVariantMap c])"
| "call_message (CallSetIp6Config c) = (Interface, ''SetIp6Config'', [WVariantMap c])"
| "call_message (CallSetFailure r) = (Interface, ''SetFailure'', [WString r])"
| "call_message (CallGet i p) = (PropertiesInterface, ''Get'', [WString i, WString p])"
| "call_message (CallGetAll i) = (PropertiesInterface, ''GetAll'', [WString i])"
| "call_message (CallSet i p v) = (PropertiesInterface, ''Set'', [WString i, WString p, WVariant v])"
| "call_message CallIntrospect = (''org.freedesktop.DBus.Introspectable'', ''Introspect'', [])"

text \<open>
  The answer to a call, an error or the results in order, and the attempt for which a goroutine
  was started, if any.
\<close>

type_synonym dbus_answer = "dbus_error + wire_value list"

definition no_result :: "dbus_error option \<Rightarrow> dbus_answer" where
  "no_result err = (case err of Some e \<Rightarrow> Inl e | None \<Rightarrow> Inr [])"

definition one_result :: "('a \<Rightarrow> wire_value) \<Rightarrow> dbus_error + 'a \<Rightarrow> dbus_answer" where
  "one_result w r = (case r of Inl e \<Rightarrow> Inl e | Inr v \<Rightarrow> Inr [w v])"

fun handle_call ::
  "('h, 'd) runtime \<Rightarrow> dbus_call \<Rightarrow> ('h, 'd) go \<Rightarrow> (dbus_answer \<times> activationAttempt option) \<times> ('h, 'd) go" where
  "handle_call rt (CallConnect c) g =
     (case Connect rt c g of ((err, att), g) \<Rightarrow> ((no_result err, att), g))"
| "handle_call rt (CallConnectInteractive c d) g =
     (case ConnectInteractive rt c d g of ((err, att), g) \<Rightarrow> ((no_result err, att), g))"
| "handle_call rt (CallNeedSecrets c) g = ((Inr [WString (NeedSecrets c)], None), g)"
| "handle_call rt (CallNewSecrets c) g = ((Inr [], None), locked_do rt (NewSecrets c) g)"
| "handle_call rt CallDisconnect g = (case Disconnect rt g of (err, g) \<Rightarrow> ((no_result err, None), g))"
| "handle_call rt (CallSetConfig c) g = (case SetConfig c g of (err, g) \<Rightarrow> ((no_result err, None), g))"
| "handle_call rt (CallSetIp4Config c) g = (case SetIp4Config c g of (err, g) \<Rightarrow> ((no_result err, None), g))"
| "handle_call rt (CallSetIp6Config c) g = (case SetIp6Config c g of (err, g) \<Rightarrow> ((no_result err, None), g))"
| "handle_call rt (CallSetFailure r) g = ((Inr [], None), SetFailure rt r g)"
| "handle_call rt (CallGet i p) g =
     (case locked rt (\<lambda>s. (Properties_Get s i p, s)) g of (r, g) \<Rightarrow> ((one_result WVariant r, None), g))"
| "handle_call rt (CallGetAll i) g =
     (case locked rt (\<lambda>s. (Properties_GetAll s i, s)) g of (r, g) \<Rightarrow> ((one_result WVariantMap r, None), g))"
| "handle_call rt (CallSet i p v) g = ((Inl (Properties_Set i p v), None), g)"
| "handle_call rt CallIntrospect g = ((Inr [WString IntrospectionXML], None), g)"

section \<open>What the document declares\<close>

text \<open>The D-Bus type of the values: \<open>u\<close> an unsigned 32-bit number, \<open>s\<close> a string, \<open>v\<close> a variant, \<open>a\<close> an array, braces a dictionary entry.\<close>

fun signature_of :: "wire_value \<Rightarrow> string" where
  "signature_of (WUint32 _) = ''u''"
| "signature_of (WString _) = ''s''"
| "signature_of (WStrings _) = ''as''"
| "signature_of (WVariant _) = ''v''"
| "signature_of (WVariantMap _) = ''a{sv}''"
| "signature_of (WConnectionSettings _) = ''a{sa{sv}}''"

text \<open>The type of a value inside a variant, for the types a property can have here.\<close>

fun variant_signature :: "gval \<Rightarrow> string" where
  "variant_signature (VUint32 _) = ''u''"
| "variant_signature (VString _) = ''s''"
| "variant_signature (VBool _) = ''b''"
| "variant_signature _ = ''?''"

text \<open>The tags of a document without text between them: the words between angle brackets.\<close>

fun xml_tags :: "string \<Rightarrow> string option \<Rightarrow> string list option" where
  "xml_tags [] inside = (if inside = None then Some [] else None)"
| "xml_tags (c # cs) None =
     (if c = CHR ''<'' then xml_tags cs (Some [])
      else if c = CHR '' '' \<or> c = CHR 10 then xml_tags cs None else None)"
| "xml_tags (c # cs) (Some tag) =
     (if c = CHR ''>'' then map_option (Cons (rev tag)) (xml_tags cs None) else xml_tags cs (Some (c # tag)))"

fun xml_attributes :: "string list \<Rightarrow> (string \<times> string) list" where
  "xml_attributes (k # v # rest) = (filter (\<lambda>c. c \<noteq> CHR '' '' \<and> c \<noteq> CHR ''='') k, v) # xml_attributes rest"
| "xml_attributes _ = []"

datatype xml_tag =
    Prolog
  | Opening string "(string \<times> string) list"
  | EmptyElement string "(string \<times> string) list"
  | Closing string

definition read_tag :: "string \<Rightarrow> xml_tag" where
  "read_tag body =
     (if prefix ''?'' body then Prolog
      else if prefix ''/'' body then Closing (tl body)
      else
        (let parts = split_char (CHR 34) body;
             name = takeWhile (\<lambda>c. c \<noteq> CHR '' '') (hd parts);
             attributes = xml_attributes (drop (length name) (hd parts) # tl parts)
         in if suffix ''/'' body then EmptyElement name attributes else Opening name attributes))"

datatype dbus_decl =
    MethodDecl string string "string list" "string list"
  | SignalDecl string string "string list"
  | PropertyDecl string string string string

text \<open>
  The members of the interfaces in the order of the document. The state of the reader is what is open, a
  member with the arguments seen so far; a tag has no place in a document of another shape.
\<close>

datatype member =
    OpenMethod string "string list" "string list"
  | OpenSignal string "string list"

fun add_arg :: "(string \<times> string) list \<Rightarrow> member \<Rightarrow> member option" where
  "add_arg a (OpenMethod n ins outs) =
     (case map_of a ''type'' of
        None \<Rightarrow> None
      | Some t \<Rightarrow>
          if map_of a ''direction'' = Some ''in'' then Some (OpenMethod n (ins @ [t]) outs)
          else if map_of a ''direction'' = Some ''out'' then Some (OpenMethod n ins (outs @ [t])) else None)"
| "add_arg a (OpenSignal n args) = map_option (\<lambda>t. OpenSignal n (args @ [t])) (map_of a ''type'')"

fun close_member :: "string \<Rightarrow> member \<Rightarrow> string \<times> dbus_decl" where
  "close_member i (OpenMethod n ins outs) = (''method'', MethodDecl i n ins outs)"
| "close_member i (OpenSignal n args) = (''signal'', SignalDecl i n args)"

datatype reader =
    BeforeNode
  | InNode
  | InInterface string
  | InMember string member
  | AfterNode

fun read_decl :: "reader \<Rightarrow> xml_tag \<Rightarrow> (dbus_decl list \<times> reader) option" where
  "read_decl BeforeNode Prolog = Some ([], BeforeNode)"
| "read_decl BeforeNode (Opening e a) = (if e = ''node'' then Some ([], InNode) else None)"
| "read_decl InNode (Opening e a) =
     (case map_of a ''name'' of
        Some i \<Rightarrow> if e = ''interface'' then Some ([], InInterface i) else None | None \<Rightarrow> None)"
| "read_decl InNode (Closing e) = (if e = ''node'' then Some ([], AfterNode) else None)"
| "read_decl (InInterface i) (Opening e a) =
     (case map_of a ''name'' of
        Some n \<Rightarrow>
          if e = ''method'' then Some ([], InMember i (OpenMethod n [] []))
          else if e = ''signal'' then Some ([], InMember i (OpenSignal n [])) else None
      | None \<Rightarrow> None)"
| "read_decl (InInterface i) (EmptyElement e a) =
     (case (map_of a ''name'', map_of a ''type'', map_of a ''access'') of
        (Some n, None, None) \<Rightarrow>
          if e = ''method'' then Some ([MethodDecl i n [] []], InInterface i)
          else if e = ''signal'' then Some ([SignalDecl i n []], InInterface i) else None
      | (Some n, Some t, Some acc) \<Rightarrow>
          if e = ''property'' then Some ([PropertyDecl i n t acc], InInterface i) else None
      | _ \<Rightarrow> None)"
| "read_decl (InInterface i) (Closing e) = (if e = ''interface'' then Some ([], InNode) else None)"
| "read_decl (InMember i m) (EmptyElement e a) =
     (if e = ''arg'' then map_option (\<lambda>m'. ([], InMember i m')) (add_arg a m) else None)"
| "read_decl (InMember i m) (Closing e) =
     (case close_member i m of (e', d) \<Rightarrow> if e = e' then Some ([d], InInterface i) else None)"
| "read_decl _ _ = None"

fun read_decls :: "reader \<Rightarrow> xml_tag list \<Rightarrow> dbus_decl list option" where
  "read_decls r [] = (if r = AfterNode then Some [] else None)"
| "read_decls r (t # ts) =
     (case read_decl r t of
        None \<Rightarrow> None
      | Some (ds, r') \<Rightarrow> map_option (append ds) (read_decls r' ts))"

definition read_introspection :: "string \<Rightarrow> dbus_decl list option" where
  "read_introspection xml =
     (case xml_tags xml None of
        None \<Rightarrow> None
      | Some tags \<Rightarrow> read_decls BeforeNode (map read_tag tags))"

text \<open>The methods, signals and properties among the members, and how a call and a signal are typed.\<close>

fun declared_methods :: "dbus_decl list \<Rightarrow> (string \<times> string \<times> string list) list" where
  "declared_methods [] = []"
| "declared_methods (MethodDecl i n ins outs # ds) = (i, n, ins) # declared_methods ds"
| "declared_methods (_ # ds) = declared_methods ds"

fun declared_signals :: "dbus_decl list \<Rightarrow> (string \<times> string list) list" where
  "declared_signals [] = []"
| "declared_signals (SignalDecl i n args # ds) = (i @ ''.'' @ n, args) # declared_signals ds"
| "declared_signals (_ # ds) = declared_signals ds"

fun declared_properties :: "string \<Rightarrow> dbus_decl list \<Rightarrow> (string \<times> string \<times> string) list" where
  "declared_properties i [] = []"
| "declared_properties i (PropertyDecl j n t acc # ds) =
     (if i = j then [(n, t, acc)] else []) @ declared_properties i ds"
| "declared_properties i (_ # ds) = declared_properties i ds"

definition call_signature :: "dbus_call \<Rightarrow> string \<times> string \<times> string list" where
  "call_signature call = (case call_message call of (i, n, args) \<Rightarrow> (i, n, map signature_of args))"

definition signal_signature :: "signal \<Rightarrow> string \<times> string list" where
  "signal_signature sig = (case emit_message sig of (path, name, vs) \<Rightarrow> (name, map signature_of vs))"


section \<open>Lemmas\<close>

definition plugin_declarations :: "dbus_decl list" where
  "plugin_declarations =
     [MethodDecl ''org.freedesktop.DBus.Introspectable'' ''Introspect'' [] [''s''],
      MethodDecl PropertiesInterface ''Get'' [''s'', ''s''] [''v''],
      MethodDecl PropertiesInterface ''GetAll'' [''s''] [''a{sv}''],
      MethodDecl PropertiesInterface ''Set'' [''s'', ''s'', ''v''] [],
      SignalDecl PropertiesInterface ''PropertiesChanged'' [''s'', ''a{sv}'', ''as''],
      MethodDecl Interface ''Connect'' [''a{sa{sv}}''] [],
      MethodDecl Interface ''ConnectInteractive'' [''a{sa{sv}}'', ''a{sv}''] [],
      MethodDecl Interface ''NeedSecrets'' [''a{sa{sv}}''] [''s''],
      MethodDecl Interface ''Disconnect'' [] [],
      MethodDecl Interface ''SetConfig'' [''a{sv}''] [],
      MethodDecl Interface ''SetIp4Config'' [''a{sv}''] [],
      MethodDecl Interface ''SetIp6Config'' [''a{sv}''] [],
      MethodDecl Interface ''SetFailure'' [''s''] [],
      PropertyDecl Interface ''State'' ''u'' ''read'',
      SignalDecl Interface ''StateChanged'' [''u''],
      SignalDecl Interface ''SecretsRequired'' [''s'', ''as''],
      MethodDecl Interface ''NewSecrets'' [''a{sa{sv}}''] [],
      SignalDecl Interface ''Config'' [''a{sv}''],
      SignalDecl Interface ''Ip4Config'' [''a{sv}''],
      SignalDecl Interface ''Ip6Config'' [''a{sv}''],
      SignalDecl Interface ''LoginBanner'' [''s''],
      SignalDecl Interface ''Failure'' [''u'']]"

text \<open>The document is read line by line: no tag runs over the end of a line.\<close>

lemma xml_tags_append:
  "xml_tags xs inside = Some ts \<Longrightarrow> xml_tags (xs @ ys) inside = map_option (append ts) (xml_tags ys None)"
  by (induction xs inside arbitrary: ts rule: xml_tags.induct; cases "xml_tags ys None")
    (auto split: if_splits)

lemma xml_tags_lines:
  "list_all2 (\<lambda>l ts. xml_tags l None = Some ts) ls tss \<Longrightarrow> xml_tags (join [CHR 10] ls) None = Some (concat tss)"
proof (induction "[CHR 10]" ls arbitrary: tss rule: join.induct)
  case (3 l l' ls)
  then obtain ts tss' where tss: "tss = ts # tss'" "xml_tags l None = Some ts"
    and "list_all2 (\<lambda>l ts. xml_tags l None = Some ts) (l' # ls) tss'"
    using list_all2_Cons1 [THEN iffD1, OF 3(2)] by blast
  from 3(1) [OF this(3)] tss show ?case
    by (simp add: xml_tags_append)
qed (auto simp: list_all2_Cons1)

lemma xml_tags_document:
  "those (map (\<lambda>l. xml_tags l None) ls) = Some tss \<Longrightarrow> xml_tags (join [CHR 10] ls) None = Some (concat tss)"
  by (rule xml_tags_lines, induction ls arbitrary: tss) (auto split: option.splits)

definition introspection_tags :: "string list list" where
  "introspection_tags = map (\<lambda>l. if l = [] then [] else [takeWhile (\<lambda>c. c \<noteq> CHR ''>'') (tl (dropWhile (\<lambda>c. c \<noteq> CHR ''<'') l))])
     introspection_lines"

lemma lines_tags: "those (map (\<lambda>l. xml_tags l None) introspection_lines) = Some introspection_tags"
  by code_simp

lemma read_tags: "read_decls BeforeNode (map read_tag (concat introspection_tags)) = Some plugin_declarations"
  by code_simp

lemma read_plugin: "read_introspection IntrospectionXML = Some plugin_declarations"
  by (simp add: read_introspection_def IntrospectionXML_def xml_tags_document [OF lines_tags] read_tags)

lemmas surface_defs = plugin_declarations_def no_result_def one_result_def

lemma member_names:
  "Interface \<noteq> PropertiesInterface" "PropertiesInterface \<noteq> Interface"
  "Interface \<noteq> ''org.freedesktop.DBus.Introspectable''" "PropertiesInterface \<noteq> ''org.freedesktop.DBus.Introspectable''"
  by (simp_all add: Interface_def PropertiesInterface_def)

lemma handle_call_outcome:
  "case (call_message call, fst (fst (handle_call rt call g))) of
     ((i, n, args), Inr rs) \<Rightarrow>
       MethodDecl i n (map signature_of args) (map signature_of rs) \<in> set plugin_declarations
   | ((i, n, args), Inl e) \<Rightarrow>
       dbus_name e \<in> {dbusErrorVPNAlreadyActive, dbusErrorVPNFailed, dbusErrorUnknownInterface,
                      dbusErrorUnknownProperty, dbusErrorPropertyReadOnly}"
  by (cases call)
    (auto simp: surface_defs Connect_def ConnectInteractive_def startActivation_def reserveActivation_def
      Disconnect_def SetConfig_def SetIp4Config_def SetIp6Config_def Properties_Get_def Properties_GetAll_def
      Properties_Set_def newDBusError_def locked_def Let_def
      split: prod.splits option.splits sum.splits if_splits)

lemma call_signatures:
  "set (declared_methods plugin_declarations) = range call_signature"
proof
  have "declared_methods plugin_declarations = map call_signature
      [CallIntrospect, CallGet [] [], CallGetAll [], CallSet [] [] VOther, CallConnect [], CallConnectInteractive [] [],
       CallNeedSecrets [], CallDisconnect, CallSetConfig [], CallSetIp4Config [], CallSetIp6Config [],
       CallSetFailure [], CallNewSecrets []]"
    by (simp add: plugin_declarations_def call_signature_def)
  then show "set (declared_methods plugin_declarations) \<subseteq> range call_signature"
    by (simp only: set_map image_mono subset_UNIV)
  have "call_signature call \<in> set (declared_methods plugin_declarations)" for call
    by (cases call) (simp_all add: plugin_declarations_def call_signature_def)
  then show "range call_signature \<subseteq> set (declared_methods plugin_declarations)"
    by blast
qed

lemma signal_signatures:
  "set (declared_signals plugin_declarations) = range signal_signature"
proof
  have "declared_signals plugin_declarations = map signal_signature
      [PropertiesChanged [], StateChanged 0, SecretsRequired [] [], Config [], Ip4Config [], Ip6Config [],
       LoginBanner [], Failure 0]"
    by (simp add: plugin_declarations_def signal_signature_def)
  then show "set (declared_signals plugin_declarations) \<subseteq> range signal_signature"
    by (simp only: set_map image_mono subset_UNIV)
  have "signal_signature sig \<in> set (declared_signals plugin_declarations)" for sig
    by (cases sig) (simp_all add: plugin_declarations_def signal_signature_def)
  then show "range signal_signature \<subseteq> set (declared_signals plugin_declarations)"
    by blast
qed

section \<open>Properties\<close>

text \<open>
  C12: the object does what it declares. The methods in the introspection document are exactly those the object is
  exported with, with the types of their arguments; and a call of any of them, in any state of the service and
  whatever happens around it, is answered with results of the declared types or with one of the
  D-Bus errors of the program.
\<close>

theorem calls_have_declared_types:
  "case read_introspection IntrospectionXML of
     None \<Rightarrow> False
   | Some ds \<Rightarrow>
       set (declared_methods ds) = range call_signature \<and>
       (\<forall>rt call g.
          case (call_message call, fst (fst (handle_call rt call g))) of
            ((i, n, args), Inr rs) \<Rightarrow> MethodDecl i n (map signature_of args) (map signature_of rs) \<in> set ds
          | ((i, n, args), Inl e) \<Rightarrow>
              dbus_name e \<in> {dbusErrorVPNAlreadyActive, dbusErrorVPNFailed, dbusErrorUnknownInterface,
                             dbusErrorUnknownProperty, dbusErrorPropertyReadOnly})"
  unfolding read_plugin option.case by (intro conjI allI call_signatures handle_call_outcome)

end
