(* ===== verification/Phases.thy ===== *)
theory Phases
  imports Interleaving
begin

text \<open>
  What the service promises, without its fields: an abstract machine whose state is the phase the
  service is in. The locked regions of theory \<open>Lifecycle\<close>, in any interleaving, are shown to be
  steps of this machine or to leave the phase alone. Over infinite runs in which every activation
  goroutine ends some day, an attempt ends in a session or in nothing, and a stopped one in nothing.
\<close>

section \<open>Abstraction of a step relation\<close>

text \<open>
  A function on states that sends the steps of one relation to steps of another or to none, where
  the first starts from states it sends to starting states.
\<close>

locale abstraction =
  fixes start :: "'s \<Rightarrow> bool" and step :: "'s \<Rightarrow> 's \<Rightarrow> bool"
    and astart :: "'a \<Rightarrow> bool" and astep :: "'a \<Rightarrow> 'a \<Rightarrow> bool" and abs :: "'s \<Rightarrow> 'a"
  assumes abs_start: "start s \<Longrightarrow> astart (abs s)"
    and abs_step: "reach start step s \<Longrightarrow> step s t \<Longrightarrow> abs t = abs s \<or> astep (abs s) (abs t)"
begin

lemma abs_reach: "reach start step s \<Longrightarrow> reach astart astep (abs s)"
  by (induction rule: reach.induct) (metis abs_start reach_start, metis abs_step reach.reach_step)

lemma abs_steps:
  assumes "reach start step s" "step\<^sup>*\<^sup>* s t"
  shows "reach start step t \<and> astep\<^sup>*\<^sup>* (abs s) (abs t)"
  using assms(2)
proof (induction rule: rtranclp_induct)
  case (step t u)
  then show ?case
    using abs_step [of t u] reach_step [of start step t u] rtranclp.rtrancl_into_rtrancl [of astep "abs s" "abs t" "abs u"]
    by auto
qed (simp add: assms(1))

text \<open>Along an infinite run, a property of phases that only some steps can end holds until one of these is taken.\<close>

lemma abs_until:
  assumes "\<And>k. reach start step (r k)" "\<And>k. step (r k) (r (Suc k))"
    and keep: "\<And>a b. P a \<Longrightarrow> astep a b \<Longrightarrow> P b \<or> Q b"
    and "P (abs (r n))" "n \<le> k" "\<not> P (abs (r k))"
  shows "\<exists>j. n < j \<and> j \<le> k \<and> Q (abs (r j)) \<and> (\<forall>i. n \<le> i \<and> i < j \<longrightarrow> P (abs (r i)))"
proof -
  define j where "j = (LEAST j. n \<le> j \<and> \<not> P (abs (r j)))"
  have j: "n \<le> j" "\<not> P (abs (r j))" "j \<le> k"
    using LeastI [of "\<lambda>j. n \<le> j \<and> \<not> P (abs (r j))" k] Least_le [of "\<lambda>j. n \<le> j \<and> \<not> P (abs (r j))" k] assms(5,6)
    by (auto simp: j_def)
  have before: "P (abs (r i))" if "n \<le> i" "i < j" for i
    using not_less_Least [of i "\<lambda>j. n \<le> j \<and> \<not> P (abs (r j))"] that by (auto simp: j_def)
  have "n < j"
    using j(1,2) assms(4) le_neq_implies_less by blast
  then obtain i where i: "j = Suc i" "n \<le> i"
    by (cases j) auto
  then have "Q (abs (r j))"
    using abs_step [OF assms(1,2)] keep before [of i] j(2) by (metis lessI)
  then show ?thesis
    using \<open>n < j\<close> j(3) before by blast
qed

end

section \<open>Phases\<close>

text \<open>
  Nothing to do; an attempt by its context and identifier, with whether it was told to stop and whether it
  waits for an answer from the user; or a session, with its client, profile and number.
\<close>

datatype 'h phase =
    Idle
  | Attempt nat "64 word" bool bool
  | Session 'h profile_ref "64 word"

inductive phase_step :: "'h phase \<Rightarrow> 'h phase \<Rightarrow> bool" where
  phase_begin: "phase_step Idle (Attempt c i False False)"
| phase_ask: "phase_step (Attempt c i b False) (Attempt c i b True)"
| phase_answer: "phase_step (Attempt c i b True) (Attempt c i b False)"
| phase_stop: "phase_step (Attempt c i b a) (Attempt c i True a)"
| phase_stop_asking: "phase_step (Attempt c i b a) (Attempt c i True False)"
| phase_fail: "phase_step (Attempt c i b a) Idle"
| phase_succeed: "phase_step (Attempt c i False a) (Session h p n)"
| phase_end: "phase_step (Session h p n) Idle"

inductive_cases phase_stepE: "phase_step p q"

inductive_simps phase_step_simps [simp]:
  "phase_step Idle q"
  "phase_step (Attempt c i b a) q"
  "phase_step (Session h p n) q"

definition phase_of :: "('h, 'd) system \<Rightarrow> 'h phase" where
  "phase_of m =
     (case running m of
        (c, i) # _ \<Rightarrow> Attempt c i (c \<in> cancelled (sys_svc m)) (svc_prompt (sys_svc m) \<noteq> None)
      | [] \<Rightarrow>
          (case svc_client (sys_svc m) of
             Some h \<Rightarrow> Session h (activeProfile (sys_svc m)) (sessionID (sys_svc m))
           | None \<Rightarrow> Idle))"

text \<open>What the calls that end things do to the phase.\<close>

fun phase_disconnect :: "'h phase \<Rightarrow> 'h phase" where
  "phase_disconnect (Attempt c i b a) = Attempt c i True False"
| "phase_disconnect _ = Idle"

fun phase_set_failure :: "'h phase \<Rightarrow> 'h phase" where
  "phase_set_failure (Attempt c i b a) = Attempt c i True False"
| "phase_set_failure p = p"

section \<open>Lemmas\<close>

lemma sys_inv_cases:
  assumes "sys_inv m"
  obtains (attempt) c i where "running m = [(c, i)]" "activating (sys_svc m)" "activationCancel (sys_svc m) = Some c"
      "svc_client (sys_svc m) = None" "monitorCancel (sys_svc m) = None"
    | (none) "running m = []" "\<not> activating (sys_svc m)" "activationCancel (sys_svc m) = None"
  using assms no_client_no_monitor [OF assms] by (auto simp: inv_defs split: if_splits)

lemma phase_fields:
  assumes "running m' = running m"
    and "svc_client (sys_svc m') = svc_client (sys_svc m)" "activeProfile (sys_svc m') = activeProfile (sys_svc m)"
    and "sessionID (sys_svc m') = sessionID (sys_svc m)" "svc_prompt (sys_svc m') = svc_prompt (sys_svc m)"
    and "cancelled (sys_svc m') = cancelled (sys_svc m)"
  shows "phase_of m' = phase_of m"
  using assms by (auto simp: phase_of_def split: list.split option.split)

lemma phase_disconnectLocked:
  assumes "sys_inv m"
  shows "phase_of (m\<lparr>sys_svc := snd (disconnectLocked (sys_svc m))\<rparr>) = phase_disconnect (phase_of m)"
  using assms
  by (cases rule: sys_inv_cases)
    (auto simp: phase_of_def disconnectLocked_def Let_def cancel_if_def cancel_ctx_def split: option.splits)

lemma phase_setFailureLocked:
  assumes "sys_inv m"
  shows "phase_of (m\<lparr>sys_svc := setFailureLocked (sys_svc m)\<rparr>) = phase_set_failure (phase_of m)"
  using assms
  by (cases rule: sys_inv_cases)
    (auto simp: phase_of_def setFailureLocked_def Let_def cancel_if_def cancel_ctx_def split: option.splits)

lemma phase_of_reserve:
  assumes "sys_inv m" "reserveActivation (sys_svc m) = (Inr (c, i), s)"
  shows "phase_of m = Idle \<and>
    phase_of (m\<lparr>sys_svc := s, running := (c, i) # running m, contexts := insert c (contexts m)\<rparr>) = Attempt c i False False"
proof -
  have "next_ref (sys_svc m) \<notin> cancelled (sys_svc m)"
    using assms(1) by (auto simp: inv_defs)
  then show ?thesis
    using assms by (auto simp: reserveActivation_def Let_def phase_of_def inv_defs split: if_splits)
qed

lemma phase_of_complete:
  assumes "sys_inv m" "(c, i) \<in> set (running m)" "completeActivation c h prof (sys_svc m) = (Some sid, s)"
  shows "\<exists>a. phase_of m = Attempt c i False a \<and>
    phase_of (m\<lparr>sys_svc := s, running := remove1 (c, i) (running m)\<rparr>) = Session h prof sid"
proof -
  from assms(2) have "running m \<noteq> []"
    by auto
  with assms(1) obtain c' i' where m: "running m = [(c', i')]" "monitorCancel (sys_svc m) = None"
    by (cases rule: sys_inv_cases) auto
  with assms(2) have "running m = [(c, i)]"
    by simp
  then show ?thesis
    using m(2) assms(3)
    by (auto simp: phase_of_def completeActivation_def startMonitorLocked_def cancel_if_def Let_def split: if_splits)
qed

lemma phase_of_finish:
  assumes "sys_inv m" "(c, i) \<in> set (running m)"
  shows "\<exists>b a. phase_of m = Attempt c i b a \<and>
    phase_of (m\<lparr>sys_svc := finishFailedActivation (sys_svc m), running := remove1 (c, i) (running m)\<rparr>) = Idle"
  using assms by (cases rule: sys_inv_cases) (auto simp: phase_of_def finishFailedActivation_def)

lemma phase_of_cancel:
  assumes "sys_inv m"
  shows "phase_of (m\<lparr>sys_svc := cancel_ctx c (sys_svc m)\<rparr>) = phase_of m \<or>
    phase_step (phase_of m) (phase_of (m\<lparr>sys_svc := cancel_ctx c (sys_svc m)\<rparr>))"
  using assms by (cases rule: sys_inv_cases) (auto simp: phase_of_def cancel_ctx_def split: option.split)

lemma phase_of_no_prompt:
  assumes "sys_inv m"
  shows "phase_of (m\<lparr>sys_svc := (sys_svc m)\<lparr>svc_prompt := None\<rparr>\<rparr>) = phase_of m \<or>
    phase_step (phase_of m) (phase_of (m\<lparr>sys_svc := (sys_svc m)\<lparr>svc_prompt := None\<rparr>\<rparr>))"
  using assms by (cases rule: sys_inv_cases) (auto simp: phase_of_def split: option.split)

lemma phase_step_disconnect: "p = phase_disconnect p \<or> phase_step p (phase_disconnect p)"
  by (cases p) auto

lemma phase_step_set_failure: "p = phase_set_failure p \<or> phase_step p (phase_set_failure p)"
  by (cases p) auto

lemma phase_of_secrets:
  assumes "sys_inv m"
  shows "phase_of (m\<lparr>sys_svc := NewSecrets connection (sys_svc m)\<rparr>) = phase_of m \<or>
    phase_step (phase_of m) (phase_of (m\<lparr>sys_svc := NewSecrets connection (sys_svc m)\<rparr>))"
proof -
  have "phase_of (m\<lparr>sys_svc := send_result ch x ((sys_svc m)\<lparr>svc_prompt := None\<rparr>)\<rparr>) =
      phase_of (m\<lparr>sys_svc := (sys_svc m)\<lparr>svc_prompt := None\<rparr>\<rparr>)" for ch x
    by (rule phase_fields) (auto simp: send_result_def split: option.split)
  moreover have "m\<lparr>sys_svc := cancel_if (activationCancel (sys_svc m)) ((sys_svc m)\<lparr>svc_prompt := None\<rparr>)\<rparr> =
      m\<lparr>sys_svc := setFailureLocked (sys_svc m)\<rparr>"
    by (simp add: setFailureLocked_def cancel_if_def cancel_ctx_def split: option.split)
  ultimately show ?thesis
    using NewSecrets_effects [of connection "sys_svc m"] phase_of_no_prompt [OF assms]
      phase_setFailureLocked [OF assms] phase_step_set_failure [of "phase_of m"]
    by auto
qed

lemma phase_of_step:
  assumes "sys_inv m" "svc_step m m'"
  shows "phase_of m' = phase_of m \<or> phase_step (phase_of m) (phase_of m')"
  using assms(2)
proof cases
  case (step_reserve c i s)
  then show ?thesis
    using phase_of_reserve [OF assms(1)] by auto
next
  case (step_complete c i h prof sid s)
  then show ?thesis
    using phase_of_complete [OF assms(1)] by fastforce
next
  case (step_finish c i)
  then show ?thesis
    using phase_of_finish [OF assms(1)] by fastforce
next
  case (step_cancel c)
  then show ?thesis
    using phase_of_cancel [OF assms(1)] by simp
next
  case (step_late_cancel c)
  then show ?thesis
    using phase_of_cancel [OF assms(1)] by simp
next
  case (step_channel ch s)
  then show ?thesis
    by (intro disjI1 phase_fields) (auto simp: new_channel_def)
next
  case (step_prompt c i p)
  show ?thesis
    using assms(1) step_prompt by (cases rule: sys_inv_cases) (auto simp: phase_of_def registerActivationPrompt_def)
next
  case (step_receive ch)
  then show ?thesis
    by (intro disjI1 phase_fields) simp_all
next
  case (step_clear_prompt i)
  then show ?thesis
    using phase_of_no_prompt [OF assms(1)] by (auto simp: clearPromptForActivation_def split: option.split)
next
  case (step_secrets connection)
  then show ?thesis
    using phase_of_secrets [OF assms(1)] by simp
next
  case step_disconnect
  then show ?thesis
    using phase_disconnectLocked [OF assms(1)] phase_step_disconnect [of "phase_of m"] by auto
next
  case step_set_failure
  then show ?thesis
    using phase_setFailureLocked [OF assms(1)] phase_step_set_failure [of "phase_of m"] by auto
next
  case (step_state st)
  then show ?thesis
    by (intro disjI1 phase_fields) (auto simp: setStateValue_def)
next
  case (step_session_state sid st)
  then show ?thesis
    by (intro disjI1 phase_fields) (auto simp: setStateForActiveSessionLocked_def setStateValue_def split: prod.split)
next
  case (step_clear_session sid)
  show ?thesis
    using assms(1) step_clear_session
    by (cases rule: sys_inv_cases)
      (auto simp: phase_of_def clearActiveSessionLocked_def cancel_if_def cancel_ctx_def Let_def split: option.splits)
next
  case (step_threshold sid mc h changed s)
  show ?thesis
    using assms(1) step_threshold
    by (cases rule: sys_inv_cases)
      (auto simp: phase_of_def failActiveSessionLocked_def setStateValue_def split: option.splits if_splits)
next
  case (step_outside d)
  then show ?thesis
    by (intro disjI1 phase_fields) simp_all
qed

interpretation phases: abstraction sys_init svc_step "\<lambda>p. p = Idle" phase_step phase_of
proof unfold_locales
  fix m m' :: "('h, 'd) system"
  show "sys_init m \<Longrightarrow> phase_of m = Idle"
    by (auto simp: sys_init_def phase_of_def NewService_def)
  show "reachable m \<Longrightarrow> svc_step m m' \<Longrightarrow> phase_of m' = phase_of m \<or> phase_step (phase_of m) (phase_of m')"
    by (rule phase_of_step [OF lifecycle.inv_reach])
qed

subsection \<open>Runs\<close>

text \<open>
  An infinite run in which every activation goroutine leaves the slot some day. (Such a goroutine is a
  program that returns, and each of its calls and waits has a deadline.)
\<close>

definition fair_run :: "(nat \<Rightarrow> ('h, 'd) system) \<Rightarrow> bool" where
  "fair_run r \<longleftrightarrow>
     reachable (r 0) \<and> (\<forall>n. svc_step (r n) (r (Suc n))) \<and>
     (\<forall>n. \<forall>t \<in> set (running (r n)). \<exists>k \<ge> n. t \<notin> set (running (r k)))"

lemma fair_run_reachable: "fair_run r \<Longrightarrow> reachable (r n)"
  by (induction n) (auto simp: fair_run_def intro: reach_step)

lemma fair_run_step: "fair_run r \<Longrightarrow> svc_step (r n) (r (Suc n))"
  by (simp add: fair_run_def)

lemma attempt_running: "phase_of m = Attempt c i b a \<Longrightarrow> (c, i) \<in> set (running m)"
  by (auto simp: phase_of_def split: list.splits option.splits)

lemma attempt_leaves:
  assumes "fair_run r" "phase_of (r n) = Attempt c i b a"
  shows "\<exists>k \<ge> n. \<nexists>b a. phase_of (r k) = Attempt c i b a"
  using assms attempt_running unfolding fair_run_def by meson

lemma phase_granted:
  assumes "reachable m"
  shows "(\<exists>c i s. reserveActivation (sys_svc m) = (Inr (c, i), s)) \<longleftrightarrow> phase_of m = Idle"
  using lifecycle.inv_reach [OF assms]
  by (cases rule: sys_inv_cases) (auto simp: phase_of_def reserveActivation_def Let_def split: option.split)

lemma phase_client: "reachable m \<Longrightarrow> svc_client (sys_svc m) \<noteq> None \<longleftrightarrow> (\<exists>h p n. phase_of m = Session h p n)"
  by (drule lifecycle.inv_reach, erule sys_inv_cases) (auto simp: phase_of_def split: option.split)

text \<open>An attempt that was told to stop: it goes on as such until nothing is left.\<close>

lemma stopped_attempt_ends:
  fixes r :: "nat \<Rightarrow> ('h, 'd) system"
  assumes "fair_run r" "phase_of (r n) = Attempt c i True a"
  shows "\<exists>k > n. phase_of (r k) = Idle \<and> (\<forall>j. n \<le> j \<and> j < k \<longrightarrow> (\<exists>a. phase_of (r j) = Attempt c i True a))"
proof -
  obtain k where "k \<ge> n" "\<nexists>b a. phase_of (r k) = Attempt c i b a"
    using attempt_leaves [OF assms] by blast
  moreover have "(\<exists>a. q = Attempt c i True a) \<or> q = Idle"
    if "\<exists>a. p = Attempt c i True a" "phase_step p q" for p q :: "'h phase"
    using that by auto
  ultimately have "\<exists>j. n < j \<and> j \<le> k \<and> phase_of (r j) = Idle \<and>
      (\<forall>l. n \<le> l \<and> l < j \<longrightarrow> (\<exists>a. phase_of (r l) = Attempt c i True a))"
    by (intro phases.abs_until [of r "\<lambda>p. \<exists>a. p = Attempt c i True a"])
      (use assms fair_run_reachable fair_run_step in blast)+
  then show ?thesis
    by blast
qed

section \<open>Properties\<close>

text \<open>
  C2: the service refines its abstract machine. In every reachable state each locked region, whichever goroutine
  runs it, is a step of the machine of phases or leaves the phase alone: an attempt begins only from idle, a session
  only from an attempt that was not told to stop, it keeps its client, profile and number to its end, and what is told to stop ends
  in nothing. The slot is granted exactly in the idle phase, and \<open>Disconnect\<close> and \<open>SetFailure\<close> act as the
  functions \<open>phase_disconnect\<close> and \<open>phase_set_failure\<close>.
\<close>

theorem service_refines_phases:
  assumes "reachable m"
  shows "reach (\<lambda>p. p = Idle) phase_step (phase_of m) \<and>
    (\<forall>m'. svc_step m m' \<longrightarrow> phase_of m' = phase_of m \<or> phase_step (phase_of m) (phase_of m')) \<and>
    ((\<exists>c i s. reserveActivation (sys_svc m) = (Inr (c, i), s)) \<longleftrightarrow> phase_of m = Idle) \<and>
    phase_of (m\<lparr>sys_svc := snd (disconnectLocked (sys_svc m))\<rparr>) = phase_disconnect (phase_of m) \<and>
    phase_of (m\<lparr>sys_svc := setFailureLocked (sys_svc m)\<rparr>) = phase_set_failure (phase_of m)"
  using phases.abs_reach [OF assms] phases.abs_step [OF assms] phase_granted [OF assms]
    phase_disconnectLocked [OF lifecycle.inv_reach [OF assms]] phase_setFailureLocked [OF lifecycle.inv_reach [OF assms]]
  by blast

lemma service_refines_phases_witness:
  "phase_of (first_attempt () :: (nat, unit) system) = Attempt 0 1 False False \<and>
   phase_of ((first_attempt () :: (nat, unit) system)\<lparr>sys_svc := snd (disconnectLocked (sys_svc (first_attempt ())))\<rparr>) =
     Attempt 0 1 True False"
proof -
  have "phase_of (first_attempt () :: (nat, unit) system) = Attempt 0 1 False False"
    by (simp add: phase_of_def first_attempt_def NewService_def)
  then show ?thesis
    using service_refines_phases [OF first_attempt_reachable [of "()" , where 'h = nat]] by simp
qed

text \<open>
  C7: a disconnect leads to an idle service. In every infinite run in which activation goroutines end, after a
  Disconnect there comes a state in which a new activation is granted, and until then no session
  becomes active: neither the attempt that was in flight nor any later one can get in between.
\<close>

theorem disconnect_leads_to_idle:
  assumes "fair_run r" "r (Suc n) = (r n)\<lparr>sys_svc := snd (disconnectLocked (sys_svc (r n)))\<rparr>"
  shows "\<exists>k > n. (\<exists>c i s. reserveActivation (sys_svc (r k)) = (Inr (c, i), s)) \<and>
    (\<forall>j. n < j \<and> j \<le> k \<longrightarrow> svc_client (sys_svc (r j)) = None)"
proof -
  note reach = fair_run_reachable [OF assms(1)]
  have "phase_of (r (Suc n)) = phase_disconnect (phase_of (r n))"
    using phase_disconnectLocked [OF lifecycle.inv_reach [OF reach]] assms(2) by simp
  then consider "phase_of (r (Suc n)) = Idle" | c i where "phase_of (r (Suc n)) = Attempt c i True False"
    by (cases "phase_of (r n)") auto
  then show ?thesis
  proof cases
    case 1
    then show ?thesis
      using phase_granted [OF reach] phase_client [OF reach, of "Suc n"] le_antisym
      by (intro exI [of _ "Suc n"]) (auto simp: less_Suc_eq_le Suc_le_eq le_less)
  next
    case 2
    from stopped_attempt_ends [OF assms(1) this] obtain k where k: "k > Suc n" "phase_of (r k) = Idle"
        "\<forall>j. Suc n \<le> j \<and> j < k \<longrightarrow> (\<exists>a. phase_of (r j) = Attempt c i True a)"
      by blast
    have "svc_client (sys_svc (r j)) = None" if "n < j" "j \<le> k" for j
      using k(2,3) that phase_client [OF reach, of j] by (cases "j = k") (fastforce simp: Suc_le_eq)+
    then show ?thesis
      using k phase_granted [OF reach, of k] by (intro exI [of _ k]) auto
  qed
qed

definition disconnected_run :: "nat \<Rightarrow> (nat, unit) system" where
  "disconnected_run n =
     (let m0 = first_attempt (); m1 = m0\<lparr>sys_svc := snd (disconnectLocked (sys_svc m0))\<rparr>
      in if n = 0 then m0 else if n = 1 then m1
         else m1\<lparr>sys_svc := finishFailedActivation (sys_svc m1), running := []\<rparr>)"

lemma step_nothing: "svc_step m m"
  using step_outside [of m "outside (sys_svc m)"] by simp

lemma disconnected_run_fair: "fair_run disconnected_run"
proof -
  let ?m1 = "(first_attempt () :: (nat, unit) system)\<lparr>sys_svc := snd (disconnectLocked (sys_svc (first_attempt ())))\<rparr>"
  have "(0, 1) \<in> set (running ?m1)"
    by (simp add: first_attempt_def)
  from step_finish [OF this]
  have 1: "svc_step ?m1 (?m1\<lparr>sys_svc := finishFailedActivation (sys_svc ?m1), running := []\<rparr>)"
    by (simp add: first_attempt_def)
  have "svc_step (disconnected_run n) (disconnected_run (Suc n))" for n
    using step_disconnect [of "first_attempt () :: (nat, unit) system"] 1 step_nothing
    by (auto simp: disconnected_run_def Let_def)
  moreover have "running (disconnected_run (n + 2)) = []" for n
    by (simp add: disconnected_run_def Let_def)
  then have "\<exists>k \<ge> n. t \<notin> set (running (disconnected_run k))" for n t
    by (intro exI [of _ "n + 2"]) simp
  moreover have "reachable (disconnected_run 0)"
    using first_attempt_reachable by (simp add: disconnected_run_def Let_def)
  ultimately show ?thesis
    by (simp add: fair_run_def)
qed

lemma disconnect_leads_to_idle_witness:
  "\<exists>k > 0. svc_client (sys_svc (disconnected_run k)) = None"
  using disconnect_leads_to_idle [OF disconnected_run_fair, of 0] by (force simp: disconnected_run_def Let_def)

end
