(* ===== verification/Calls.thy ===== *)
theory Calls
  imports Surface Phases Monitor
begin

text \<open>
  The D-Bus calls and the monitors among the other goroutines. Like an activation (theory \<open>Interleaving\<close>)
  each of them acts on the service by steps of the relation \<open>svc_step\<close> only, if all others do: with
  the three kinds of goroutines shown to be paths of the relation, what holds in its reachable
  states holds of the program, and on the phases the program is the abstract machine of theory \<open>Phases\<close>.
\<close>

section \<open>Definitions\<close>

text \<open>What any goroutine may do to the service: some steps, whatever else is going on.\<close>

definition bystander :: "('h, 'd) service \<Rightarrow> ('h, 'd) service \<Rightarrow> bool" where
  "bystander s s' \<longleftrightarrow>
     (\<forall>m. reachable m \<and> sys_svc m = s \<longrightarrow> (\<exists>m'. svc_step\<^sup>*\<^sup>* m m' \<and> sys_svc m' = s'))"

section \<open>Lemmas\<close>

lemma bystanderD:
  assumes "bystander s s'" "reachable m" "sys_svc m = s"
  obtains m' where "svc_step\<^sup>*\<^sup>* m m'" "sys_svc m' = s'" "reachable m'"
  using assms reachable_steps unfolding bystander_def by blast

lemma bystander_refl: "bystander s s"
  unfolding bystander_def by blast

lemma bystander_trans:
  fixes s t u :: "('h, 'd) service"
  assumes "bystander s t" "bystander t u"
  shows "bystander s u"
  unfolding bystander_def
proof (intro allI impI, elim conjE)
  fix m :: "('h, 'd) system"
  assume m: "reachable m" "sys_svc m = s"
  then obtain m1 where m1: "svc_step\<^sup>*\<^sup>* m m1" "sys_svc m1 = t" "reachable m1"
    by (rule bystanderD [OF assms(1)])
  then obtain m2 where "svc_step\<^sup>*\<^sup>* m1 m2" "sys_svc m2 = u"
    using bystanderD [OF assms(2)] by blast
  then show "\<exists>m'. svc_step\<^sup>*\<^sup>* m m' \<and> sys_svc m' = u"
    using m1(1) rtranclp_trans [of svc_step m m1 m2] by blast
qed

lemma bystander_step:
  fixes s s' :: "('h, 'd) service"
  assumes "\<And>m. sys_svc m = s \<Longrightarrow> svc_step m (m\<lparr>sys_svc := s', running := R m, contexts := C m, late_cancels := L m\<rparr>)"
  shows "bystander s s'"
  unfolding bystander_def
proof (intro allI impI, elim conjE)
  fix m :: "('h, 'd) system"
  assume "sys_svc m = s"
  from r_into_rtranclp [of svc_step, OF assms [OF this]]
  show "\<exists>m'. svc_step\<^sup>*\<^sup>* m m' \<and> sys_svc m' = s'"
    by (intro exI [of _ "m\<lparr>sys_svc := s', running := R m, contexts := C m, late_cancels := L m\<rparr>"]) simp
qed

lemma bystander_region:
  fixes s s' :: "('h, 'd) service"
  assumes "\<And>m. sys_svc m = s \<Longrightarrow> svc_step m (m\<lparr>sys_svc := s'\<rparr>)"
  shows "bystander s s'"
  by (rule bystander_step [where R = running and C = contexts and L = late_cancels]) (simp add: assms)

lemma bystander_regions:
  "bystander s (snd (setStateValue st s))"
  "bystander s (NewSecrets connection s)"
  "bystander s (snd (disconnectLocked s))"
  "bystander s (setFailureLocked s)"
  "bystander s (snd (clearActiveSessionLocked sid s))"
proof -
  show "bystander s (snd (setStateValue st s))"
    by (rule bystander_region) (use step_state in auto)
  show "bystander s (NewSecrets connection s)"
    by (rule bystander_region) (use step_secrets in auto)
  show "bystander s (snd (disconnectLocked s))"
    by (rule bystander_region) (use step_disconnect in auto)
  show "bystander s (setFailureLocked s)"
    by (rule bystander_region) (use step_set_failure in auto)
  show "bystander s (snd (clearActiveSessionLocked sid s))"
    by (rule bystander_region) (use step_clear_session in auto)
qed

lemma bystander_reserve: "bystander s (snd (reserveActivation s))"
proof (cases "fst (reserveActivation s)")
  case (Inl e)
  then have "snd (reserveActivation s) = s"
    by (auto simp: reserveActivation_def Let_def split: if_splits)
  then show ?thesis
    by (simp add: bystander_refl)
next
  case (Inr ci)
  then have r: "reserveActivation s = (Inr (fst ci, snd ci), snd (reserveActivation s))"
    by (metis prod.collapse)
  show ?thesis
    by (rule bystander_step [where R = "\<lambda>m. ci # running m" and C = "\<lambda>m. insert (fst ci) (contexts m)" and L = late_cancels])
      (use step_reserve [where c = "fst ci" and i = "snd ci"] r in auto)
qed

text \<open>The failing of a session, with the cancelling of its monitor that follows.\<close>

lemma bystander_threshold:
  fixes s s' :: "('h, 'd) service"
  assumes "failActiveSessionLocked sid s = (Some (mc, client, changed), s')"
  shows "bystander s (cancel_if mc s')"
  unfolding bystander_def
proof (intro allI impI, elim conjE)
  fix m :: "('h, 'd) system"
  let ?m1 = "m\<lparr>sys_svc := s', late_cancels := set_option mc \<union> late_cancels m\<rparr>"
  assume "sys_svc m = s"
  then have 1: "svc_step\<^sup>*\<^sup>* m ?m1"
    using step_threshold assms by blast
  show "\<exists>m'. svc_step\<^sup>*\<^sup>* m m' \<and> sys_svc m' = cancel_if mc s'"
  proof (cases mc)
    case None
    then show ?thesis
      using 1 by (intro exI [of _ ?m1]) (simp add: cancel_if_def)
  next
    case (Some c)
    then have "svc_step ?m1 (?m1\<lparr>sys_svc := cancel_ctx c (sys_svc ?m1)\<rparr>)"
      by (intro step_late_cancel) simp
    from rtranclp.rtrancl_into_rtrancl [OF 1 this] show ?thesis
      by (intro exI [of _ "?m1\<lparr>sys_svc := cancel_ctx c (sys_svc ?m1)\<rparr>"]) (simp add: cancel_if_def Some)
  qed
qed

interpretation around: service_relation "\<lambda>s s'. runtime_moves bystander rt \<longrightarrow> bystander s s'" rt
  for rt :: "('h, 'd) runtime"
proof unfold_locales
  show "runtime_moves (\<lambda>s s'. runtime_moves bystander rt \<longrightarrow> bystander s s') rt"
    by (rule runtime_moves_if) simp
qed (auto intro: bystander_refl bystander_trans bystander_regions)

lemma by_runtime:
  assumes "runtime_moves bystander rt"
  shows by_state: "bystander (snd g) (snd (setState rt st g))"
    and by_failure: "bystander (snd g) (snd (snd (EmitFailure rt f g)))"
    and by_locked: "(\<And>s. bystander s (snd (k s))) \<Longrightarrow> bystander (snd g) (snd (snd (locked rt k g)))"
    and by_locked_do: "(\<And>s. bystander s (d s)) \<Longrightarrow> bystander (snd g) (snd (locked_do rt d g))"
    and by_down: "bystander (snd g) (snd (snd (c_Down (api rt h) g)))"
    and by_close: "bystander (snd g) (snd (snd (c_Close (api rt h) g)))"
    and by_status: "bystander (snd g) (snd (snd (c_Status (api rt h) opts g)))"
    and by_blocked: "bystander (snd g) (snd (blocked rt g))"
    and by_changed: "bystander (snd g) (snd (emitStateChanged rt st g))"
  using assms around.moves_set_state [of rt g st] around.emits_behind(1) [of rt g f]
    moves_result [OF around.moves_locked [of rt k], of g] around.moves_locked_do [of rt d g]
    moves_result [OF around.daemon.calls(7) [of rt h], of g] moves_result [OF around.daemon.calls(13) [of rt h], of g]
    moves_result [OF around.daemon.calls(8) [of rt h opts], of g] around.quiet(2) [of rt "snd g"]
    around.moves_state_changed [of rt g st]
  by (auto simp: behind_def blocked_def split: prod.split)

lemma by_read:
  assumes "runtime_moves bystander rt"
  shows "bystander (snd g) (snd (snd (locked rt (\<lambda>s. (f s, s)) g)))"
  by (rule by_locked [OF assms]) (simp add: bystander_refl)

lemma by_start:
  assumes "runtime_moves bystander rt"
  shows "bystander (snd g) (snd (snd (startActivation rt c d i g)))"
proof -
  obtain r g' where g': "locked rt reserveActivation g = (r, g')"
    by (metis prod.exhaust)
  then have "bystander (snd g) (snd g')"
    using by_locked [OF assms bystander_reserve, of g] by simp
  then show ?thesis
    using bystander_trans [OF _ by_state [OF assms, of g']]
    by (auto simp: startActivation_def g' split: sum.split)
qed

lemma by_disconnect:
  assumes "runtime_moves bystander rt"
  shows "bystander (snd g) (snd (snd (Disconnect rt g)))"
proof -
  obtain client g1 where g1: "locked rt disconnectLocked g = (client, g1)"
    by (metis prod.exhaust)
  define g2 where "g2 = setState rt ServiceStateStopping g1"
  have "bystander (snd g) (snd g1)"
    using by_locked [OF assms bystander_regions(3), of g] by (simp add: g1)
  then have 2: "bystander (snd g) (snd g2)"
    unfolding g2_def using bystander_trans by_state [OF assms] by blast
  have closed: "bystander (snd g) (snd (snd (c_Close (api rt h) (snd (c_Down (api rt h) g2)))))" for h
    using bystander_trans [OF bystander_trans [OF 2 by_down [OF assms]] by_close [OF assms]] by blast
  have stopped: "bystander (snd g) (snd (setState rt ServiceStateStopped g'))" if "bystander (snd g) (snd g')" for g'
    using bystander_trans [OF that by_state [OF assms]] by blast
  have failed: "bystander (snd g) (snd (snd (EmitFailure rt f g')))" if "bystander (snd g) (snd g')" for f g'
    using bystander_trans [OF that by_failure [OF assms]] by blast
  show ?thesis
    using stopped [OF 2] stopped [OF closed] stopped [OF failed [OF closed]]
    by (auto simp: Disconnect_def g1 Let_def case_prod_beta g2_def split: option.split)
qed

lemma by_call:
  assumes "runtime_moves bystander rt"
  shows "bystander (snd g) (snd (snd (handle_call rt call g)))"
proof (cases call)
  case CallDisconnect
  then show ?thesis
    using by_disconnect [OF assms, of g] by (auto split: prod.split)
next
  case (CallConnect c)
  then show ?thesis
    using by_start [OF assms, of g c "[]" False] by (auto simp: Connect_def split: prod.split)
next
  case (CallConnectInteractive c d)
  then show ?thesis
    using by_start [OF assms, of g c d True] by (auto simp: ConnectInteractive_def split: prod.split)
next
  case (CallNewSecrets c)
  then show ?thesis
    using by_locked_do [OF assms, of "NewSecrets c" g] bystander_regions(2) by auto
next
  case (CallSetFailure r)
  then show ?thesis
    using by_locked_do [OF assms, of setFailureLocked g] bystander_regions(4) by (auto simp: SetFailure_def)
next
  case (CallGet i p)
  then show ?thesis
    using by_read [OF assms, of g "\<lambda>s. Properties_Get s i p"] by (auto split: prod.split)
next
  case (CallGetAll i)
  then show ?thesis
    using by_read [OF assms, of g "\<lambda>s. Properties_GetAll s i"] by (auto split: prod.split)
qed (auto simp: SetConfig_def SetIp4Config_def SetIp6Config_def bystander_refl)

subsection \<open>The monitor\<close>

lemma by_clear_session:
  assumes "runtime_moves bystander rt"
  shows "bystander (snd g) (snd (clearActiveSession rt sid b g))"
proof -
  obtain client g1 where g1: "locked rt (clearActiveSessionLocked sid) g = (client, g1)"
    by (metis prod.exhaust)
  moreover have "bystander (snd g) (snd (snd (locked rt (clearActiveSessionLocked sid) g)))"
    by (rule by_locked [OF assms bystander_regions(5)])
  ultimately have "bystander (snd g) (snd g1)"
    by simp
  then show ?thesis
    using bystander_trans [OF _ by_close [OF assms, of g1]]
    by (auto simp: clearActiveSession_def g1 split: option.split)
qed

lemma by_poll:
  assumes "runtime_moves bystander rt"
  shows "bystander (snd g) (snd (snd (pollDaemonStatus rt ctx h sid g)))"
proof -
  obtain r g1 where g1: "c_Status (api rt h) full_peer_status g = (r, g1)"
    by (metis prod.exhaust)
  then have 1: "bystander (snd g) (snd g1)"
    using by_status [OF assms, of g h full_peer_status] by simp
  have 2: "bystander (snd g) (snd (setState rt st g'))" if "bystander (snd g) (snd g')" for st g'
    using bystander_trans [OF that by_state [OF assms]] .
  have 3: "bystander (snd g) (snd (clearActiveSession rt sid True g'))" if "bystander (snd g) (snd g')" for g'
    using bystander_trans [OF that by_clear_session [OF assms]] .
  have 4: "bystander (snd g) (snd (snd (EmitFailure rt f g1)))" for f
    using bystander_trans [OF 1 by_failure [OF assms]] .
  show ?thesis
    using 1 2 [OF 1] 3 [OF 2 [OF 1]] 3 [OF 2 [OF 4]]
    by (auto simp: pollDaemonStatus_def g1 split: sum.split nb_state.split)
qed

lemma by_threshold:
  assumes "runtime_moves bystander rt"
  shows "bystander (snd g) (snd (snd (failActiveSessionAfterStatusThreshold rt sid g)))"
proof -
  define s0 where "s0 = rt_meanwhile rt (snd g)"
  obtain x s1 where f: "failActiveSessionLocked sid s0 = (x, s1)"
    by (metis prod.exhaust)
  then have l: "locked rt (failActiveSessionLocked sid) g = (x, (fst g, s1))"
    by (cases g) (simp add: s0_def locked_def)
  have s0: "bystander (snd g) s0"
    using assms by (simp add: s0_def runtime_moves_def)
  show ?thesis
  proof (cases x)
    case None
    then have "s1 = s0"
      using f by (auto simp: failActiveSessionLocked_def split: if_splits prod.splits)
    then show ?thesis
      using s0 by (simp add: failActiveSessionAfterStatusThreshold_def l None)
  next
    case (Some r)
    obtain mc client changed where x: "x = Some (mc, client, changed)"
      using Some by (metis prod.exhaust)
    define g2 where "g2 = (fst g, cancel_if mc s1)"
    have 2: "bystander (snd g) (snd g2)"
      using bystander_trans [OF s0 bystander_threshold [OF f [unfolded x]]] by (simp add: g2_def)
    have 3: "bystander (snd g) (snd (snd (EmitFailure rt f g2)))" for f
      using bystander_trans [OF 2 by_failure [OF assms]] .
    have 4: "bystander (snd g) (snd (emitStateChanged rt st (snd (EmitFailure rt f g2))))" for f st
      using bystander_trans [OF 3 by_changed [OF assms]] .
    have "(case mc of Some c \<Rightarrow> (fst g, cancel_ctx c s1) | None \<Rightarrow> (fst g, s1)) = g2"
      by (simp add: g2_def cancel_if_def split: option.split)
    then show ?thesis
      using 3 4 bystander_trans [OF 3 by_close [OF assms]] bystander_trans [OF 4 by_close [OF assms]]
      by (auto simp: failActiveSessionAfterStatusThreshold_def l x Let_def split: option.split)
  qed
qed

lemma by_stop_after:
  assumes "runtime_moves bystander rt" "\<And>s. bystander s (hook s)"
  shows "bystander (snd g) (snd (snd (stopAfterStatusPollFailureThreshold rt hook ctx sid n g)))"
proof -
  have "bystander (hook (snd g)) (snd (snd (failActiveSessionAfterStatusThreshold rt sid (fst g, hook (snd g)))))"
    using by_threshold [OF assms(1), of "(fst g, hook (snd g))" sid] by simp
  from bystander_trans [OF assms(2) this] show ?thesis
    by (simp add: stopAfterStatusPollFailureThreshold_def bystander_refl)
qed

lemma by_round:
  assumes "runtime_moves bystander rt" "\<And>s. bystander s (hook s)"
    and nxt: "\<And>k g'. bystander (snd g) (snd g') \<Longrightarrow> bystander (snd g) (snd (nxt k g'))"
  shows "bystander (snd g) (snd
     (case pollDaemonStatus rt ctx h sid g of
        ((keepGoing, failed), g) \<Rightarrow>
          if \<not> keepGoing then g
          else
            (let failures' = nextConsecutiveStatusFailures failures failed
             in case (if failed then stopAfterStatusPollFailureThreshold rt hook ctx sid failures' g
                      else (False, g)) of
                  (True, g) \<Rightarrow> g
                | (False, g) \<Rightarrow> nxt failures' g)))"
proof -
  obtain keepGoing failed g1 where poll: "pollDaemonStatus rt ctx h sid g = ((keepGoing, failed), g1)"
    by (metis prod.exhaust)
  have 1: "bystander (snd g) (snd g1)"
    using by_poll [OF assms(1), of g ctx h sid] by (simp add: poll)
  obtain b g2 where stop: "stopAfterStatusPollFailureThreshold rt hook ctx sid
      (nextConsecutiveStatusFailures failures True) g1 = (b, g2)"
    by (metis prod.exhaust)
  have 2: "bystander (snd g) (snd g2)"
    using bystander_trans [OF 1 by_stop_after [OF assms(1,2)]] by (metis stop snd_conv)
  show ?thesis
    using 1 2 nxt [OF 1] nxt [OF 2]
    by (cases keepGoing; cases failed; cases b) (simp_all add: poll stop Let_def)
qed

lemma by_monitor:
  assumes "runtime_moves bystander rt" "\<And>s. bystander s (hook s)"
  shows "bystander (snd g) (snd (monitor_loop rt hook ctx h sid intervals failures g))"
proof (induction intervals arbitrary: failures g)
  case 0
  show ?case
    using by_round [OF assms, where g = g and nxt = "\<lambda>k g. blocked rt g" and ctx = ctx and h = h and sid = sid and failures = failures]
      bystander_trans [OF _ by_blocked [OF assms(1)]]
    by (subst monitor_loop.simps, unfold nat.case) (auto simp: bystander_refl)
next
  case (Suc n)
  show ?case
    using by_round [OF assms, where g = g and nxt = "\<lambda>k g. monitor_loop rt hook ctx h sid n k (blocked rt g)" and
        ctx = ctx and h = h and sid = sid and failures = failures]
      bystander_trans [OF bystander_trans [OF _ by_blocked [OF assms(1)]] Suc]
    by (subst monitor_loop.simps, unfold nat.case) (auto simp: bystander_refl)
qed

subsection \<open>A call and the activation it starts\<close>

lemma start_token:
  fixes m :: "('h, 'd) system"
  assumes m: "reachable m" and rt: "runtime_moves bystander rt" "runtime_moves (others att) rt"
    and start: "startActivation rt c d i (log, sys_svc m) = ((err, Some att), g)"
  shows "err = None \<and> (\<exists>m'. svc_step\<^sup>*\<^sup>* m m' \<and> sys_svc m' = snd g \<and> token att \<in> set (running m'))"
proof -
  have "bystander (sys_svc m) (rt_meanwhile rt (sys_svc m))"
    using rt(1) by (simp add: runtime_moves_def)
  from bystanderD [OF this m refl] obtain m1 where
    m1: "svc_step\<^sup>*\<^sup>* m m1" "sys_svc m1 = rt_meanwhile rt (sys_svc m)" "reachable m1" .
  obtain r s where rs: "reserveActivation (rt_meanwhile rt (sys_svc m)) = (r, s)"
    by (metis prod.exhaust)
  then have reserve: "reserveActivation (sys_svc m1) = (Inr (token att), s)"
    and g: "g = setState rt ServiceStateStarting (log, s)" and err: "err = None"
    using start by (auto simp: startActivation_def m1(2) token_def split: sum.splits)
  let ?m2 = "m1\<lparr>sys_svc := s, running := token att # running m1, contexts := insert (fst (token att)) (contexts m1)\<rparr>"
  have "svc_step m1 ?m2"
    using step_reserve [of m1 "fst (token att)" "snd (token att)" s] reserve by simp
  then have m2: "svc_step\<^sup>*\<^sup>* m ?m2" "reachable ?m2"
    using m1(1) reach_step [OF m1(3)] by (auto intro: rtranclp.rtrancl_into_rtrancl)
  have "follows att s (snd g)"
    using sim.moves_set_state [of att rt "(log, s)" ServiceStateStarting] rt(2) by (simp add: g behind_def)
  then obtain m' where "svc_step\<^sup>*\<^sup>* ?m2 m'" "sys_svc m' = snd g" "token att \<in> set (running m')"
    by (rule followsD [OF _ m2(2)]) simp_all
  then show ?thesis
    using err rtranclp_trans [OF m2(1)] by blast
qed

section \<open>Properties\<close>

text \<open>
  C10: every goroutine is a path of the abstract machine. If the other goroutines and the daemon act on the service by
  steps of its relation, so do every D-Bus call, whatever its arguments, and every monitor, however long it polls
  and whatever it is answered: what they do to the service leads from one reachable state to
  another, and on the phases it is a path of the abstract machine.
\<close>

theorem calls_and_monitors_refine:
  assumes "reachable m" "runtime_moves bystander rt" "\<And>s. bystander s (hook s)"
    and "g \<in> {snd (handle_call rt call (log, sys_svc m)), monitorStatus rt hook ctx h sid n (log, sys_svc m)}"
  shows "\<exists>m'. reachable m' \<and> sys_svc m' = snd g \<and> svc_step\<^sup>*\<^sup>* m m' \<and> phase_step\<^sup>*\<^sup>* (phase_of m) (phase_of m')"
proof -
  have "bystander (sys_svc m) (snd g)"
    using assms(4) by_call [OF assms(2), of "(log, sys_svc m)" call]
      by_monitor [OF assms(2,3), of "(log, sys_svc m)" ctx h sid n 0]
    by (auto simp: monitorStatus_def)
  from bystanderD [OF this assms(1) refl] obtain m' where "svc_step\<^sup>*\<^sup>* m m'" "sys_svc m' = snd g" "reachable m'" .
  then show ?thesis
    using phases.abs_steps [OF assms(1)] by blast
qed

lemma steady_bystander: "runtime_moves bystander (steady_runtime ''Connected'')"
  by (rule steady_moves) (rule bystander_refl)

lemma calls_and_monitors_refine_witness:
  "\<exists>m'. reachable m' \<and> phase_step\<^sup>*\<^sup>* (phase_of (first_attempt ())) (phase_of m') \<and>
     sys_svc m' = snd (snd (handle_call (steady_runtime ''Connected'') CallDisconnect ([], sys_svc (first_attempt ()))))"
  using calls_and_monitors_refine [OF first_attempt_reachable steady_bystander, of "\<lambda>s. s"
      "snd (handle_call (steady_runtime ''Connected'') CallDisconnect ([], sys_svc (first_attempt ())))" CallDisconnect "[]"]
    bystander_refl by blast

text \<open>
  C4: a Connect, from the call to the end of its goroutine. A call that starts an attempt has claimed the slot for it:
  the call reports no error, and the goroutine run from the state the call leaves acts on the service
  by steps of the relation again, so that call and goroutine together are one path from the state
  of the call, with an attempt or a session only where the machine of phases has one.
\<close>

theorem connect_to_end_refines:
  assumes "reachable m" "runtime_moves bystander rt" "runtime_moves (others att) rt"
    and "handle_call rt call (log, sys_svc m) = ((answer, Some att), g)"
  shows "answer = Inr [] \<and>
    (\<exists>m'. reachable m' \<and> sys_svc m' = snd (runActivation rt att g) \<and> svc_step\<^sup>*\<^sup>* m m' \<and>
          phase_step\<^sup>*\<^sup>* (phase_of m) (phase_of m'))"
proof -
  obtain c d i err where start: "startActivation rt c d i (log, sys_svc m) = ((err, Some att), g)"
    and answer: "answer = no_result err"
    using assms(4) by (cases call) (auto simp: Connect_def ConnectInteractive_def split: prod.splits)
  from start_token [OF assms(1-3) start] obtain m1 where
    m1: "svc_step\<^sup>*\<^sup>* m m1" "sys_svc m1 = snd g" "token att \<in> set (running m1)" and "err = None"
    by blast
  from activation_path [OF reachable_steps [OF assms(1) m1(1)] m1(3) assms(3), of "fst g"]
  obtain m' where "svc_step\<^sup>*\<^sup>* m1 m'" "sys_svc m' = snd (runActivation rt att g)" "reachable m'"
    by (auto simp: m1(2))
  then show ?thesis
    using phases.abs_steps [OF assms(1) rtranclp_trans [OF m1(1)]] rtranclp_trans [OF m1(1)]
    by (auto simp: answer \<open>err = None\<close> no_result_def)
qed

lemma connect_to_end_refines_witness:
  "\<exists>m'. reachable m' \<and> phase_step\<^sup>*\<^sup>* Idle (phase_of m') \<and>
     sys_svc m' = snd (runActivation (steady_runtime ''Connected'') \<lparr>attempt_ctx = 0, attempt_id = 1,
       attempt_connection = [], attempt_details = [], attempt_interactive = False\<rparr>
       (snd (handle_call (steady_runtime ''Connected'') (CallConnect []) ([], NewService ()))))"
proof -
  let ?rt = "steady_runtime ''Connected''"
  let ?m = "\<lparr>sys_svc = NewService (), running = [], contexts = {}, late_cancels = {}\<rparr> :: (nat, unit) system"
  let ?att = "\<lparr>attempt_ctx = 0, attempt_id = 1, attempt_connection = [], attempt_details = [],
      attempt_interactive = False\<rparr>"
  have m: "reachable ?m"
    by (rule reach_start) (simp add: sys_init_def)
  have rt: "runtime_moves (others ?att) ?rt"
    by (rule steady_moves) (auto simp: others_def)
  have "\<exists>g. handle_call ?rt (CallConnect []) ([], sys_svc ?m) = ((Inr [], Some ?att), g)"
    by (simp add: Connect_def startActivation_def reserveActivation_def steady_runtime_def NewService_def
        no_result_def Let_def)
  then obtain g where g: "handle_call ?rt (CallConnect []) ([], sys_svc ?m) = ((Inr [], Some ?att), g)"
    by blast
  from connect_to_end_refines [OF m steady_bystander rt g] show ?thesis
    using g by (auto simp: phase_of_def NewService_def)
qed

end
