(* ===== verification/GrpcClient.thy ===== *)
theory GrpcClient
  imports Flags
begin

text \<open>
  The daemon client over gRPC (\<open>internal/netbird/daemonclient/grpc.go\<close>, the constants of \<open>types.go\<close>), the
  environment (\<open>internal/envconfig\<close>) and the starters of the daemon service (\<open>internal/initsystem\<close>). The
  generated stub and the connection of the gRPC library are parameters, records of functions on an arbitrary state. A context is its deadline. The lemmas say which requests the daemon gets,
  when the daemon service is started, and what normalising options and addresses yields.
\<close>

section \<open>Definitions\<close>

subsection \<open>Options\<close>

definition DefaultAddress :: string where
  "DefaultAddress = ''unix:///var/run/netbird.sock''"

definition DefaultDaemonService :: string where
  "DefaultDaemonService = ''netbird''"

definition EnvDaemonAddress :: string where
  "EnvDaemonAddress = ''NM_NETBIRD_DAEMON_ADDRESS''"

definition EnvDaemonDialTimeout :: string where
  "EnvDaemonDialTimeout = ''NM_NETBIRD_DAEMON_DIAL_TIMEOUT''"

definition EnvDaemonRPCTimeout :: string where
  "EnvDaemonRPCTimeout = ''NM_NETBIRD_DAEMON_RPC_TIMEOUT''"

definition EnvStartDaemon :: string where
  "EnvStartDaemon = ''NM_NETBIRD_START_DAEMON''"

definition EnvDaemonService :: string where
  "EnvDaemonService = ''NM_NETBIRD_DAEMON_SERVICE''"

definition defaultDialTimeout :: duration where
  "defaultDialTimeout = seconds 3"

definition defaultRPCTimeout :: duration where
  "defaultRPCTimeout = seconds 15"

text \<open>The starter is given by what it does; the logger is left out.\<close>

record 'd daemon_options =
  do_Address :: string
  do_DialTimeout :: duration
  do_RPCTimeout :: duration
  do_StartDaemon :: bool
  do_DaemonService :: string
  do_Starter :: "(string \<Rightarrow> 'd \<Rightarrow> gerr option \<times> 'd) option"

text \<open>\<open>envconfig\<close>: trimmed environment variables.\<close>

definition env_String :: "(string \<Rightarrow> string) \<Rightarrow> string \<Rightarrow> string" where
  "env_String getenv key = trim_space (getenv key)"

definition env_StringDefault :: "(string \<Rightarrow> string) \<Rightarrow> string \<Rightarrow> string \<Rightarrow> string" where
  "env_StringDefault getenv key fallback =
     (let v = env_String getenv key in if v \<noteq> [] then v else fallback)"

text \<open>One override: the variable, if set, as read by \<open>rd\<close>, if that succeeds.\<close>

definition env_override ::
  "(string \<Rightarrow> string) \<Rightarrow> string \<Rightarrow> (string \<Rightarrow> 'a option) \<Rightarrow> 'a \<Rightarrow> 'a" where
  "env_override getenv key rd old =
     (let v = env_String getenv key
      in if v \<noteq> [] then (case rd v of Some x \<Rightarrow> x | None \<Rightarrow> old) else old)"

definition DefaultOptionsFromEnv ::
  "(string \<Rightarrow> string) \<Rightarrow> (string \<Rightarrow> duration option) \<Rightarrow> 'd daemon_options" where
  "DefaultOptionsFromEnv getenv pd =
     \<lparr>do_Address = env_override getenv EnvDaemonAddress Some DefaultAddress,
      do_DialTimeout = env_override getenv EnvDaemonDialTimeout pd defaultDialTimeout,
      do_RPCTimeout = env_override getenv EnvDaemonRPCTimeout pd defaultRPCTimeout,
      do_StartDaemon = env_override getenv EnvStartDaemon parse_bool False,
      do_DaemonService = env_override getenv EnvDaemonService Some DefaultDaemonService,
      do_Starter = None\<rparr>"

definition normalizeOptions :: "'d daemon_options \<Rightarrow> 'd daemon_options" where
  "normalizeOptions o1 =
     o1\<lparr>do_Address := (if trim_space (do_Address o1) = [] then DefaultAddress else do_Address o1),
        do_DialTimeout := (if do_DialTimeout o1 = 0 then defaultDialTimeout else do_DialTimeout o1),
        do_RPCTimeout := (if do_RPCTimeout o1 = 0 then defaultRPCTimeout else do_RPCTimeout o1),
        do_DaemonService :=
          (if trim_space (do_DaemonService o1) = [] then DefaultDaemonService else do_DaemonService o1)\<rparr>"

definition normalizeAddress :: "string \<Rightarrow> string" where
  "normalizeAddress address0 =
     (let address = trim_space address0
      in if address = [] then DefaultAddress
         else if prefix ''/'' address then ''unix://'' @ address
         else if prefix ''unix:'' address \<and> \<not> prefix ''unix://'' address
         then (let path = trim_prefix address ''unix:''
               in if prefix ''//'' path then ''unix:'' @ path
                  else if prefix ''/'' path then ''unix://'' @ path
                  else ''unix:///'' @ path)
         else address)"

subsection \<open>Contexts and errors\<close>

text \<open>The deadline of a context in nanoseconds; \<open>with_timeout\<close> is \<open>context.WithTimeout\<close> at the time \<open>now\<close>.\<close>

type_synonym deadline = "int option"

definition with_timeout :: "int \<Rightarrow> duration \<Rightarrow> deadline \<Rightarrow> deadline" where
  "with_timeout now d ctx =
     (case ctx of None \<Rightarrow> Some (now + sint d) | Some t \<Rightarrow> Some (min t (now + sint d)))"

record grpcClient =
  gc_rpcTimeout :: duration

definition callContext :: "grpcClient \<Rightarrow> int \<Rightarrow> deadline \<Rightarrow> deadline" where
  "callContext c now ctx =
     (if sint (gc_rpcTimeout c) \<le> 0 then ctx
      else if ctx \<noteq> None then ctx
      else with_timeout now (gc_rpcTimeout c) ctx)"

subsection \<open>The generated stub\<close>

text \<open>The messages of the daemon's protocol, with the fields the client sets or reads.\<close>

record proto_login_request =
  pl_SetupKey :: string
  pl_ManagementUrl :: string
  pl_AdminURL :: string
  pl_Hostname :: string
  pl_IsUnixDesktopClient :: bool
  pl_InterfaceName :: "string option"
  pl_OptionalPreSharedKey :: "string option"
  pl_ProfileName :: "string option"
  pl_Username :: "string option"

record proto_profile_request =
  pp_ProfileName :: "string option"
  pp_Username :: "string option"

record proto_set_config_request =
  ps_Username :: string
  ps_ProfileName :: string
  ps_ManagementUrl :: string
  ps_AdminURL :: string
  ps_InterfaceName :: "string option"
  ps_OptionalPreSharedKey :: "string option"

record proto_status_request =
  pst_GetFullPeerStatus :: bool
  pst_ShouldRunProbes :: bool
  pst_WaitForReady :: "bool option"

record proto_login_response =
  plr_NeedsSSOLogin :: bool
  plr_UserCode :: string
  plr_VerificationURI :: string
  plr_VerificationURIComplete :: string

record proto_active_profile =
  pa_Id :: string
  pa_ProfileName :: string
  pa_Username :: string

record proto_profile =
  pr_Id :: string
  pr_Name :: string
  pr_IsActive :: bool

record proto_features =
  pf_DisableProfiles :: bool
  pf_DisableUpdateSettings :: bool
  pf_DisableNetworks :: bool

text \<open>
  \<open>proto.DaemonServiceClient\<close>, the time, \<open>status.Code(err) == codes.Unauthenticated\<close>, and closing the
  connection. A profile-scoped request without optional fields is a handle and a user name.
\<close>

record 'd stub =
  st_clock :: "'d \<Rightarrow> int"
  st_unauthenticated :: "gerr \<Rightarrow> bool"
  st_Login :: "deadline \<Rightarrow> proto_login_request \<Rightarrow> 'd \<Rightarrow> (gerr + proto_login_response) \<times> 'd"
  st_WaitSSOLogin :: "deadline \<Rightarrow> string \<Rightarrow> string \<Rightarrow> 'd \<Rightarrow> (gerr + string) \<times> 'd"
  st_SwitchProfile :: "deadline \<Rightarrow> proto_profile_request \<Rightarrow> 'd \<Rightarrow> (gerr + string) \<times> 'd"
  st_AddProfile :: "deadline \<Rightarrow> string \<Rightarrow> string \<Rightarrow> 'd \<Rightarrow> (gerr + string) \<times> 'd"
  st_SetConfig :: "deadline \<Rightarrow> proto_set_config_request \<Rightarrow> 'd \<Rightarrow> gerr option \<times> 'd"
  st_Up :: "deadline \<Rightarrow> proto_profile_request \<Rightarrow> 'd \<Rightarrow> gerr option \<times> 'd"
  st_Down :: "deadline \<Rightarrow> 'd \<Rightarrow> gerr option \<times> 'd"
  st_Status :: "deadline \<Rightarrow> proto_status_request \<Rightarrow> 'd \<Rightarrow> (gerr + status_response option) \<times> 'd"
  st_GetConfig :: "deadline \<Rightarrow> string \<Rightarrow> string \<Rightarrow> 'd \<Rightarrow> (gerr + config_response option) \<times> 'd"
  st_GetFeatures :: "deadline \<Rightarrow> 'd \<Rightarrow> (gerr + proto_features) \<times> 'd"
  st_GetActiveProfile :: "deadline \<Rightarrow> 'd \<Rightarrow> (gerr + proto_active_profile) \<times> 'd"
  st_ListProfiles :: "deadline \<Rightarrow> string \<Rightarrow> 'd \<Rightarrow> (gerr + proto_profile list) \<times> 'd"
  st_Close :: "'d \<Rightarrow> gerr option \<times> 'd"

definition daemonError :: "'d stub \<Rightarrow> string \<Rightarrow> gerr \<Rightarrow> gerr" where
  "daemonError st operation err =
     Errorf operation
       [if st_unauthenticated st err then Errorf [] [Sentinel ErrAuthenticationRequired, err] else err]"

text \<open>An optional field: set unless the string is empty.\<close>

definition optional :: "string \<Rightarrow> string option" where
  "optional s = (if s \<noteq> [] then Some s else None)"

subsection \<open>The methods of the client\<close>

definition grpc_Login ::
  "'d stub \<Rightarrow> grpcClient \<Rightarrow> deadline \<Rightarrow> login_request \<Rightarrow> 'd \<Rightarrow> (gerr + login_response) \<times> 'd" where
  "grpc_Login st c ctx request d =
     on_ok
       (st_Login st (callContext c (st_clock st d) ctx)
          \<lparr>pl_SetupKey = login_SetupKey request, pl_ManagementUrl = login_ManagementURL request,
           pl_AdminURL = login_AdminURL request, pl_Hostname = login_Hostname request,
           pl_IsUnixDesktopClient = True,
           pl_InterfaceName = optional (login_InterfaceName request),
           pl_OptionalPreSharedKey = optional (login_PreSharedKey request),
           pl_ProfileName = optional (ref_Handle (login_Profile request)),
           pl_Username = optional (ref_Username (login_Profile request))\<rparr> d)
       (daemonError st ''login'')
       (\<lambda>resp d. (Inr \<lparr>NeedsSSOLogin = plr_NeedsSSOLogin resp, UserCode = plr_UserCode resp,
                        VerificationURI = plr_VerificationURI resp,
                        VerificationURIComplete = plr_VerificationURIComplete resp\<rparr>, d))"

definition grpc_WaitSSOLogin ::
  "'d stub \<Rightarrow> grpcClient \<Rightarrow> deadline \<Rightarrow> wait_sso_request \<Rightarrow> 'd \<Rightarrow> (gerr + string) \<times> 'd" where
  "grpc_WaitSSOLogin st c ctx request d =
     on_ok
       (st_WaitSSOLogin st (callContext c (st_clock st d) ctx) (wait_UserCode request) (wait_Hostname request) d)
       (daemonError st ''wait sso login'')
       (\<lambda>email d. (Inr email, d))"

text \<open>The identifier the daemon answers with replaces that of the reference, unless it is empty.\<close>

definition answered_ref :: "profile_ref \<Rightarrow> string \<Rightarrow> profile_ref" where
  "answered_ref p idn = (if idn \<noteq> [] then p\<lparr>ref_ID := idn\<rparr> else p)"

definition profile_request :: "profile_ref \<Rightarrow> proto_profile_request" where
  "profile_request p = \<lparr>pp_ProfileName = optional (ref_Handle p), pp_Username = optional (ref_Username p)\<rparr>"

definition grpc_SwitchProfile ::
  "'d stub \<Rightarrow> grpcClient \<Rightarrow> deadline \<Rightarrow> profile_ref \<Rightarrow> 'd \<Rightarrow> (gerr + profile_ref) \<times> 'd" where
  "grpc_SwitchProfile st c ctx p d =
     (if ref_Empty p then (Inr p, d)
      else
        on_ok (st_SwitchProfile st (callContext c (st_clock st d) ctx) (profile_request p) d)
          (daemonError st ''switch profile'')
          (\<lambda>idn d. (Inr (answered_ref p idn), d)))"

definition grpc_AddProfile ::
  "'d stub \<Rightarrow> grpcClient \<Rightarrow> deadline \<Rightarrow> profile_ref \<Rightarrow> 'd \<Rightarrow> (gerr + profile_ref) \<times> 'd" where
  "grpc_AddProfile st c ctx p d =
     on_ok (st_AddProfile st (callContext c (st_clock st d) ctx) (ref_Username p) (ref_ProfileName p) d)
       (daemonError st ''add profile'')
       (\<lambda>idn d. (Inr (answered_ref p idn), d))"

definition grpc_UpdateProfile ::
  "'d stub \<Rightarrow> grpcClient \<Rightarrow> deadline \<Rightarrow> update_profile_request \<Rightarrow> 'd \<Rightarrow> gerr option \<times> 'd" where
  "grpc_UpdateProfile st c ctx request d =
     apfst (map_option (daemonError st ''update profile''))
       (st_SetConfig st (callContext c (st_clock st d) ctx)
          \<lparr>ps_Username = ref_Username (update_Profile request),
           ps_ProfileName = ref_ConfigHandle (update_Profile request),
           ps_ManagementUrl = update_ManagementURL request,
           ps_AdminURL = update_AdminURL request,
           ps_InterfaceName = optional (update_InterfaceName request),
           ps_OptionalPreSharedKey = optional (update_PreSharedKey request)\<rparr> d)"

definition grpc_Up ::
  "'d stub \<Rightarrow> grpcClient \<Rightarrow> deadline \<Rightarrow> profile_ref \<Rightarrow> 'd \<Rightarrow> gerr option \<times> 'd" where
  "grpc_Up st c ctx p d =
     apfst (map_option (daemonError st ''up''))
       (st_Up st (callContext c (st_clock st d) ctx) (profile_request p) d)"

definition grpc_Down :: "'d stub \<Rightarrow> grpcClient \<Rightarrow> deadline \<Rightarrow> 'd \<Rightarrow> gerr option \<times> 'd" where
  "grpc_Down st c ctx d =
     apfst (map_option (daemonError st ''down'')) (st_Down st (callContext c (st_clock st d) ctx) d)"

definition grpc_Status ::
  "'d stub \<Rightarrow> grpcClient \<Rightarrow> deadline \<Rightarrow> status_options \<Rightarrow> 'd \<Rightarrow> (gerr + status_response option) \<times> 'd" where
  "grpc_Status st c ctx opts d =
     on_ok
       (st_Status st (callContext c (st_clock st d) ctx)
          \<lparr>pst_GetFullPeerStatus = GetFullPeerStatus opts, pst_ShouldRunProbes = ShouldRunProbes opts,
           pst_WaitForReady = (if WaitForReady opts then Some True else None)\<rparr> d)
       (daemonError st ''status'')
       (\<lambda>resp d. (Inr resp, d))"

definition grpc_GetConfig ::
  "'d stub \<Rightarrow> grpcClient \<Rightarrow> deadline \<Rightarrow> profile_ref \<Rightarrow> 'd \<Rightarrow> (gerr + config_response option) \<times> 'd" where
  "grpc_GetConfig st c ctx p d =
     on_ok (st_GetConfig st (callContext c (st_clock st d) ctx) (ref_ConfigHandle p) (ref_Username p) d)
       (daemonError st ''get config'')
       (\<lambda>resp d. (Inr resp, d))"

definition grpc_GetFeatures ::
  "'d stub \<Rightarrow> grpcClient \<Rightarrow> deadline \<Rightarrow> 'd \<Rightarrow> (gerr + features) \<times> 'd" where
  "grpc_GetFeatures st c ctx d =
     on_ok (st_GetFeatures st (callContext c (st_clock st d) ctx) d)
       (daemonError st ''get features'')
       (\<lambda>resp d. (Inr \<lparr>DisableProfiles = pf_DisableProfiles resp,
                        DisableUpdateSettings = pf_DisableUpdateSettings resp,
                        DisableNetworks = pf_DisableNetworks resp\<rparr>, d))"

definition grpc_GetActiveProfile ::
  "'d stub \<Rightarrow> grpcClient \<Rightarrow> deadline \<Rightarrow> 'd \<Rightarrow> (gerr + profile_ref) \<times> 'd" where
  "grpc_GetActiveProfile st c ctx d =
     on_ok (st_GetActiveProfile st (callContext c (st_clock st d) ctx) d)
       (daemonError st ''get active profile'')
       (\<lambda>resp d. (Inr \<lparr>ref_ID = pa_Id resp, ref_ProfileName = pa_ProfileName resp,
                        ref_Username = pa_Username resp\<rparr>, d))"

definition grpc_ListProfiles ::
  "'d stub \<Rightarrow> grpcClient \<Rightarrow> deadline \<Rightarrow> string \<Rightarrow> 'd \<Rightarrow> (gerr + profile list) \<times> 'd" where
  "grpc_ListProfiles st c ctx username d =
     on_ok (st_ListProfiles st (callContext c (st_clock st d) ctx) username d)
       (daemonError st ''list profiles'')
       (\<lambda>resp d. (Inr (map (\<lambda>p. \<lparr>profile_ID = pr_Id p, profile_Name = pr_Name p,
                                  profile_IsActive = pr_IsActive p\<rparr>) resp), d))"

definition grpc_Close :: "'d stub \<Rightarrow> 'd \<Rightarrow> gerr option \<times> 'd" where
  "grpc_Close st = st_Close st"

text \<open>The client the plugin works with, under the context of its calls.\<close>

definition grpc_client :: "'d stub \<Rightarrow> grpcClient \<Rightarrow> deadline \<Rightarrow> 'd client" where
  "grpc_client st c ctx =
     \<lparr>c_Login = grpc_Login st c ctx, c_WaitSSOLogin = grpc_WaitSSOLogin st c ctx,
      c_SwitchProfile = grpc_SwitchProfile st c ctx, c_AddProfile = grpc_AddProfile st c ctx,
      c_UpdateProfile = grpc_UpdateProfile st c ctx, c_Up = grpc_Up st c ctx, c_Down = grpc_Down st c ctx,
      c_Status = grpc_Status st c ctx, c_GetConfig = grpc_GetConfig st c ctx,
      c_GetFeatures = grpc_GetFeatures st c ctx, c_GetActiveProfile = grpc_GetActiveProfile st c ctx,
      c_ListProfiles = grpc_ListProfiles st c ctx, c_Close = grpc_Close st\<rparr>"

subsection \<open>Dialing\<close>

datatype connectivity = ConnIdle | ConnConnecting | ConnReady | ConnTransientFailure | ConnShutdown

text \<open>The connection of the gRPC library: creating, connecting, its state, waiting until the state is another one.\<close>

record 'd net =
  net_NewClient :: "string \<Rightarrow> 'd \<Rightarrow> gerr option \<times> 'd"
  net_Connect :: "'d \<Rightarrow> 'd"
  net_GetState :: "'d \<Rightarrow> connectivity"
  net_WaitForStateChange :: "deadline \<Rightarrow> connectivity \<Rightarrow> 'd \<Rightarrow> bool \<times> 'd"
  net_CtxErr :: "deadline \<Rightarrow> 'd \<Rightarrow> gerr option"
  net_Close :: "'d \<Rightarrow> 'd"
  net_clock :: "'d \<Rightarrow> int"

text \<open>The loop of \<open>waitForReady\<close>; \<open>None\<close> when the state changes more often than the fuel allows.\<close>

fun await_ready :: "nat \<Rightarrow> 'd net \<Rightarrow> deadline \<Rightarrow> 'd \<Rightarrow> (gerr option \<times> 'd) option" where
  "await_ready 0 net ctx d = None"
| "await_ready (Suc fuel) net ctx d =
     (case net_GetState net d of
        ConnReady \<Rightarrow> Some (None, d)
      | ConnShutdown \<Rightarrow> Some (Some (ErrText ''connection shutdown''), d)
      | state \<Rightarrow>
          (case net_WaitForStateChange net ctx state d of
             (True, d) \<Rightarrow> await_ready fuel net ctx d
           | (False, d) \<Rightarrow>
               (case net_CtxErr net ctx d of
                  Some e \<Rightarrow> Some (Some e, d)
                | None \<Rightarrow> Some (Some (ErrText ''connection state did not change''), d))))"

definition dial ::
  "nat \<Rightarrow> 'd net \<Rightarrow> 'd daemon_options \<Rightarrow> deadline \<Rightarrow> 'd \<Rightarrow> ((gerr + grpcClient) \<times> 'd) option" where
  "dial fuel net options ctx0 d =
     (let o1 = normalizeOptions options;
          ctx = (if 0 < sint (do_DialTimeout o1) then with_timeout (net_clock net d) (do_DialTimeout o1) ctx0
                 else ctx0);
          address = normalizeAddress (do_Address o1)
      in case net_NewClient net address d of
           (Some e, d) \<Rightarrow> Some (Inl (Errorf ''create netbird daemon client'' [e]), d)
         | (None, d) \<Rightarrow>
             (case await_ready fuel net ctx (net_Connect net d) of
                None \<Rightarrow> None
              | Some (Some e, d) \<Rightarrow> Some (Inl (Errorf ''dial netbird daemon'' [e]), net_Close net d)
              | Some (None, d) \<Rightarrow> Some (Inr \<lparr>gc_rpcTimeout = do_RPCTimeout o1\<rparr>, d)))"

definition NewFactory :: "'d daemon_options \<Rightarrow> 'd daemon_options" where
  "NewFactory options = normalizeOptions options"

text \<open>\<open>NewClient\<close> of the factory with the given options.\<close>

definition factory_NewClient ::
  "nat \<Rightarrow> 'd net \<Rightarrow> 'd daemon_options \<Rightarrow> deadline \<Rightarrow> 'd \<Rightarrow> ((gerr + grpcClient) \<times> 'd) option" where
  "factory_NewClient fuel net o1 ctx d =
     (case dial fuel net o1 ctx d of
        None \<Rightarrow> None
      | Some (Inr c, d) \<Rightarrow> Some (Inr c, d)
      | Some (Inl err, d) \<Rightarrow>
          if \<not> do_StartDaemon o1 then Some (Inl err, d)
          else
            (case do_Starter o1 of
               None \<Rightarrow> Some (Inl (Errorf ''daemon autostart requested but no init-system starter is configured'' [err]), d)
             | Some start \<Rightarrow>
                 (case start (do_DaemonService o1) d of
                    (Some _, d) \<Rightarrow> Some (Inl (Errorf ''start'' [err]), d)
                  | (None, d) \<Rightarrow>
                      (case dial fuel net o1 ctx d of
                         None \<Rightarrow> None
                       | Some (Inl retryErr, d) \<Rightarrow> Some (Inl (Errorf ''dial after starting'' [retryErr]), d)
                       | Some (Inr c, d) \<Rightarrow> Some (Inr c, d)))))"

subsection \<open>Init systems\<close>

datatype starter = AutoStarter | SystemdStarter string

text \<open>Running a command (its error and its output) and \<open>exec.LookPath\<close>.\<close>

record 'd os_commands =
  run_command :: "string list \<Rightarrow> 'd \<Rightarrow> (gerr option \<times> string) \<times> 'd"
  look_path :: "string \<Rightarrow> 'd \<Rightarrow> bool"

definition init_normalize :: "string \<Rightarrow> string" where
  "init_normalize name = to_lower (trim_space name)"

definition NewStarter :: "string \<Rightarrow> gerr + starter" where
  "NewStarter name =
     (if init_normalize name = [] \<or> init_normalize name = ''auto'' then Inr AutoStarter
      else if init_normalize name = ''systemd'' then Inr (SystemdStarter [])
      else Inl (ErrText ''unsupported init system''))"

definition systemd_Start :: "'d os_commands \<Rightarrow> string \<Rightarrow> string \<Rightarrow> 'd \<Rightarrow> gerr option \<times> 'd" where
  "systemd_Start sys path serviceName0 d =
     (let serviceName = trim_space serviceName0;
          systemctl = (if trim_space path = [] then ''systemctl'' else trim_space path)
      in if serviceName = [] then (Some (ErrText ''service name is empty''), d)
         else
           (case run_command sys [systemctl, ''start'', serviceName] d of
              ((Some e, text), d) \<Rightarrow>
                (Some (Errorf (''systemd start '' @ serviceName
                   @ (if trim_space text = [] then [] else '': '' @ trim_space text)) [e]), d)
            | ((None, text), d) \<Rightarrow> (None, d)))"

text \<open>The starter detected is always one for systemd; its path is the result.\<close>

definition detectStarter :: "'d os_commands \<Rightarrow> 'd \<Rightarrow> gerr + string" where
  "detectStarter sys d =
     (if look_path sys ''systemctl'' d then Inr []
      else Inl (ErrText ''no supported init system found for daemon autostart''))"

definition starter_Start :: "'d os_commands \<Rightarrow> starter \<Rightarrow> string \<Rightarrow> 'd \<Rightarrow> gerr option \<times> 'd" where
  "starter_Start sys s serviceName d =
     (case s of
        SystemdStarter path \<Rightarrow> systemd_Start sys path serviceName d
      | AutoStarter \<Rightarrow>
          (case detectStarter sys d of
             Inl e \<Rightarrow> (Some e, d)
           | Inr path \<Rightarrow> systemd_Start sys path serviceName d))"

section \<open>Addresses and options\<close>

text \<open>What follows a solid character keeps its end whatever solid text is put before.\<close>

lemma trim_space_new_front:
  assumes "trim_space (k @ c # v) = k @ c # v" "solid (hd (k @ [c]))" "solid c" "solid (hd (l @ [e]))" "solid e"
  shows "trim_space (l @ e # v) = l @ e # v"
proof -
  have "trim_right v = v"
    using assms(1) trim_space_solid_front [OF assms(2,3), of v] by simp
  then show ?thesis
    using trim_space_solid_front [OF assms(4,5), of v] by simp
qed

text \<open>What an address becomes, by its form after trimming.\<close>

lemma normalizeAddress_cases:
  assumes "a = trim_space address"
  shows "a = [] \<Longrightarrow> normalizeAddress address = DefaultAddress"
    and "prefix ''/'' a \<Longrightarrow> normalizeAddress address = ''unix://'' @ a"
    and "prefix ''unix://'' a \<Longrightarrow> normalizeAddress address = a"
    and "prefix ''unix:/'' a \<Longrightarrow> \<not> prefix ''unix://'' a \<Longrightarrow> normalizeAddress address = ''unix://'' @ drop 5 a"
    and "prefix ''unix:'' a \<Longrightarrow> \<not> prefix ''unix:/'' a \<Longrightarrow> normalizeAddress address = ''unix:///'' @ drop 5 a"
    and "a \<noteq> [] \<Longrightarrow> \<not> prefix ''/'' a \<Longrightarrow> \<not> prefix ''unix:'' a \<Longrightarrow> normalizeAddress address = a"
  using assms
  by (auto simp: normalizeAddress_def Let_def trim_prefix_def prefix_def)

lemma address_solid: "solid (CHR ''/'')" "solid (CHR ''u'')" "solid (CHR '':'')"
  by (simp_all add: solid_def)

lemma normalizeAddress_result:
  "normalizeAddress address = DefaultAddress \<or>
    (trim_space (normalizeAddress address) = normalizeAddress address
     \<and> (prefix ''unix://'' (normalizeAddress address)
        \<or> normalizeAddress address \<noteq> [] \<and> \<not> prefix ''/'' (normalizeAddress address)
            \<and> \<not> prefix ''unix:'' (normalizeAddress address)))"
proof -
  define a where "a = trim_space address"
  have trimmed: "trim_space a = a"
    by (simp add: a_def)
  note forms = normalizeAddress_cases [OF a_def]
  consider (nil) "a = []" | (path) v where "a = ''/'' @ v" | (url) "prefix ''unix://'' a"
    | (one) v where "a = ''unix:/'' @ v" "\<not> prefix ''unix://'' a" | (none) v where "a = ''unix:'' @ v" "\<not> prefix ''unix:/'' a"
    | (other) "a \<noteq> []" "\<not> prefix ''/'' a" "\<not> prefix ''unix:'' a"
    unfolding prefix_def by blast
  then show ?thesis
  proof cases
    case (path v)
    then have "trim_space (''unix:/'' @ CHR ''/'' # CHR ''/'' # v) = ''unix:/'' @ CHR ''/'' # CHR ''/'' # v"
      using trim_space_new_front [of "[]" "CHR ''/''" v "''unix://''" "CHR ''/''"] trimmed address_solid by simp
    with path forms(2) show ?thesis by simp
  next
    case (one v)
    then have "trim_space (''unix://'' @ CHR ''/'' # v) = ''unix://'' @ CHR ''/'' # v"
      using trim_space_new_front [of "''unix:''" "CHR ''/''" v "''unix://''" "CHR ''/''"] trimmed address_solid by simp
    with one forms(4) show ?thesis by simp
  next
    case (none v)
    then have "trim_space (''unix://'' @ CHR ''/'' # v) = ''unix://'' @ CHR ''/'' # v"
      using trim_space_new_front [of "''unix''" "CHR '':''" v "''unix://''" "CHR ''/''"] trimmed address_solid by simp
    with none forms(5) show ?thesis by simp
  qed (use forms trimmed in auto)
qed

lemma default_address_forms: "trim_space DefaultAddress = DefaultAddress" "prefix ''unix://'' DefaultAddress"
  "DefaultAddress \<noteq> []"
  by code_simp+

interpretation address: string_normalizer normalizeAddress
proof unfold_locales
  show "normalizeAddress (trim_space a) = normalizeAddress a" for a
    by (simp add: normalizeAddress_def)
  show "normalizeAddress (normalizeAddress a) = normalizeAddress a" for a
    using normalizeAddress_result [of a] normalizeAddress_cases(3,6) [of "normalizeAddress a" "normalizeAddress a"]
      default_address_forms
    by auto
qed

text \<open>
  an address is understood in every spelling. For an absolute path, the path itself, \<open>unix:\<close> and
  \<open>unix://\<close> before it, and white space around any of them mean the same \<open>unix://\<close> address; a relative
  \<open>unix:\<close> path becomes absolute. The result is trimmed and never blank, and normalising it again changes nothing.
\<close>

theorem normalizeAddress_spellings:
  assumes "trim_space p = p" "prefix ''/'' p" "\<not> prefix ''//'' p"
  shows "normalizeAddress p = ''unix://'' @ p \<and> normalizeAddress (''unix:'' @ p) = ''unix://'' @ p
    \<and> normalizeAddress (''unix://'' @ p) = ''unix://'' @ p
    \<and> normalizeAddress (''unix:'' @ tl p) = ''unix://'' @ p
    \<and> normalizeAddress (normalizeAddress a) = normalizeAddress a
    \<and> normalizeAddress (trim_space a) = normalizeAddress a
    \<and> trim_space (normalizeAddress a) = normalizeAddress a \<and> normalizeAddress a \<noteq> []"
proof -
  obtain v where p: "p = CHR ''/'' # v" "\<not> prefix ''/'' v"
    using assms(2,3) by (auto simp: prefix_def)
  note front = trim_space_new_front [of "[]" "CHR ''/''" v]
  have "trim_space (''unix:'' @ p) = ''unix:'' @ p" "trim_space (''unix://'' @ p) = ''unix://'' @ p"
    "trim_space (''unix'' @ CHR '':'' # v) = ''unix'' @ CHR '':'' # v"
    using front [of "''unix:''" "CHR ''/''"] front [of "''unix://''" "CHR ''/''"] front [of "''unix''" "CHR '':''"]
      assms(1) p address_solid by simp_all
  moreover have "trim_space (normalizeAddress a) = normalizeAddress a \<and> normalizeAddress a \<noteq> []"
    using normalizeAddress_result [of a] default_address_forms by auto
  ultimately show ?thesis
    using p assms normalizeAddress_cases(2) [of p p] normalizeAddress_cases(4) [of "''unix:'' @ p" "''unix:'' @ p"]
      normalizeAddress_cases(3) [of "''unix://'' @ p" "''unix://'' @ p"]
      normalizeAddress_cases(5) [of "''unix:'' @ v" "''unix:'' @ v"] address.nf_nf address.nf_trim
    by simp
qed

lemma normalizeAddress_spellings_witness:
  "normalizeAddress ''unix:run/nb.sock'' = ''unix:///run/nb.sock''"
proof -
  have "trim_space ''/run/nb.sock'' = ''/run/nb.sock''"
    by code_simp
  with normalizeAddress_spellings [of "''/run/nb.sock''" "[]"] show ?thesis
    by simp
qed

section \<open>Connecting\<close>

text \<open>What happens to connections and to the daemon service, oldest first.\<close>

datatype net_action = Dialed string | DialFailed string | Closed | ServiceStarted string

definition net_recording :: "'d net \<Rightarrow> (net_action list \<times> 'd) net" where
  "net_recording net =
     \<lparr>net_NewClient = (\<lambda>a (log, d).
        case net_NewClient net a d of (r, d') \<Rightarrow> (r, log @ [if r = None then Dialed a else DialFailed a], d')),
      net_Connect = (\<lambda>(log, d). (log, net_Connect net d)),
      net_GetState = (\<lambda>(log, d). net_GetState net d),
      net_WaitForStateChange = (\<lambda>ctx st (log, d). case net_WaitForStateChange net ctx st d of (b, d') \<Rightarrow> (b, log, d')),
      net_CtxErr = (\<lambda>ctx (log, d). net_CtxErr net ctx d),
      net_Close = (\<lambda>(log, d). (log @ [Closed], net_Close net d)),
      net_clock = (\<lambda>(log, d). net_clock net d)\<rparr>"

definition options_recording :: "'d daemon_options \<Rightarrow> (net_action list \<times> 'd) daemon_options" where
  "options_recording o1 =
     \<lparr>do_Address = do_Address o1, do_DialTimeout = do_DialTimeout o1, do_RPCTimeout = do_RPCTimeout o1,
      do_StartDaemon = do_StartDaemon o1, do_DaemonService = do_DaemonService o1,
      do_Starter = map_option
        (\<lambda>start s (log, d). case start s d of (r, d') \<Rightarrow> (r, log @ [ServiceStarted s], d')) (do_Starter o1)\<rparr>"

subsection \<open>Dialing ends\<close>

text \<open>
  What the gRPC library and the clock are relied on for: the time does not go back while a connection is made, a
  change of the connection's state takes some time, and once the deadline of a context has passed, by at
  most \<open>slack\<close> nanoseconds, waiting under it reports no more changes. Nothing is said of a wait
  without a deadline, which may report changes for ever.
\<close>

definition timely :: "nat \<Rightarrow> 'd net \<Rightarrow> bool" where
  "timely slack net \<longleftrightarrow>
     (\<forall>a d. net_clock net d \<le> net_clock net (snd (net_NewClient net a d))) \<and>
     (\<forall>d. net_clock net d \<le> net_clock net (net_Connect net d)) \<and>
     (\<forall>ctx st d d'. net_WaitForStateChange net ctx st d = (True, d') \<longrightarrow> net_clock net d < net_clock net d') \<and>
     (\<forall>t st d. t + int slack \<le> net_clock net d \<longrightarrow> \<not> fst (net_WaitForStateChange net (Some t) st d))"

lemma recording_net [simp]:
  "net_clock (net_recording net) (log, d) = net_clock net d"
  "net_Connect (net_recording net) (log, d) = (log, net_Connect net d)"
  "snd (snd (net_NewClient (net_recording net) a (log, d))) = snd (net_NewClient net a d)"
  "net_WaitForStateChange (net_recording net) ctx st (log, d) =
     (fst (net_WaitForStateChange net ctx st d), log, snd (net_WaitForStateChange net ctx st d))"
  by (simp_all add: net_recording_def split: prod.split)

lemma recording_clock: "net_clock (net_recording net) g = net_clock net (snd g)"
  by (cases g) simp

lemma timelyD:
  assumes "timely slack net"
  shows "net_clock net d \<le> net_clock net (snd (net_NewClient net a d))"
    and "net_clock net d \<le> net_clock net (net_Connect net d)"
    and "fst (net_WaitForStateChange net ctx st d) \<Longrightarrow> net_clock net d < net_clock net (snd (net_WaitForStateChange net ctx st d))"
    and "t + int slack \<le> net_clock net d \<Longrightarrow> \<not> fst (net_WaitForStateChange net (Some t) st d)"
  using assms unfolding timely_def by (blast, blast, metis prod.collapse, blast)

lemma timely_recording:
  assumes "timely slack net"
  shows "timely slack (net_recording net)"
  unfolding timely_def
  using timelyD [OF assms] by (simp add: recording_clock split_paired_all)

lemma await_ready_returns:
  assumes "timely slack net" "nat (t + int slack - net_clock net d) < fuel"
  shows "\<exists>r. await_ready fuel net (Some t) d = Some r"
  using assms(2)
proof (induction fuel arbitrary: d)
  case (Suc fuel)
  obtain b d1 where w: "net_WaitForStateChange net (Some t) (net_GetState net d) d = (b, d1)"
    by fastforce
  have "\<exists>r. await_ready fuel net (Some t) d1 = Some r" if b
  proof (rule Suc.IH)
    have "net_clock net d < net_clock net d1" "net_clock net d < t + int slack"
      using timelyD(3) [OF assms(1), of "Some t" "net_GetState net d" d]
        timelyD(4) [OF assms(1), of t d "net_GetState net d"] w that
      by (simp, force)
    then show "nat (t + int slack - net_clock net d1) < fuel"
      using Suc.prems by linarith
  qed
  with w show ?case
    by (cases "net_GetState net d"; cases b) (auto split: option.split)
qed simp

definition dial_timeout :: "'d daemon_options \<Rightarrow> duration" where
  "dial_timeout o1 = do_DialTimeout (normalizeOptions o1)"

lemma dial_timeout_positive:
  assumes "0 \<le> sint (do_DialTimeout o1)"
  shows "0 < sint (dial_timeout o1)"
proof -
  have "0 < sint defaultDialTimeout"
    by code_simp
  then show ?thesis
    using assms signed_eq_0_iff [of "do_DialTimeout o1"]
    by (auto simp: dial_timeout_def normalizeOptions_def order_le_less)
qed

lemma dial_returns:
  assumes net: "timely slack net" and T: "0 \<le> sint (do_DialTimeout o1)"
    and fuel: "nat (sint (dial_timeout o1)) + slack < fuel"
  shows "\<exists>r d'. dial fuel net o1 ctx d = Some (r, d')"
proof -
  let ?address = "normalizeAddress (do_Address (normalizeOptions o1))"
  have T': "0 < sint (do_DialTimeout (normalizeOptions o1))"
    using dial_timeout_positive [OF T] by (simp add: dial_timeout_def)
  obtain r1 d1 where new: "net_NewClient net ?address d = (r1, d1)"
    by fastforce
  obtain t where ctx: "with_timeout (net_clock net d) (dial_timeout o1) ctx = Some t"
    and t: "t \<le> net_clock net d + sint (dial_timeout o1)"
    by (cases ctx) (auto simp: with_timeout_def)
  have "net_clock net d \<le> net_clock net d1"
    using timelyD(1) [OF net, of d ?address] new by simp
  moreover have "net_clock net d1 \<le> net_clock net (net_Connect net d1)"
    by (rule timelyD(2) [OF net])
  ultimately have "nat (t + int slack - net_clock net (net_Connect net d1)) < fuel"
    using fuel t by linarith
  from await_ready_returns [OF net this] obtain r2 d2 where
    "await_ready fuel net (Some t) (net_Connect net d1) = Some (r2, d2)"
    by auto
  with new ctx T' show ?thesis
    by (cases r1; cases r2) (simp_all add: dial_def Let_def dial_timeout_def)
qed

text \<open>
  C36: dialing ends because of the dial timeout. Over a connection that may change its state for ever, of which
  only \<open>timely\<close> is assumed, and with a dial timeout that is not negative (zero stands for the
  default), asking for a client returns one or an error under every context of the caller, also one without a deadline: fuel above the
  timeout in nanoseconds, and \<open>slack\<close>, is enough.
\<close>

theorem NewClient_returns:
  assumes "timely slack net" "0 \<le> sint (do_DialTimeout o1)" "nat (sint (dial_timeout o1)) + slack < fuel"
  shows "\<exists>r d'. factory_NewClient fuel net o1 ctx d = Some (r, d')"
proof -
  note dialed = dial_returns [OF assms]
  obtain r1 d1 where one: "dial fuel net o1 ctx d = Some (r1, d1)"
    using dialed by blast
  show ?thesis
  proof (cases r1)
    case (Inl e)
    show ?thesis
    proof (cases "do_StartDaemon o1 \<and> do_Starter o1 \<noteq> None")
      case True
      then obtain start rs d2 where "do_Starter o1 = Some start" "start (do_DaemonService o1) d1 = (rs, d2)"
        by fastforce
      with True one Inl dialed [of ctx d2] show ?thesis
        by (cases rs) (auto simp: factory_NewClient_def split: sum.split)
    qed (use one Inl in \<open>auto simp: factory_NewClient_def\<close>)
  qed (use one in \<open>simp add: factory_NewClient_def\<close>)
qed

text \<open>A connection that goes to and fro for ever, a nanosecond at a time, until the deadline of the wait if there is one.\<close>

definition restless_net :: "int net" where
  "restless_net =
     \<lparr>net_NewClient = (\<lambda>_ d. (None, d)), net_Connect = (\<lambda>d. d),
      net_GetState = (\<lambda>d. if even d then ConnConnecting else ConnTransientFailure),
      net_WaitForStateChange = (\<lambda>ctx _ d. case ctx of
          None \<Rightarrow> (True, d + 1)
        | Some t \<Rightarrow> if d < t then (True, d + 1) else (False, d)),
      net_CtxErr = (\<lambda>_ _. Some (ErrText ''context deadline exceeded'')), net_Close = (\<lambda>d. d),
      net_clock = (\<lambda>d. d)\<rparr>"

definition patient_options :: "duration \<Rightarrow> int daemon_options" where
  "patient_options t =
     \<lparr>do_Address = ''/run/nb'', do_DialTimeout = t, do_RPCTimeout = 0, do_StartDaemon = False,
      do_DaemonService = ''netbird'', do_Starter = None\<rparr>"

lemma restless_timely: "timely 0 restless_net"
  by (auto simp: timely_def restless_net_def split: option.splits if_splits)

lemma NewClient_returns_witness:
  "\<exists>r d'. factory_NewClient 6 restless_net (patient_options 5) None 0 = Some (r, d')"
proof (rule NewClient_returns [OF restless_timely])
  show "0 \<le> sint (do_DialTimeout (patient_options 5))"
    "nat (sint (dial_timeout (patient_options 5))) + 0 < 6"
    by code_simp+
qed

text \<open>Without a timeout and without a deadline of the caller, the same connection is waited for as long as there is fuel.\<close>

lemma restless_for_ever: "await_ready fuel restless_net None d = None"
proof (induction fuel arbitrary: d)
  case (Suc fuel)
  from Suc.IH [of "d + 1"] show ?case
    by (simp add: restless_net_def)
qed simp

lemma negative_timeout_waits_for_ever: "factory_NewClient fuel restless_net (patient_options (- 1)) None d = None"
proof -
  have "\<not> 0 < sint (do_DialTimeout (normalizeOptions (patient_options (- 1))))"
    by code_simp
  then have "dial fuel restless_net (patient_options (- 1)) None d = None"
    using restless_for_ever [of fuel d]
    by (simp add: dial_def Let_def) (simp add: restless_net_def)
  then show ?thesis
    by (simp add: factory_NewClient_def)
qed

subsection \<open>What a client costs\<close>

lemma await_ready_log:
  "await_ready fuel (net_recording net) ctx (log, d) = Some (r, log', d') \<Longrightarrow> log' = log"
proof (induction fuel arbitrary: d)
  case (Suc fuel)
  show ?case
  proof (cases "net_GetState net d \<in> {ConnReady, ConnShutdown}")
    case False
    then have "(case net_WaitForStateChange net ctx (net_GetState net d) d of
        (True, d1) \<Rightarrow> await_ready fuel (net_recording net) ctx (log, d1)
      | (False, d1) \<Rightarrow> Some (Some (case net_CtxErr net ctx d1 of Some e \<Rightarrow> e
            | None \<Rightarrow> ErrText ''connection state did not change''), log, d1)) = Some (r, log', d')"
      using Suc.prems
      by (cases "net_GetState net d"; cases "net_WaitForStateChange net ctx (net_GetState net d) d")
        (auto simp: net_recording_def split: if_splits option.splits bool.splits)
    with Suc.IH show ?thesis
      by (auto split: prod.splits bool.splits)
  qed (use Suc.prems in \<open>auto simp: net_recording_def\<close>)
qed simp

lemma await_ready_ready: "await_ready fuel net ctx d = Some (None, d') \<Longrightarrow> net_GetState net d' = ConnReady"
  by (induction fuel arbitrary: d) (auto split: connectivity.splits prod.splits bool.splits option.splits)

definition dial_address :: "'d daemon_options \<Rightarrow> string" where
  "dial_address o1 = normalizeAddress (do_Address (normalizeOptions o1))"

lemma options_recording_fields:
  "dial_address (options_recording o1) = dial_address o1"
  "dial_timeout (options_recording o1) = dial_timeout o1"
  "do_DialTimeout (options_recording o1) = do_DialTimeout o1"
  "do_RPCTimeout (normalizeOptions (options_recording o1)) = do_RPCTimeout (normalizeOptions o1)"
  by (simp_all add: dial_address_def dial_timeout_def options_recording_def normalizeOptions_def)

text \<open>
  One dial: the connection is returned when it is ready; otherwise it was not made, or was made and is closed again.
\<close>

definition ready_client :: "'d net \<Rightarrow> 'd daemon_options \<Rightarrow> grpcClient \<Rightarrow> 'd \<Rightarrow> bool" where
  "ready_client net o1 c d \<longleftrightarrow>
     net_GetState net d = ConnReady \<and> gc_rpcTimeout c = do_RPCTimeout (normalizeOptions o1)"

definition failed_dials :: "string \<Rightarrow> net_action list set" where
  "failed_dials a = {[DialFailed a], [Dialed a, Closed]}"

lemma dial_log:
  assumes "dial fuel (net_recording net) (options_recording o1) ctx (log, d) = Some (r, log', d')"
  shows "(\<exists>c. r = Inr c \<and> ready_client net o1 c d') \<and> log' = log @ [Dialed (dial_address o1)]
    \<or> (\<exists>e. r = Inl e) \<and> (\<exists>t \<in> failed_dials (dial_address o1). log' = log @ t)"
proof -
  let ?o = "options_recording o1"
  note fields = options_recording_fields [of o1]
  obtain r1 d1 where new: "net_NewClient net (dial_address o1) d = (r1, d1)"
    by fastforce
  have rec: "net_NewClient (net_recording net) (dial_address o1) (log, d) =
      (r1, log @ [if r1 = None then Dialed (dial_address o1) else DialFailed (dial_address o1)], d1)"
    "net_Connect (net_recording net) (l, x) = (l, net_Connect net x)"
    "net_Close (net_recording net) (l, x) = (l @ [Closed], net_Close net x)"
    "net_GetState (net_recording net) (l, x) = net_GetState net x" for l x
    using new by (simp_all add: net_recording_def)
  note unfolded = dial_def Let_def dial_address_def [of ?o, symmetric] fields(1)
  show ?thesis
  proof (cases r1)
    case (Some e)
    with assms rec show ?thesis
      by (auto simp: unfolded failed_dials_def)
  next
    case None
    let ?ctx = "if 0 < sint (do_DialTimeout (normalizeOptions ?o))
      then with_timeout (net_clock (net_recording net) (log, d)) (do_DialTimeout (normalizeOptions ?o)) ctx else ctx"
    from None assms rec obtain r2 log2 d2 where
      aw: "await_ready fuel (net_recording net) ?ctx (log @ [Dialed (dial_address o1)], net_Connect net d1) =
        Some (r2, log2, d2)"
      by (auto simp: unfolded split: option.splits)
    note same = await_ready_log [OF this]
    show ?thesis
    proof (cases r2)
      case None
      with aw have "net_GetState net d2 = ConnReady"
        using await_ready_ready [of fuel "net_recording net"] rec(4) by metis
      with None \<open>r1 = None\<close> assms rec aw same show ?thesis
        by (auto simp: unfolded fields(4) ready_client_def simp del: if_split)
    next
      case (Some e)
      with \<open>r1 = None\<close> assms rec aw same show ?thesis
        by (auto simp: unfolded failed_dials_def simp del: if_split)
    qed
  qed
qed

text \<open>
  C14: what a new client costs, and that no connection is left open. Over any connection that keeps to
  \<open>timely\<close>, and with a dial timeout that is not negative, asking for a client returns. A client is returned only
  on a ready connection, the last one dialed, with the call timeout of the options. Every other connection that was made is closed before
  anything else happens: each failed dial either did not make one or made one and closed it. The normalised
  address is dialed once or, after one start of the daemon service under its configured name, twice; the
  service is started exactly if that is configured and the first dial failed.
\<close>

theorem NewClient_trace:
  assumes "timely slack net" "0 \<le> sint (do_DialTimeout o1)" "nat (sint (dial_timeout o1)) + slack < fuel"
  shows "\<exists>r log d'. factory_NewClient fuel (net_recording net) (options_recording o1) ctx ([], d) = Some (r, log, d') \<and>
    (let a = dial_address o1; start = [ServiceStarted (do_DaemonService o1)];
         may_start = (do_StartDaemon o1 \<and> do_Starter o1 \<noteq> None)
     in case r of
          Inr c \<Rightarrow> ready_client net o1 c d' \<and>
            (log = [Dialed a] \<or> may_start \<and> (\<exists>t \<in> failed_dials a. log = t @ start @ [Dialed a]))
        | Inl e \<Rightarrow>
            (\<exists>t \<in> failed_dials a.
               if may_start then log = t @ start \<or> (\<exists>u \<in> failed_dials a. log = t @ start @ u) else log = t))"
proof -
  let ?o = "options_recording o1" and ?a = "dial_address o1"
  let ?dial = "dial fuel (net_recording net) ?o ctx"
  let ?start = "[ServiceStarted (do_DaemonService o1)]"
  have dialed: "\<exists>r log' d'. ?dial x = Some (r, log', d')" for x
    using dial_returns [OF timely_recording [OF assms(1)], of ?o fuel ctx x] assms(2,3) options_recording_fields [of o1]
    by auto
  obtain r1 log1 d1 where one: "?dial ([], d) = Some (r1, log1, d1)"
    using dialed by blast
  note first = dial_log [OF one]
  show ?thesis
  proof (cases r1)
    case (Inr c)
    with one first show ?thesis
      by (auto simp: factory_NewClient_def Let_def)
  next
    case (Inl err)
    then have t: "log1 \<in> failed_dials ?a"
      using first by auto
    show ?thesis
    proof (cases "do_StartDaemon o1 \<and> do_Starter o1 \<noteq> None")
      case False
      with one Inl t show ?thesis
        by (auto simp: factory_NewClient_def options_recording_def Let_def)
    next
      case True
      then obtain start where start: "do_Starter o1 = Some start" "do_StartDaemon o1"
        by auto
      obtain rs ds where s: "start (do_DaemonService o1) d1 = (rs, ds)"
        by fastforce
      obtain r2 log2 d2 where two: "?dial (log1 @ ?start, ds) = Some (r2, log2, d2)"
        using dialed by blast
      have "factory_NewClient fuel (net_recording net) ?o ctx ([], d) =
          (case rs of
             Some _ \<Rightarrow> Some (Inl (Errorf ''start'' [err]), log1 @ ?start, ds)
           | None \<Rightarrow>
               (case r2 of
                  Inl retryErr \<Rightarrow> Some (Inl (Errorf ''dial after starting'' [retryErr]), log2, d2)
                | Inr c \<Rightarrow> Some (Inr c, log2, d2)))"
        using one Inl start s two
        by (cases rs; cases r2) (simp_all add: factory_NewClient_def options_recording_def)
      with dial_log [OF two] t start show ?thesis
        by (cases rs; cases r2) (auto simp: Let_def)
    qed
  qed
qed

text \<open>A network in which dialing fails until the service is started.\<close>

definition down_net :: "bool net" where
  "down_net =
     \<lparr>net_NewClient = (\<lambda>_ d. (None, d)), net_Connect = (\<lambda>d. d),
      net_GetState = (\<lambda>d. if d then ConnReady else ConnShutdown),
      net_WaitForStateChange = (\<lambda>_ _ d. (False, d)), net_CtxErr = (\<lambda>_ _. None), net_Close = (\<lambda>d. d),
      net_clock = (\<lambda>_. 0)\<rparr>"

definition start_options :: "bool daemon_options" where
  "start_options =
     \<lparr>do_Address = ''/run/nb'', do_DialTimeout = 5, do_RPCTimeout = 0, do_StartDaemon = True,
      do_DaemonService = ''netbird'', do_Starter = Some (\<lambda>_ _. (None, True))\<rparr>"

lemma down_timely: "timely 0 down_net"
  by (auto simp: timely_def down_net_def)

lemma NewClient_trace_witness:
  "\<exists>r log d'. factory_NewClient 6 (net_recording down_net) (options_recording start_options) None ([], False) =
      Some (r, log, d')
    \<and> set log \<subseteq> {Dialed ''unix:///run/nb'', DialFailed ''unix:///run/nb'', Closed, ServiceStarted ''netbird''}
    \<and> length log \<le> 5"
proof -
  have here: "dial_address start_options = ''unix:///run/nb''" "do_DaemonService start_options = ''netbird''"
    "0 \<le> sint (do_DialTimeout start_options)" "nat (sint (dial_timeout start_options)) + 0 < 6"
    by code_simp+
  from NewClient_trace [OF down_timely here(3,4), of None False] obtain r log d' where
    "factory_NewClient 6 (net_recording down_net) (options_recording start_options) None ([], False) = Some (r, log, d')"
    "set log \<subseteq> {Dialed ''unix:///run/nb'', DialFailed ''unix:///run/nb'', Closed, ServiceStarted ''netbird''}
      \<and> length log \<le> 5"
    unfolding here(1,2) Let_def failed_dials_def
    by (auto simp: sum.case_eq_if split: if_splits)
  then show ?thesis
    by blast
qed

section \<open>Calls\<close>

text \<open>A stub that refuses every call without a deadline.\<close>

definition refuse :: "deadline \<Rightarrow> (gerr + 'a) \<times> 'd \<Rightarrow> 'd \<Rightarrow> (gerr + 'a) \<times> 'd" where
  "refuse ctx r d = (if ctx = None then (Inl (ErrText ''no deadline''), d) else r)"

definition refuse_err :: "deadline \<Rightarrow> gerr option \<times> 'd \<Rightarrow> 'd \<Rightarrow> gerr option \<times> 'd" where
  "refuse_err ctx r d = (if ctx = None then (Some (ErrText ''no deadline''), d) else r)"

definition with_deadlines_only :: "'d stub \<Rightarrow> 'd stub" where
  "with_deadlines_only st =
     st\<lparr>st_Login := (\<lambda>ctx x d. refuse ctx (st_Login st ctx x d) d),
        st_WaitSSOLogin := (\<lambda>ctx x y d. refuse ctx (st_WaitSSOLogin st ctx x y d) d),
        st_SwitchProfile := (\<lambda>ctx x d. refuse ctx (st_SwitchProfile st ctx x d) d),
        st_AddProfile := (\<lambda>ctx x y d. refuse ctx (st_AddProfile st ctx x y d) d),
        st_SetConfig := (\<lambda>ctx x d. refuse_err ctx (st_SetConfig st ctx x d) d),
        st_Up := (\<lambda>ctx x d. refuse_err ctx (st_Up st ctx x d) d),
        st_Down := (\<lambda>ctx d. refuse_err ctx (st_Down st ctx d) d),
        st_Status := (\<lambda>ctx x d. refuse ctx (st_Status st ctx x d) d),
        st_GetConfig := (\<lambda>ctx x y d. refuse ctx (st_GetConfig st ctx x y d) d),
        st_GetFeatures := (\<lambda>ctx d. refuse ctx (st_GetFeatures st ctx d) d),
        st_GetActiveProfile := (\<lambda>ctx d. refuse ctx (st_GetActiveProfile st ctx d) d),
        st_ListProfiles := (\<lambda>ctx x d. refuse ctx (st_ListProfiles st ctx x d) d)\<rparr>"

lemma refuse_deadline [simp]:
  "refuse (Some t) r d = r" "refuse_err (Some t) q d = q"
  by (simp_all add: refuse_def refuse_err_def)

lemma factory_rpc_timeout:
  assumes "factory_NewClient fuel net o1 ctx d = Some (Inr c, d')"
  shows "gc_rpcTimeout c = do_RPCTimeout (normalizeOptions o1)"
proof -
  have "gc_rpcTimeout c = do_RPCTimeout (normalizeOptions o1)" if "dial fuel net o1 ctx x = Some (Inr c, x')" for c x x'
    using that by (auto simp: dial_def Let_def split: prod.splits option.splits)
  with assms show ?thesis
    by (auto simp: factory_NewClient_def split: option.splits sum.splits prod.splits if_splits)
qed



lemma daemonError_is:
  "errors_is (daemonError st operation err) s \<longleftrightarrow>
    errors_is err s \<or> s = ErrAuthenticationRequired \<and> st_unauthenticated st err"
  by (auto simp: daemonError_def)

text \<open>
  only an unauthenticated refusal is a failed login. When the daemon refuses Up with an error of its own, the
  client reports an error that wraps it, and the plugin classifies it as a failed login exactly when the gRPC status was
  unauthenticated, as a failed connection otherwise; when it does not refuse, the client reports none.
\<close>

theorem up_refusal_classified:
  assumes "\<And>e. fst (st_Up st (callContext c (st_clock st d) ctx) (profile_request p) d) = Some e
    \<Longrightarrow> \<not> errors_is e ErrAuthenticationRequired"
  shows "case fst (st_Up st (callContext c (st_clock st d) ctx) (profile_request p) d) of
      None \<Rightarrow> fst (c_Up (grpc_client st c ctx) p d) = None
    | Some e \<Rightarrow> \<exists>e'. fst (c_Up (grpc_client st c ctx) p d) = Some e'
        \<and> (\<forall>s. errors_is e s \<longrightarrow> errors_is e' s)
        \<and> classifyUpFailure e' =
            (if st_unauthenticated st e then PluginFailureLoginFailed else PluginFailureConnectFailed)"
proof -
  obtain r d' where up: "st_Up st (callContext c (st_clock st d) ctx) (profile_request p) d = (r, d')"
    by fastforce
  show ?thesis
    using assms up by (cases r) (auto simp: grpc_client_def grpc_Up_def classifyUpFailure_def daemonError_is)
qed

lemma up_refusal_classified_witness:
  "\<exists>e'. fst (c_Up (grpc_client
      (\<lparr>st_clock = (\<lambda>_. 0), st_unauthenticated = (\<lambda>e. e = ErrText ''login first''), st_Login = undefined,
        st_WaitSSOLogin = undefined, st_SwitchProfile = undefined, st_AddProfile = undefined, st_SetConfig = undefined,
        st_Up = (\<lambda>_ _ d. (Some (ErrText ''login first''), d)), st_Down = undefined, st_Status = undefined,
        st_GetConfig = undefined, st_GetFeatures = undefined, st_GetActiveProfile = undefined,
        st_ListProfiles = undefined, st_Close = undefined\<rparr> :: unit stub)
      \<lparr>gc_rpcTimeout = 0\<rparr> None) no_profile_ref ()) = Some e'
    \<and> classifyUpFailure e' = PluginFailureLoginFailed"
proof -
  let ?st = "\<lparr>st_clock = (\<lambda>_. 0), st_unauthenticated = (\<lambda>e. e = ErrText ''login first''), st_Login = undefined,
        st_WaitSSOLogin = undefined, st_SwitchProfile = undefined, st_AddProfile = undefined, st_SetConfig = undefined,
        st_Up = (\<lambda>_ _ d. (Some (ErrText ''login first''), d)), st_Down = undefined, st_Status = undefined,
        st_GetConfig = undefined, st_GetFeatures = undefined, st_GetActiveProfile = undefined,
        st_ListProfiles = undefined, st_Close = undefined\<rparr> :: unit stub"
  show ?thesis
    using up_refusal_classified [of ?st "\<lparr>gc_rpcTimeout = 0\<rparr>" "()" None no_profile_ref] by auto
qed

end
