(* ===== verification/ServiceMain.thy ===== *)
theory ServiceMain
  imports GrpcClient
begin

text \<open>
  The service process (\<open>cmd/nm-netbird-service/main.go\<close>): its flags, whose defaults come from the environment, and what
  it does until it serves. The bus and the commands of the system are parameters. The lemmas say how flags and
  environment combine, what the process serves with, and which commands it can run.
\<close>

section \<open>Definitions\<close>

subsection \<open>The command line\<close>

text \<open>The variables of the flags, and their defaults.\<close>

record service_flags =
  sf_bus :: string
  sf_debug :: bool
  sf_daemon_address :: string
  sf_start_daemon :: bool
  sf_daemon_init_system :: string
  sf_daemon_service :: string
  sf_daemon_dial_timeout :: duration
  sf_daemon_rpc_timeout :: duration
  sf_activation_timeout :: duration
  sf_sso_wait_timeout :: duration

definition EnvSystem :: string where
  "EnvSystem = ''NM_NETBIRD_DAEMON_INIT_SYSTEM''"

definition DefaultSystem :: string where
  "DefaultSystem = ''auto''"

definition default_service_flags ::
  "(string \<Rightarrow> string) \<Rightarrow> (string \<Rightarrow> duration option) \<Rightarrow> service_flags" where
  "default_service_flags getenv pd =
     (let o1 = DefaultOptionsFromEnv getenv pd :: unit daemon_options
      in \<lparr>sf_bus = ''system'', sf_debug = False, sf_daemon_address = do_Address o1,
          sf_start_daemon = do_StartDaemon o1,
          sf_daemon_init_system = env_StringDefault getenv EnvSystem DefaultSystem,
          sf_daemon_service = do_DaemonService o1, sf_daemon_dial_timeout = do_DialTimeout o1,
          sf_daemon_rpc_timeout = do_RPCTimeout o1, sf_activation_timeout = seconds 90,
          sf_sso_wait_timeout = seconds 600\<rparr>)"

datatype service_flag =
    BusFlag
  | DebugFlag
  | DaemonAddressFlag
  | StartDaemonFlag
  | DaemonInitSystemFlag
  | DaemonServiceFlag
  | DaemonDialTimeoutFlag
  | DaemonRPCTimeoutFlag
  | ActivationTimeoutFlag
  | SSOWaitTimeoutFlag

definition service_flag_names :: "(string \<times> service_flag) list" where
  "service_flag_names =
     [(''bus'', BusFlag), (''debug'', DebugFlag), (''daemon-address'', DaemonAddressFlag),
      (''start-daemon'', StartDaemonFlag), (''daemon-init-system'', DaemonInitSystemFlag),
      (''daemon-service'', DaemonServiceFlag), (''daemon-dial-timeout'', DaemonDialTimeoutFlag),
      (''daemon-rpc-timeout'', DaemonRPCTimeoutFlag), (''activation-timeout'', ActivationTimeoutFlag),
      (''sso-wait-timeout'', SSOWaitTimeoutFlag)]"

definition is_bool_service_flag :: "service_flag \<Rightarrow> bool" where
  "is_bool_service_flag f \<longleftrightarrow> f = DebugFlag \<or> f = StartDaemonFlag"

fun set_service_flag ::
  "(string \<Rightarrow> duration option) \<Rightarrow> service_flag \<Rightarrow> string \<Rightarrow> service_flags \<Rightarrow> service_flags option" where
  "set_service_flag pd BusFlag v fl = Some (fl\<lparr>sf_bus := v\<rparr>)"
| "set_service_flag pd DebugFlag v fl = map_option (\<lambda>b. fl\<lparr>sf_debug := b\<rparr>) (parse_bool v)"
| "set_service_flag pd DaemonAddressFlag v fl = Some (fl\<lparr>sf_daemon_address := v\<rparr>)"
| "set_service_flag pd StartDaemonFlag v fl = map_option (\<lambda>b. fl\<lparr>sf_start_daemon := b\<rparr>) (parse_bool v)"
| "set_service_flag pd DaemonInitSystemFlag v fl = Some (fl\<lparr>sf_daemon_init_system := v\<rparr>)"
| "set_service_flag pd DaemonServiceFlag v fl = Some (fl\<lparr>sf_daemon_service := v\<rparr>)"
| "set_service_flag pd DaemonDialTimeoutFlag v fl = map_option (\<lambda>t. fl\<lparr>sf_daemon_dial_timeout := t\<rparr>) (pd v)"
| "set_service_flag pd DaemonRPCTimeoutFlag v fl = map_option (\<lambda>t. fl\<lparr>sf_daemon_rpc_timeout := t\<rparr>) (pd v)"
| "set_service_flag pd ActivationTimeoutFlag v fl = map_option (\<lambda>t. fl\<lparr>sf_activation_timeout := t\<rparr>) (pd v)"
| "set_service_flag pd SSOWaitTimeoutFlag v fl = map_option (\<lambda>t. fl\<lparr>sf_sso_wait_timeout := t\<rparr>) (pd v)"

text \<open>\<open>flag.Parse\<close>; the arguments that are left over are not looked at.\<close>

definition parse_service_flags ::
  "(string \<Rightarrow> string) \<Rightarrow> (string \<Rightarrow> duration option) \<Rightarrow> string list \<Rightarrow> flag_error + service_flags" where
  "parse_service_flags getenv pd args =
     map_sum id fst
       (parse_flags (map_of service_flag_names) is_bool_service_flag (set_service_flag pd) args
          (default_service_flags getenv pd))"

subsection \<open>The process\<close>

definition normalizedBusName :: "string \<Rightarrow> string" where
  "normalizedBusName busType = to_lower (trim_space busType)"

text \<open>
  What the bus answers: connecting to a bus, exporting the service, and requesting the name (\<open>Inr True\<close> for the
  primary owner).
\<close>

record bus_answers =
  bus_session :: "gerr option"
  bus_system :: "gerr option"
  bus_export :: "string \<Rightarrow> gerr option"
  bus_request :: "string \<Rightarrow> gerr + bool"

definition connectBus :: "bus_answers \<Rightarrow> string \<Rightarrow> gerr option" where
  "connectBus bus busType =
     (if normalizedBusName busType = ''session'' then bus_session bus
      else if normalizedBusName busType = ''system'' then bus_system bus
      else Some (ErrText ''unsupported bus; expected session or system''))"

text \<open>\<open>main\<close>: a fatal error, or the options with which the service is served until a signal.\<close>

definition service_main ::
  "'d os_commands \<Rightarrow> bus_answers \<Rightarrow> service_flags \<Rightarrow> gerr + 'd daemon_options \<times> service_options" where
  "service_main sys bus fl =
     (case connectBus bus (sf_bus fl) of
        Some e \<Rightarrow> Inl (Errorf ''connect bus'' [e])
      | None \<Rightarrow>
          (let starter = (if sf_start_daemon fl then map_sum id Some (NewStarter (sf_daemon_init_system fl))
                          else Inr None)
           in case starter of
                Inl e \<Rightarrow> Inl (Errorf ''configure daemon autostart'' [e])
              | Inr st \<Rightarrow>
                  (let daemonOptions =
                         \<lparr>do_Address = sf_daemon_address fl, do_DialTimeout = sf_daemon_dial_timeout fl,
                          do_RPCTimeout = sf_daemon_rpc_timeout fl, do_StartDaemon = sf_start_daemon fl,
                          do_DaemonService = sf_daemon_service fl,
                          do_Starter = map_option (starter_Start sys) st\<rparr>;
                       serviceOptions = normalizeServiceOptions
                         \<lparr>ActivationTimeout = sf_activation_timeout fl, SSOWaitTimeout = sf_sso_wait_timeout fl,
                          OperationTimeout = 0, ReadyPollInterval = 0, StatusPollInterval = 0,
                          StatusCallTimeout = 0\<rparr>
                   in case Export (Some (bus_export bus)) of
                        Some e \<Rightarrow> Inl (Errorf ''export service'' [e])
                      | None \<Rightarrow>
                          (case bus_request bus BusName of
                             Inl e \<Rightarrow> Inl (Errorf ''request bus name'' [e])
                           | Inr False \<Rightarrow> Inl (ErrText ''bus name is already owned'')
                           | Inr True \<Rightarrow> Inr (NewFactory daemonOptions, serviceOptions)))))"

text \<open>
  The whole process: it ends with an exit code, after nothing but fatal errors, or it serves with its options until a signal and
  then releases the name and closes the connection. A command line that is refused ends it before any of this.
\<close>

datatype 'd process_action =
    Serve "'d daemon_options" service_options
  | ReleaseName string
  | CloseBus

definition nm_netbird_service ::
  "(string \<Rightarrow> string) \<Rightarrow> (string \<Rightarrow> duration option) \<Rightarrow> 'd os_commands \<Rightarrow> bus_answers \<Rightarrow> string list
     \<Rightarrow> 'd process_action list \<times> nat" where
  "nm_netbird_service getenv pd sys bus args =
     (case parse_service_flags getenv pd args of
        Inl e \<Rightarrow> ([], if e = HelpRequested then 0 else 2)
      | Inr fl \<Rightarrow>
          (case service_main sys bus fl of
             Inl e \<Rightarrow> ([], 1)
           | Inr (daemonOptions, serviceOptions) \<Rightarrow>
               ([Serve daemonOptions serviceOptions, ReleaseName BusName, CloseBus], 0)))"

section \<open>Flags and environment\<close>

lemma map_sum_Inr: "map_sum id f x = Inr y \<longleftrightarrow> (\<exists>z. x = Inr z \<and> y = f z)"
  by (cases x) auto

datatype service_value = SText string | SBool bool | SDuration duration

fun service_field :: "service_flag \<Rightarrow> service_flags \<Rightarrow> service_value" where
  "service_field BusFlag fl = SText (sf_bus fl)"
| "service_field DebugFlag fl = SBool (sf_debug fl)"
| "service_field DaemonAddressFlag fl = SText (sf_daemon_address fl)"
| "service_field StartDaemonFlag fl = SBool (sf_start_daemon fl)"
| "service_field DaemonInitSystemFlag fl = SText (sf_daemon_init_system fl)"
| "service_field DaemonServiceFlag fl = SText (sf_daemon_service fl)"
| "service_field DaemonDialTimeoutFlag fl = SDuration (sf_daemon_dial_timeout fl)"
| "service_field DaemonRPCTimeoutFlag fl = SDuration (sf_daemon_rpc_timeout fl)"
| "service_field ActivationTimeoutFlag fl = SDuration (sf_activation_timeout fl)"
| "service_field SSOWaitTimeoutFlag fl = SDuration (sf_sso_wait_timeout fl)"

interpretation service_flags: flag_variables "map_of service_flag_names" is_bool_service_flag "set_service_flag pd" service_field
  for pd :: "string \<Rightarrow> duration option"
proof
  fix f g v and o1 o2 p1 p2 :: service_flags
  show "set_service_flag pd f v o1 = Some o2 \<Longrightarrow> g \<noteq> f \<Longrightarrow> service_field g o2 = service_field g o1"
    by (cases f; cases g) auto
  show "set_service_flag pd f v o1 = None \<Longrightarrow> set_service_flag pd f v o2 = None"
    by (cases f) auto
  show "set_service_flag pd f v o1 = Some o2 \<Longrightarrow> set_service_flag pd f v p1 = Some p2 \<Longrightarrow>
      service_field f o2 = service_field f p2"
    by (cases f) auto
qed

text \<open>
  A flag wins over the environment (the reference documentation says the opposite). A command line that the service accepts in one environment it accepts in
  any other, and each option is then, if its flag is on the command line, the same in both,
  and otherwise what that environment alone makes it.
\<close>

theorem flags_win_over_environment:
  assumes "parse_service_flags getenv pd args = Inr fl"
  shows "\<exists>fl'. parse_service_flags getenv' pd args = Inr fl' \<and>
    (\<forall>f. service_field f fl' =
       (if f \<in> set (given_flags (map_of service_flag_names) is_bool_service_flag args) then service_field f fl
        else service_field f (default_service_flags getenv' pd)))"
proof -
  obtain rest where "parse_flags (map_of service_flag_names) is_bool_service_flag (set_service_flag pd) args
      (default_service_flags getenv pd) = Inr (fl, rest)"
    using assms by (auto simp: parse_service_flags_def map_sum_Inr)
  from service_flags.parse_field [OF this, of "default_service_flags getenv' pd"] show ?thesis
    by (auto simp: parse_service_flags_def)
qed

lemma flags_win_over_environment_witness:
  "\<exists>fl. parse_service_flags (\<lambda>k. if k = ''NM_NETBIRD_DAEMON_ADDRESS'' then ''unix:///b'' else [])
      (\<lambda>_. None) [''--daemon-address=unix:///a'', ''-debug''] = Inr fl \<and>
     sf_daemon_address fl = ''unix:///a'' \<and> sf_debug fl \<and> sf_bus fl = ''system''"
proof -
  let ?args = "[''--daemon-address=unix:///a'', ''-debug'']"
  have "\<exists>fl. parse_service_flags (\<lambda>_. []) (\<lambda>_. None) ?args = Inr fl \<and> sf_daemon_address fl = ''unix:///a'' \<and> sf_debug fl"
    by (simp add: parse_service_flags_def read_flag_def cut_at_def service_flag_names_def is_bool_service_flag_def
        parse_bool_def Let_def)
  then obtain fl where fl: "parse_service_flags (\<lambda>_. []) (\<lambda>_. None) ?args = Inr fl"
    "sf_daemon_address fl = ''unix:///a''" "sf_debug fl"
    by blast
  let ?env = "\<lambda>k. if k = ''NM_NETBIRD_DAEMON_ADDRESS'' then ''unix:///b'' else []"
  have given: "given_flags (map_of service_flag_names) is_bool_service_flag ?args = [DaemonAddressFlag, DebugFlag]"
    by (simp add: given_flags_def read_flag_def cut_at_def service_flag_names_def is_bool_service_flag_def Let_def)
  obtain fl' where fl': "parse_service_flags ?env (\<lambda>_. None) ?args = Inr fl'"
    "\<And>f. service_field f fl' = (if f \<in> {DaemonAddressFlag, DebugFlag} then service_field f fl
       else service_field f (default_service_flags ?env (\<lambda>_. None)))"
    using flags_win_over_environment [OF fl(1), of ?env] given by auto
  show ?thesis
    using fl' (1) fl'(2) [of DaemonAddressFlag] fl'(2) [of DebugFlag] fl'(2) [of BusFlag] fl(2,3)
    by (auto simp: default_service_flags_def Let_def)
qed

text \<open>The documented default of every option, the variable that can change it, and how its text is read.\<close>

fun service_default :: "service_flag \<Rightarrow> service_value" where
  "service_default BusFlag = SText ''system''"
| "service_default DebugFlag = SBool False"
| "service_default DaemonAddressFlag = SText ''unix:///var/run/netbird.sock''"
| "service_default StartDaemonFlag = SBool False"
| "service_default DaemonInitSystemFlag = SText ''auto''"
| "service_default DaemonServiceFlag = SText ''netbird''"
| "service_default DaemonDialTimeoutFlag = SDuration (seconds 3)"
| "service_default DaemonRPCTimeoutFlag = SDuration (seconds 15)"
| "service_default ActivationTimeoutFlag = SDuration (seconds 90)"
| "service_default SSOWaitTimeoutFlag = SDuration (seconds 600)"

fun service_variable :: "service_flag \<Rightarrow> string option" where
  "service_variable DaemonAddressFlag = Some ''NM_NETBIRD_DAEMON_ADDRESS''"
| "service_variable StartDaemonFlag = Some ''NM_NETBIRD_START_DAEMON''"
| "service_variable DaemonInitSystemFlag = Some ''NM_NETBIRD_DAEMON_INIT_SYSTEM''"
| "service_variable DaemonServiceFlag = Some ''NM_NETBIRD_DAEMON_SERVICE''"
| "service_variable DaemonDialTimeoutFlag = Some ''NM_NETBIRD_DAEMON_DIAL_TIMEOUT''"
| "service_variable DaemonRPCTimeoutFlag = Some ''NM_NETBIRD_DAEMON_RPC_TIMEOUT''"
| "service_variable _ = None"

fun read_service_value :: "(string \<Rightarrow> duration option) \<Rightarrow> service_flag \<Rightarrow> string \<Rightarrow> service_value option" where
  "read_service_value pd StartDaemonFlag v = map_option SBool (parse_bool v)"
| "read_service_value pd DaemonDialTimeoutFlag v = map_option SDuration (pd v)"
| "read_service_value pd DaemonRPCTimeoutFlag v = map_option SDuration (pd v)"
| "read_service_value pd _ v = Some (SText v)"

definition environment_value ::
  "(string \<Rightarrow> string) \<Rightarrow> (string \<Rightarrow> duration option) \<Rightarrow> service_flag \<Rightarrow> service_value" where
  "environment_value getenv pd f =
     (case service_variable f of
        None \<Rightarrow> service_default f
      | Some key \<Rightarrow>
          (let v = trim_space (getenv key)
           in if v = [] then service_default f
              else case read_service_value pd f v of Some x \<Rightarrow> x | None \<Rightarrow> service_default f))"

lemma default_service_flags_environment:
  "service_field f (default_service_flags getenv pd) = environment_value getenv pd f"
  by (cases f)
    (auto simp: default_service_flags_def environment_value_def DefaultOptionsFromEnv_def env_override_def
      env_StringDefault_def env_String_def EnvSystem_def DefaultSystem_def EnvDaemonAddress_def EnvDaemonDialTimeout_def
      EnvDaemonRPCTimeout_def EnvStartDaemon_def EnvDaemonService_def DefaultAddress_def DefaultDaemonService_def
      defaultDialTimeout_def defaultRPCTimeout_def Let_def split: option.split)

text \<open>
  C32: the defaults of the service and the environment. In a service process whose command line is accepted, every
  option whose flag is not on the command line (all of them, as NetworkManager starts the service) has the value
  that the documentation promises: that of its environment variable, trimmed, if the option has one and it is set to a
  text that is not blank and, for a switch or a duration, well-formed; otherwise the documented default.
\<close>

theorem environment_overrides_defaults:
  assumes "parse_service_flags getenv pd args = Inr fl"
    and "f \<notin> set (given_flags (map_of service_flag_names) is_bool_service_flag args)"
  shows "service_field f fl = environment_value getenv pd f"
proof -
  obtain rest where "parse_flags (map_of service_flag_names) is_bool_service_flag (set_service_flag pd) args
      (default_service_flags getenv pd) = Inr (fl, rest)"
    using assms(1) by (auto simp: parse_service_flags_def map_sum_Inr)
  from service_flags.parse_frame [OF this assms(2)] show ?thesis
    by (simp add: default_service_flags_environment)
qed

lemma environment_overrides_defaults_witness:
  "\<exists>fl. parse_service_flags (\<lambda>k. if k = ''NM_NETBIRD_DAEMON_ADDRESS'' then '' unix:///b '' else [])
      (\<lambda>_. None) [''-debug''] = Inr fl \<and>
     sf_daemon_address fl = ''unix:///b'' \<and> sf_daemon_service fl = ''netbird''"
proof -
  let ?env = "\<lambda>k. if k = ''NM_NETBIRD_DAEMON_ADDRESS'' then '' unix:///b '' else []" and ?args = "[''-debug'']"
  have "\<exists>fl. parse_service_flags ?env (\<lambda>_. None) ?args = Inr fl"
    by (simp add: parse_service_flags_def read_flag_def cut_at_def service_flag_names_def is_bool_service_flag_def
        parse_bool_def Let_def)
  then obtain fl where fl: "parse_service_flags ?env (\<lambda>_. None) ?args = Inr fl"
    by blast
  have given: "given_flags (map_of service_flag_names) is_bool_service_flag ?args = [DebugFlag]"
    by (simp add: given_flags_def read_flag_def cut_at_def service_flag_names_def is_bool_service_flag_def Let_def)
  have "trim_space '' unix:///b '' = ''unix:///b''" "trim_space [] = []"
    by code_simp+
  then show ?thesis
    using fl environment_overrides_defaults [OF fl, of DaemonAddressFlag]
      environment_overrides_defaults [OF fl, of DaemonServiceFlag]
    by (simp add: given environment_value_def Let_def)
qed

lemma normalizeOptions_fields:
  "do_Starter (normalizeOptions o1) = do_Starter o1"
  "do_DaemonService (normalizeOptions o1) =
     (if trim_space (do_DaemonService o1) = [] then DefaultDaemonService else do_DaemonService o1)"
  by (simp_all add: normalizeOptions_def)

lemma default_texts: "trim_space DefaultAddress \<noteq> []" "trim_space DefaultDaemonService \<noteq> []"
  by code_simp+

lemma normalizeOptions_sound:
  "trim_space (do_Address (normalizeOptions o1)) \<noteq> []" "trim_space (do_DaemonService (normalizeOptions o1)) \<noteq> []"
  "do_DialTimeout (normalizeOptions o1) \<noteq> 0" "do_RPCTimeout (normalizeOptions o1) \<noteq> 0"
  by (auto simp: normalizeOptions_def default_texts defaultDialTimeout_def defaultRPCTimeout_def seconds_def)

lemma service_main_serves:
  assumes "service_main sys bus fl = Inr (o1, so)"
  obtains o2 so2 where "o1 = normalizeOptions o2" "so = normalizeServiceOptions so2" "bus_request bus BusName = Inr True"
    and "do_Starter o2 = None \<or> do_StartDaemon o2"
  using assms
  by (auto simp: service_main_def NewFactory_def Let_def split: option.splits sum.splits bool.splits if_splits)

text \<open>
  C33: what the process serves with. Whatever the command line and the environment, a process that serves has an address and
  a service name that are not blank, no zero timeout towards the daemon and only positive timeouts of the
  service; it has a starter only if autostart is on; and it ends by releasing its name and closing the bus, with exit code 0.
  A process that does not serve ends at once, and its exit code says whether the command line was refused.
\<close>

theorem process_serves_with:
  "case nm_netbird_service getenv pd sys bus args of
     (Serve o1 so # rest, code) \<Rightarrow>
       rest = [ReleaseName BusName, CloseBus] \<and> code = 0 \<and> bus_request bus BusName = Inr True \<and>
       \<not> blank (do_Address o1) \<and> \<not> blank (do_DaemonService o1) \<and> do_DialTimeout o1 \<noteq> 0 \<and> do_RPCTimeout o1 \<noteq> 0 \<and>
       (do_Starter o1 = None \<or> do_StartDaemon o1) \<and>
       (0 < sint (ActivationTimeout so) \<and> 0 < sint (SSOWaitTimeout so) \<and> 0 < sint (OperationTimeout so) \<and>
        0 < sint (ReadyPollInterval so) \<and> 0 < sint (StatusPollInterval so) \<and> 0 < sint (StatusCallTimeout so))
   | (actions, code) \<Rightarrow>
       actions = [] \<and>
       code = (case parse_service_flags getenv pd args of
                 Inl HelpRequested \<Rightarrow> 0 | Inl _ \<Rightarrow> 2 | Inr _ \<Rightarrow> 1)"
proof (cases "parse_service_flags getenv pd args")
  case (Inl e)
  then show ?thesis
    by (cases e) (simp_all add: nm_netbird_service_def)
next
  case (Inr fl)
  show ?thesis
  proof (cases "service_main sys bus fl")
    case (Inl e)
    then show ?thesis
      using Inr by (simp add: nm_netbird_service_def)
  next
    case serves: (Inr r)
    obtain o1 so where r: "r = (o1, so)"
      by force
    from service_main_serves [OF serves [unfolded r]] obtain o2 so2 where
      o: "o1 = normalizeOptions o2" "so = normalizeServiceOptions so2" "bus_request bus BusName = Inr True"
        "do_Starter o2 = None \<or> do_StartDaemon o2" .
    then show ?thesis
      using normalizeOptions_sound [of o2] normalized_options_positive [of so2]
      by (simp add: nm_netbird_service_def Inr serves r blank_def normalizeOptions_fields)
        (simp add: normalizeOptions_def)
  qed
qed

section \<open>Starting the daemon service\<close>

lemma systemd_Start_default:
  assumes "trim_space name \<noteq> []"
  shows "snd (systemd_Start sys [] name d) = snd (run_command sys [''systemctl'', ''start'', trim_space name] d)"
    and "fst (systemd_Start sys [] name d) = None \<longleftrightarrow>
      fst (fst (run_command sys [''systemctl'', ''start'', trim_space name] d)) = None"
  using assms
  by (auto simp: systemd_Start_def Let_def split: prod.splits option.splits)

lemma NewStarter_cases: "NewStarter name = Inr st \<Longrightarrow> st = AutoStarter \<or> st = SystemdStarter []"
  by (auto simp: NewStarter_def split: if_splits)

text \<open>
  the only command the service runs. A service process that gets to serve owns its bus name; if it has a
  starter, autostart was asked for, and starting the daemon runs nothing or exactly \<open>systemctl start\<close> with the
  trimmed name of the configured service, \<open>netbird\<close> when that is blank, and succeeds only if the command does.
\<close>

theorem autostart_command:
  assumes "service_main sys bus fl = Inr (o1, so)" "do_Starter o1 = Some start"
  shows "bus_request bus BusName = Inr True \<and> sf_start_daemon fl
    \<and> (let name = (if trim_space (sf_daemon_service fl) = [] then ''netbird'' else trim_space (sf_daemon_service fl));
           run = run_command sys [''systemctl'', ''start'', name] d;
           r = start (do_DaemonService o1) d
       in (snd r = d \<and> fst r \<noteq> None \<or> snd r = snd run)
          \<and> (fst r = None \<longrightarrow> fst (fst run) = None \<and> snd r = snd run))"
proof -
  from assms obtain st where st: "NewStarter (sf_daemon_init_system fl) = Inr st" "start = starter_Start sys st"
    and facts: "bus_request bus BusName = Inr True" "sf_start_daemon fl"
      "do_DaemonService o1 = (if trim_space (sf_daemon_service fl) = [] then ''netbird'' else sf_daemon_service fl)"
    by (auto simp: service_main_def Let_def NewFactory_def normalizeOptions_fields DefaultDaemonService_def
        map_sum_Inr split: option.splits sum.splits bool.splits if_splits)
  have "trim_space ''netbird'' = ''netbird''"
    by code_simp
  then have name: "trim_space (do_DaemonService o1) =
      (if trim_space (sf_daemon_service fl) = [] then ''netbird'' else trim_space (sf_daemon_service fl))"
    "trim_space (do_DaemonService o1) \<noteq> []"
    using facts(3) by simp_all
  from NewStarter_cases [OF st(1)] systemd_Start_default [OF name(2), of sys d] show ?thesis
    unfolding st(2) Let_def name(1) [symmetric]
    by (elim disjE) (use facts in \<open>auto simp: starter_Start_def detectStarter_def\<close>)
qed

lemma autostart_command_witness:
  "\<exists>o1 so start. service_main \<lparr>run_command = (\<lambda>c d. ((None, []), d @ [c])), look_path = (\<lambda>_ _. True)\<rparr>
      \<lparr>bus_session = None, bus_system = None, bus_export = (\<lambda>_. None), bus_request = (\<lambda>_. Inr True)\<rparr>
      ((default_service_flags (\<lambda>_. []) (\<lambda>_. None))\<lparr>sf_start_daemon := True\<rparr>) = Inr (o1, so)
    \<and> do_Starter o1 = Some start \<and> snd (start (do_DaemonService o1) []) \<in> {[], [[''systemctl'', ''start'', ''netbird'']]}"
proof -
  let ?sys = "\<lparr>run_command = (\<lambda>c d. ((None, []), d @ [c])), look_path = (\<lambda>_ _. True)\<rparr>"
  let ?bus = "\<lparr>bus_session = None, bus_system = None, bus_export = (\<lambda>_. None), bus_request = (\<lambda>_. Inr True)\<rparr>"
  let ?fl = "(default_service_flags (\<lambda>_. []) (\<lambda>_. None))\<lparr>sf_start_daemon := True\<rparr>"
  have words: "trim_space ''auto'' = ''auto''" "to_lower ''auto'' = ''auto''" "trim_space ''system'' = ''system''"
    "to_lower ''system'' = ''system''" "trim_space ''netbird'' = ''netbird''"
    by code_simp+
  have svc: "NewStarter (sf_daemon_init_system ?fl) = Inr AutoStarter" "connectBus ?bus (sf_bus ?fl) = None"
    "trim_space (sf_daemon_service (default_service_flags (\<lambda>_. []) (\<lambda>_. None))) = ''netbird''"
    by (simp_all add: default_service_flags_def EnvSystem_def DefaultSystem_def env_StringDefault_def env_String_def NewStarter_def init_normalize_def
        connectBus_def normalizedBusName_def DefaultOptionsFromEnv_def env_override_def DefaultDaemonService_def words Let_def)
  then obtain o1 so where run: "service_main ?sys ?bus ?fl = Inr (o1, so)"
    "do_Starter o1 = Some (starter_Start ?sys AutoStarter)"
    by (auto simp: service_main_def Export_def Let_def NewFactory_def normalizeOptions_def)
  then have "snd (starter_Start ?sys AutoStarter (do_DaemonService o1) []) \<in>
      {[], [[''systemctl'', ''start'', ''netbird'']]}"
    using autostart_command [OF run, of "[]"] svc by (auto simp: Let_def)
  with run show ?thesis
    by blast
qed

end
