(* ===== verification/Signals.thy ===== *)
theory Signals
  imports Surface Monitor
begin

text \<open>
  The signals of the program against the introspection document: which of the declared signals the
  handlers, the activations and the monitors emit, and the types of signals and properties.
\<close>

section \<open>What the program emits\<close>

definition signals_of :: "action list \<Rightarrow> signal list" where
  "signals_of log = List.map_filter (\<lambda>a. case a of EmitSignal sig \<Rightarrow> Some sig | _ \<Rightarrow> None) log"

lemma set_signals_of: "set (signals_of log) = {sig. EmitSignal sig \<in> set log}"
  by (induction log) (auto simp: signals_of_def List.map_filter_simps split: action.splits)

text \<open>
  The signals that any goroutine of the program emits in any run in the given surroundings: a call of any
  exported method, an activation, the monitor of a session.
\<close>

definition emitted_signals :: "('h, 'd) runtime \<Rightarrow> signal set" where
  "emitted_signals rt =
     {sig. \<exists>s call. sig \<in> set (signals_of (fst (snd (handle_call rt call ([], s)))))} \<union>
     {sig. \<exists>s att. sig \<in> set (signals_of (fst (runActivation rt att ([], s))))} \<union>
     {sig. \<exists>s hook ctx h sid n. sig \<in> set (signals_of (fst (monitorStatus rt hook ctx h sid n ([], s))))}"

text \<open>The signals that the documentation declares as not used.\<close>

definition unused_signals :: "(string \<times> string list) set" where
  "unused_signals = {(Interface @ ''.Ip4Config'', [''a{sv}'']), (Interface @ ''.Ip6Config'', [''a{sv}''])}"

section \<open>Lemmas\<close>

subsection \<open>Handlers and monitors work as activations do\<close>

lemma grows_locked:
  "log_grows A g0 g \<Longrightarrow> log_grows A g0 (snd (locked rt f g))"
  "log_grows A g0 g \<Longrightarrow> log_grows A g0 (locked_do rt k g)"
  "log_grows A g0 g \<Longrightarrow> log_grows A g0 (blocked rt g)"
  "log_grows A g0 g \<Longrightarrow> log_grows A g0 (fst g, s)"
  by (cases g; simp add: log_grows_def)+

lemma grows_emit:
  assumes "log_grows working g0 g"
  shows "log_grows working g0 (snd (EmitFailure rt f g))"
    and "log_grows working g0 (emitStateChanged rt st g)"
    and "log_grows working g0 (setState rt st g)"
proof -
  obtain log s where g: "g = (log, s)"
    by force
  have "log_grows working g (snd (EmitFailure rt f g))" "log_grows working g (emitStateChanged rt st g)"
    by (auto simp: g log_grows_def EmitFailure_def working_defs)
  moreover have "log_grows working g (setState rt st g)"
    using setState_log [of rt st log s] by (auto simp: g log_grows_def working_defs)
  ultimately show "log_grows working g0 (snd (EmitFailure rt f g))" "log_grows working g0 (emitStateChanged rt st g)"
    "log_grows working g0 (setState rt st g)"
    using assms log_grows.R_trans by blast+
qed

lemma grows_call:
  assumes "log_grows working g0 g"
  shows "log_grows working g0 (snd (c_Down (api rt h) g))"
    and "log_grows working g0 (snd (c_Close (api rt h) g))"
    and "log_grows working g0 (snd (c_Status (api rt h) opts g))"
proof -
  have "log_grows working g (snd (c_Down (api rt h) g))" "log_grows working g (snd (c_Close (api rt h) g))"
    "log_grows working g (snd (c_Status (api rt h) opts g))"
    by (cases g; auto simp: log_grows_def api_def recording_def logged_def working_defs split: prod.split)+
  then show "log_grows working g0 (snd (c_Down (api rt h) g))" "log_grows working g0 (snd (c_Close (api rt h) g))"
    "log_grows working g0 (snd (c_Status (api rt h) opts g))"
    using assms log_grows.R_trans by blast+
qed

lemmas grows = log_grows.R_refl grows_locked grows_emit grows_call

lemma handle_call_works: "log_grows working g (snd (handle_call rt call g))"
proof -
  have start: "log_grows working g (snd (startActivation rt c d i g))" for c d i
    using grows_locked(1) [OF log_grows.R_refl, of working g rt reserveActivation]
    by (auto simp: startActivation_def split: prod.split sum.split intro!: grows)
  have "log_grows working g (snd (Disconnect rt g))"
    by (auto simp: Disconnect_def Let_def case_prod_beta split: option.split intro!: grows)
  then show ?thesis
    using start
    by (cases call)
      (auto simp: Connect_def ConnectInteractive_def SetConfig_def SetIp4Config_def SetIp6Config_def SetFailure_def
        case_prod_beta intro!: grows)
qed

lemma poll_works:
  assumes "log_grows working g0 g"
  shows "log_grows working g0 (snd (pollDaemonStatus rt ctx h sid g))"
    and "log_grows working g0 (snd (stopAfterStatusPollFailureThreshold rt hook ctx sid n g))"
proof -
  have clear: "log_grows working g0 g \<Longrightarrow> log_grows working g0 (clearActiveSession rt sid b g)" for b g
    by (auto simp: clearActiveSession_def case_prod_beta split: option.split intro!: grows)
  with assms show "log_grows working g0 (snd (pollDaemonStatus rt ctx h sid g))"
    by (auto simp: pollDaemonStatus_def case_prod_beta split: sum.split nb_state.split intro!: grows clear)
  have "log_grows working g0 g \<Longrightarrow> log_grows working g0 (snd (failActiveSessionAfterStatusThreshold rt sid g))" for g
    by (auto simp: failActiveSessionAfterStatusThreshold_def case_prod_beta Let_def split: option.split intro!: grows)
  with assms show "log_grows working g0 (snd (stopAfterStatusPollFailureThreshold rt hook ctx sid n g))"
    by (auto simp: stopAfterStatusPollFailureThreshold_def intro!: grows)
qed

lemma monitor_works: "log_grows working g0 g \<Longrightarrow> log_grows working g0 (monitor_loop rt hook ctx h sid n k g)"
proof (induction n arbitrary: k g)
  case 0
  then show ?case
    by (subst monitor_loop.simps) (auto simp: case_prod_beta Let_def split: bool.split if_splits intro!: grows poll_works)
next
  case (Suc n)
  show ?case
    by (subst monitor_loop.simps)
      (auto simp: case_prod_beta Let_def split: bool.split if_splits intro!: Suc grows poll_works)
qed

subsection \<open>All signals but two\<close>

lemma emitted_signals_working: "EmitSignal ` emitted_signals rt \<subseteq> working \<union> auth_calls"
proof -
  have call: "set (fst (snd (handle_call rt call ([], s)))) \<subseteq> working" for call s
    using handle_call_works [of "([], s)" rt call] by (auto simp: log_grows_def)
  moreover have "set (fst (monitorStatus rt hook ctx h sid n ([], s))) \<subseteq> working" for hook ctx h sid n s
    using monitor_works [OF log_grows.R_refl, of "([], s)" rt hook ctx h sid n 0]
    by (auto simp: log_grows_def monitorStatus_def)
  moreover have "set (fst (runActivation rt att ([], s))) \<subseteq> working \<union> auth_calls" for att s
    by (rule runActivation_budget [OF Un_upper1 budget_mono [OF authentication.call_budget_axioms Un_upper2]])
  ultimately show ?thesis
    by (auto simp: emitted_signals_def set_signals_of) blast+
qed

lemma emitted_signatures:
  "signal_signature ` emitted_signals rt \<subseteq> set (declared_signals plugin_declarations) - unused_signals"
proof -
  have "signal_signature sig \<notin> unused_signals" if "EmitSignal sig \<in> working \<union> auth_calls" for sig
    using that by (auto simp: working_defs signal_signature_def unused_signals_def)
  then show ?thesis
    using emitted_signals_working [of rt] signal_signatures by blast
qed

text \<open>An interactive activation with a browser login, and a Disconnect that fails, emit the others.\<close>

definition login_runtime :: "(nat, unit) runtime" where
  "login_runtime = (steady_runtime ''Connected'')
     \<lparr>rt_api := \<lambda>_. (steady_client
        \<lparr>NeedsSSOLogin = True, UserCode = ''c'', VerificationURI = ''u'', VerificationURIComplete = ''v''\<rparr>
        (Some \<lparr>resp_Status = ''Connected'', resp_FullStatus = None, resp_DaemonVersion = []\<rparr>))
        \<lparr>c_Down := \<lambda>s. (Some (ErrText ''down''), s)\<rparr>\<rparr>"

definition login_attempt :: activationAttempt where
  "login_attempt = steady_attempt
     \<lparr>attempt_connection := [(''vpn'', [(''auth-mode'', VString ''sso''), (''management-url'', VString ''h'')])],
      attempt_interactive := True\<rparr>"

lemma login_runtime_signals:
  "signal_signature ` emitted_signals login_runtime = set (declared_signals plugin_declarations) - unused_signals"
proof
  show "signal_signature ` emitted_signals login_runtime \<subseteq> set (declared_signals plugin_declarations) - unused_signals"
    by (rule emitted_signatures)
  let ?login = "signals_of (fst (runActivation login_runtime login_attempt ([], sys_svc (first_attempt ()))))"
  let ?stop = "signals_of (fst (snd (handle_call login_runtime CallDisconnect ([], scripted_session ()))))"
  have "set ?login \<subseteq> emitted_signals login_runtime" "set ?stop \<subseteq> emitted_signals login_runtime"
    unfolding emitted_signals_def by blast+
  then have "signal_signature ` set (?login @ ?stop) \<subseteq> signal_signature ` emitted_signals login_runtime"
    by auto
  moreover have "list_all (\<lambda>d. d \<in> set (map signal_signature (?login @ ?stop)))
      (filter (\<lambda>d. d \<notin> {(Interface @ ''.Ip4Config'', [''a{sv}'']), (Interface @ ''.Ip6Config'', [''a{sv}''])})
        (declared_signals plugin_declarations))"
    by code_simp
  ultimately show
    "set (declared_signals plugin_declarations) - unused_signals \<subseteq> signal_signature ` emitted_signals login_runtime"
    unfolding unused_signals_def list_all_iff set_filter set_map by blast
qed

section \<open>Properties\<close>

text \<open>
  C18: signals and properties are as declared. Whatever runs, a handler, an activation or a monitor, in whatever
  surroundings, emits only signals of the introspection document, under their full names, with the types of
  their arguments and on the exported object, and never \<open>Ip4Config\<close> or \<open>Ip6Config\<close>, which the document declares
  but the reference documentation calls not used; in some surroundings each of the other declared
  signals is emitted. The properties the document declares are exactly those that can be read, with the
  type of the value returned, alone or in the list of all, and they are declared read-only.
\<close>

theorem signals_and_properties_typed:
  "case read_introspection IntrospectionXML of
     None \<Rightarrow> False
   | Some ds \<Rightarrow>
       signal_signature ` emitted_signals rt \<subseteq> set (declared_signals ds) - unused_signals \<and>
       (\<exists>rt' :: (nat, unit) runtime.
          signal_signature ` emitted_signals rt' = set (declared_signals ds) - unused_signals) \<and>
       unused_signals \<subseteq> set (declared_signals ds) \<and> (\<forall>sig. fst (emit_message sig) = ObjectPath) \<and>
       (\<forall>s i n.
          {(t, acc). (n, t, acc) \<in> set (declared_properties i ds)} =
            (case Properties_Get s i n of Inl _ \<Rightarrow> {} | Inr v \<Rightarrow> {(variant_signature v, ''read'')})) \<and>
       (\<forall>s i.
          declared_properties i ds =
            (case Properties_GetAll s i of
               Inl _ \<Rightarrow> [] | Inr vs \<Rightarrow> map (\<lambda>(n, v). (n, variant_signature v, ''read'')) vs))"
proof -
  have "declared_properties i plugin_declarations = (if i = Interface then [(''State'', ''u'', ''read'')] else [])" for i
    by (simp add: plugin_declarations_def)
  moreover have "fst (emit_message sig) = ObjectPath" for sig
    by (cases sig) simp_all
  moreover have "unused_signals \<subseteq> set (declared_signals plugin_declarations)"
    by (simp add: unused_signals_def plugin_declarations_def)
  ultimately show ?thesis
    unfolding read_plugin option.case
    by (intro conjI allI emitted_signatures exI [of _ login_runtime] login_runtime_signals)
      (auto simp: Properties_Get_def Properties_GetAll_def)
qed

end
