(* ===== verification/Logging.thy ===== *)
theory Logging
  imports Signals GrpcClient
begin

text \<open>
  What the service writes to its log of the calls it gets, the signals it sends and the daemon's status
  (\<open>logf\<close> and its callers in \<open>internal/nmplugin\<close>), and the remaining helpers of \<open>helpers.go\<close>: contexts with a timeout, the
  wait of the monitor and the default client factory. The lemmas show what of a call its log lines depend on.
\<close>

section \<open>Definitions\<close>

subsection \<open>Log lines\<close>

text \<open>\<open>logf\<close> on a format and the text it renders to; outside debug mode the format decides.\<close>

definition logf :: "bool \<Rightarrow> string \<Rightarrow> string \<Rightarrow> string list" where
  "logf debug format rendered =
     (if debug then [rendered]
      else if prefix ''Connect'' format \<or> prefix ''Disconnect'' format then [rendered] else [])"

text \<open>The lines of \<open>NewSecrets\<close> on the prompt it finds under the lock.\<close>

definition new_secrets_log :: "bool \<Rightarrow> ('h, 'd) service \<Rightarrow> connection_settings \<Rightarrow> string list" where
  "new_secrets_log debug s connection =
     (let settings = parseActivationSettings connection
      in case svc_prompt s of
           None \<Rightarrow> []
         | Some p \<Rightarrow>
             if s_PromptActivationID settings = []
             then logf debug ''NewSecrets missing activation id; accepting for current in-flight prompt''
                    ''NewSecrets missing activation id; accepting for current in-flight prompt''
             else if s_PromptActivationID settings \<noteq> formatActivationID (prompt_activationID p)
             then logf debug ''ignoring stale NewSecrets for activation %s''
                    (''ignoring stale NewSecrets for activation '' @ s_PromptActivationID settings)
             else [])"

text \<open>
  The lines of \<open>Disconnect\<close> after its first one: errors of the daemon are logged in every mode. \<open>show\<close> is the
  text of an error, \<open>err.Error()\<close>.
\<close>

definition disconnect_log :: "(gerr \<Rightarrow> string) \<Rightarrow> ('h, 'd) runtime \<Rightarrow> ('h, 'd) go \<Rightarrow> string list" where
  "disconnect_log show rt g0 =
     (case locked rt disconnectLocked g0 of
        (None, g1) \<Rightarrow> []
      | (Some h, g1) \<Rightarrow>
          (case c_Down (api rt h) (setState rt ServiceStateStopping g1) of
             (err, g3) \<Rightarrow>
               (case fst (c_Close (api rt h) g3) of
                  Some closeErr \<Rightarrow> [''close netbird daemon client after disconnect: '' @ show closeErr]
                | None \<Rightarrow> []) @
               (case err of Some e \<Rightarrow> [''netbird down failed: '' @ show e] | None \<Rightarrow> [])))"

text \<open>
  The lines a handler writes itself, in their order, when it is called in the state \<open>g\<close>; those of the
  signals it emits are \<open>emit_log\<close>. Calls of the other interfaces write nothing.
\<close>

fun call_log ::
  "(gerr \<Rightarrow> string) \<Rightarrow> bool \<Rightarrow> ('h, 'd) runtime \<Rightarrow> dbus_call \<Rightarrow> ('h, 'd) go \<Rightarrow> string list" where
  "call_log show debug rt (CallConnect c) g =
     logf debug ''Connect(%s)'' (''Connect('' @ summarizeSettings c @ '')'')"
| "call_log show debug rt (CallConnectInteractive c d) g =
     logf debug ''ConnectInteractive(%s, details=%s)''
       (''ConnectInteractive('' @ summarizeSettings c @ '', details='' @ summarizeVariantMap d @ '')'')"
| "call_log show debug rt (CallNeedSecrets c) g =
     logf debug ''NeedSecrets(%s)'' (''NeedSecrets('' @ summarizeSettings c @ '')'')"
| "call_log show debug rt (CallNewSecrets c) g =
     logf debug ''NewSecrets(%s)'' (''NewSecrets('' @ summarizeSettings c @ '')'') @
     fst (locked rt (\<lambda>s. (new_secrets_log debug s c, s)) g)"
| "call_log show debug rt CallDisconnect g =
     logf debug ''Disconnect()'' ''Disconnect()'' @ disconnect_log show rt g"
| "call_log show debug rt (CallSetConfig c) g =
     logf debug ''SetConfig(%s)'' (''SetConfig('' @ summarizeVariantMap c @ '')'')"
| "call_log show debug rt (CallSetIp4Config c) g =
     logf debug ''SetIp4Config(%s)'' (''SetIp4Config('' @ summarizeVariantMap c @ '')'')"
| "call_log show debug rt (CallSetIp6Config c) g =
     logf debug ''SetIp6Config(%s)'' (''SetIp6Config('' @ summarizeVariantMap c @ '')'')"
| "call_log show debug rt (CallSetFailure r) g =
     logf debug ''SetFailure(%q)'' (''SetFailure('' @ go_quote r @ '')'')"
| "call_log show debug rt _ g = []"

text \<open>In debug mode \<open>emit\<close> names the signal; \<open>PropertiesChanged\<close> is not sent by it.\<close>

definition emit_log :: "bool \<Rightarrow> signal \<Rightarrow> string list" where
  "emit_log debug sig =
     (case sig of
        PropertiesChanged changed \<Rightarrow> []
      | _ \<Rightarrow> if debug then [''emit '' @ fst (snd (emit_message sig))] else [])"

definition logDaemonStatus :: "bool \<Rightarrow> mapping \<Rightarrow> string list" where
  "logDaemonStatus debug mapped =
     (if mapped_DaemonVersion mapped = [] then []
      else logf debug ''netbird daemon version %s status=%s''
             (''netbird daemon version '' @ mapped_DaemonVersion mapped @ '' status='' @ state_String (mapped_State mapped)))"

subsection \<open>Contexts, waits and the default factory\<close>

definition timeoutCtxWithDefault :: "int \<Rightarrow> deadline \<Rightarrow> duration \<Rightarrow> duration \<Rightarrow> deadline" where
  "timeoutCtxWithDefault now parent activationTimeout fallback =
     with_timeout now (positiveDuration activationTimeout fallback) parent"

text \<open>
  The \<open>select\<close> of the monitor between two polls, with the number of intervals that are taken before the end of the
  context: the number that is left, or \<open>None\<close> for the end.
\<close>

definition waitForStatusPollInterval ::
  "('h, 'd) runtime \<Rightarrow> nat \<Rightarrow> ('h, 'd) go \<Rightarrow> nat option \<times> ('h, 'd) go" where
  "waitForStatusPollInterval rt intervals g =
     ((case intervals of 0 \<Rightarrow> None | Suc n \<Rightarrow> Some n), blocked rt g)"

text \<open>The options of the factory that \<open>normalizeServiceOptions\<close> puts in when none is given.\<close>

definition default_client_factory ::
  "(string \<Rightarrow> string) \<Rightarrow> (string \<Rightarrow> duration option) \<Rightarrow> 'd daemon_options option \<Rightarrow> 'd daemon_options" where
  "default_client_factory getenv pd factory =
     (case factory of Some f \<Rightarrow> f | None \<Rightarrow> NewFactory (DefaultOptionsFromEnv getenv pd))"

section \<open>Lemmas\<close>

text \<open>The loop of the monitor as the code writes it, with the wait as a call.\<close>

lemma monitor_loop_waits:
  "monitor_loop rt hook ctx h sid intervals failures g =
     (if contextCancelled ctx (snd g) then g
      else
        (case pollDaemonStatus rt ctx h sid g of
           ((keepGoing, failed), g) \<Rightarrow>
             if \<not> keepGoing then g
             else
               (let failures' = nextConsecutiveStatusFailures failures failed
                in case (if failed
                         then stopAfterStatusPollFailureThreshold rt hook ctx sid failures' g
                         else (False, g)) of
                     (True, g) \<Rightarrow> g
                   | (False, g) \<Rightarrow>
                       (case waitForStatusPollInterval rt intervals g of
                          (None, g) \<Rightarrow> g
                        | (Some n, g) \<Rightarrow> monitor_loop rt hook ctx h sid n failures' g))))"
proof -
  have wait: "(case waitForStatusPollInterval rt intervals g of (None, g) \<Rightarrow> g | (Some n, g) \<Rightarrow> next_round n g) =
      (case intervals of 0 \<Rightarrow> blocked rt g | Suc n \<Rightarrow> next_round n (blocked rt g))" for next_round g
    by (cases intervals) (simp_all add: waitForStatusPollInterval_def)
  show ?thesis
    unfolding wait by (rule monitor_loop.simps)
qed

text \<open>Every wait has a deadline, no later than its parent's, and in the future unless the parent's is not.\<close>

lemma timeoutCtxWithDefault_deadline:
  assumes "0 < sint fallback"
  shows "\<exists>t. timeoutCtxWithDefault now parent d fallback = Some t \<and> (\<forall>u. parent = Some u \<longrightarrow> t \<le> u) \<and>
    (now < t \<or> parent = Some t)"
  using assms
  by (auto simp: timeoutCtxWithDefault_def with_timeout_def positiveDuration_def split: option.split)

text \<open>A call without the values of its settings.\<close>

definition names_only :: "variant_map \<Rightarrow> variant_map" where
  "names_only = map (\<lambda>(k, v). (k, VOther))"

definition settings_names_only :: "connection_settings \<Rightarrow> connection_settings" where
  "settings_names_only = map (\<lambda>(section, vs). (section, names_only vs))"

fun redacted :: "dbus_call \<Rightarrow> dbus_call" where
  "redacted (CallConnect c) = CallConnect (settings_names_only c)"
| "redacted (CallConnectInteractive c d) = CallConnectInteractive (settings_names_only c) (names_only d)"
| "redacted (CallNeedSecrets c) = CallNeedSecrets (settings_names_only c)"
| "redacted (CallNewSecrets c) = CallNewSecrets (settings_names_only c)"
| "redacted (CallSetConfig c) = CallSetConfig (names_only c)"
| "redacted (CallSetIp4Config c) = CallSetIp4Config (names_only c)"
| "redacted (CallSetIp6Config c) = CallSetIp6Config (names_only c)"
| "redacted call = call"

fun named_activation :: "dbus_call \<Rightarrow> string" where
  "named_activation (CallNewSecrets c) = s_PromptActivationID (parseActivationSettings c)"
| "named_activation _ = []"

lemma map_fst_names_only [simp]: "map fst (names_only vs) = map fst vs"
  by (simp add: names_only_def case_prod_unfold comp_def)

lemma summarizeVariantMap_names [simp]: "summarizeVariantMap (names_only vs) = summarizeVariantMap vs"
  by (simp add: summarizeVariantMap_def) (simp add: names_only_def)

lemma summarizeSettings_names [simp]: "summarizeSettings (settings_names_only c) = summarizeSettings c"
  by (rule summary_hides_values) (simp add: settings_names_only_def case_prod_unfold comp_def)

lemma new_secrets_log_named:
  "s_PromptActivationID (parseActivationSettings c) = s_PromptActivationID (parseActivationSettings c') \<Longrightarrow>
   new_secrets_log debug s c = new_secrets_log debug s c'"
  unfolding new_secrets_log_def Let_def by (erule ssubst) (rule refl)

lemma call_log_redacted:
  "call_log show debug rt call g = (case call of
     CallNewSecrets c \<Rightarrow> logf debug ''NewSecrets(%s)'' (''NewSecrets('' @ summarizeSettings (settings_names_only c) @ '')'') @
       fst (locked rt (\<lambda>s. (new_secrets_log debug s c, s)) g)
   | _ \<Rightarrow> call_log show debug rt (redacted call) g)"
  by (cases call) simp_all

section \<open>Properties\<close>

text \<open>
  C20: the log of a call gives no setting away but the number of an activation. Two calls that differ only
  in the values of their settings and details, so in setup keys, pre-shared keys or whatever a user typed, and
  that, if they answer a prompt, name the same activation, write the same lines in the handler, in debug mode too, in the same state and
  with the same answers of the daemon; the activation that a stale answer names is the one value that is logged.
  Outside debug mode only the calls that connect and disconnect write anything, and a Disconnect without a client writes its own line only.
\<close>

theorem call_log_hides_values:
  assumes "redacted call = redacted call'" "named_activation call = named_activation call'"
  shows "call_log show debug rt call g = call_log show debug rt call' g \<and>
    (call_log show False rt call g \<noteq> [] \<longleftrightarrow>
       call = CallDisconnect \<or> (\<exists>c. call = CallConnect c) \<or> (\<exists>c d. call = CallConnectInteractive c d)) \<and>
    (svc_client (rt_meanwhile rt (snd g)) = None \<longrightarrow> call_log show debug rt CallDisconnect g = [''Disconnect()''])"
proof (intro conjI)
  show "call_log show debug rt call g = call_log show debug rt call' g"
    using assms
    by (subst (1 2) call_log_redacted) (cases call; cases call'; cases g; auto dest: new_secrets_log_named)
  show "call_log show False rt call g \<noteq> [] \<longleftrightarrow>
      call = CallDisconnect \<or> (\<exists>c. call = CallConnect c) \<or> (\<exists>c d. call = CallConnectInteractive c d)"
    by (cases call; cases g) (auto simp: logf_def new_secrets_log_def Let_def split: option.split)
  show "svc_client (rt_meanwhile rt (snd g)) = None \<longrightarrow> call_log show debug rt CallDisconnect g = [''Disconnect()'']"
    by (cases g) (auto simp: logf_def disconnect_log_def disconnectLocked_def cancel_if_def cancel_ctx_def Let_def split: option.split)
qed

lemma call_log_hides_values_witness:
  "call_log (\<lambda>_. []) True (steady_runtime ''Connected'')
     (CallConnect [(''vpn'', [(''setup-key'', VString ''secret'')])]) ([], NewService ()) =
   call_log (\<lambda>_. []) True (steady_runtime ''Connected'')
     (CallConnect [(''vpn'', [(''setup-key'', VString ''other'')])]) ([], NewService ())"
  by (rule call_log_hides_values [THEN conjunct1]) (simp_all add: settings_names_only_def names_only_def)

text \<open>The activation named by a stale answer does get into the log.\<close>

lemma stale_activation_logged:
  "call_log show True (steady_runtime ''Connected'')
     (CallNewSecrets [(''vpn'', [(''x-netbird-activation-id'', VString ''9'')])])
     ([], (NewService ())\<lparr>svc_prompt := Some \<lparr>prompt_activationID = 1, prompt_kind = PromptSetupKey, prompt_result = None\<rparr>\<rparr>) =
   [''NewSecrets(vpn[x-netbird-activation-id])'', ''ignoring stale NewSecrets for activation 9'']"
  by code_simp

end
